(* ===== verification/Prelude.thy ===== *)
theory Prelude
  imports Main "HOL-Library.Word" "HOL-Library.State_Monad" "HOL-Library.AList"
    "HOL-Library.Multiset"
begin

text \<open>
  Shared vocabulary of the development. It fixes how the constructs of Go that every component
  uses are written in HOL:
  \<^item> a function with effects is a program of the state monad over the world, so a chain of Go
    statements is a \<open>do\<close> block and every early return is a branch of a \<open>case\<close> or an \<open>if\<close>;
  \<^item> Go's \<open>(T, error)\<close> result is the sum \<open>error + T\<close>, a lone \<open>error\<close> result is \<open>error option\<close>
    with \<open>None\<close> for \<open>nil\<close>;
  \<^item> a Go \<open>map\<close> is an association list with distinct keys; \<open>range\<close> over it visits the entries in
    an order that the program does not control, so it is a permutation given from outside;
  \<^item> \<open>int\<close> and \<open>time.Duration\<close> are 64 bits wide, and \<open>wrap64\<close> writes their wrap-around out.
  The collections declared here carry the component proofs.
\<close>

named_theorems run_simps \<open>how run_state moves through branches\<close>
named_theorems spec_defs \<open>the abstract store specifications, to be unfolded together\<close>
named_theorems method_defs \<open>the methods of one concrete implementation of an interface\<close>

section \<open>Running programs of the state monad\<close>

lemma run_state_if [run_simps]:
  "run_state (if b then m else n) w = (if b then run_state m w else run_state n w)"
  by simp

lemma run_state_case_option [run_simps]:
  "run_state (case x of None \<Rightarrow> m | Some y \<Rightarrow> f y) w =
     (case x of None \<Rightarrow> run_state m w | Some y \<Rightarrow> run_state (f y) w)"
  by (cases x) simp_all

lemma run_state_case_sum [run_simps]:
  "run_state (case x of Inl e \<Rightarrow> f e | Inr y \<Rightarrow> g y) w =
     (case x of Inl e \<Rightarrow> run_state (f e) w | Inr y \<Rightarrow> run_state (g y) w)"
  by (cases x) simp_all

lemma run_state_case_prod [run_simps]:
  "run_state (case p of (a, b) \<Rightarrow> f a b) w = (case p of (a, b) \<Rightarrow> run_state (f a b) w)"
  by (cases p) simp

lemma bind_case_sum:
  "State_Monad.bind (case x of Inl a \<Rightarrow> f a | Inr b \<Rightarrow> g b) k =
   (case x of Inl a \<Rightarrow> State_Monad.bind (f a) k | Inr b \<Rightarrow> State_Monad.bind (g b) k)"
  by (cases x) simp_all

lemma bind_case_option:
  "State_Monad.bind (case x of None \<Rightarrow> f | Some b \<Rightarrow> g b) k =
   (case x of None \<Rightarrow> State_Monad.bind f k | Some b \<Rightarrow> State_Monad.bind (g b) k)"
  by (cases x) simp_all

lemma bind_if:
  "State_Monad.bind (if b then f else g) k = (if b then State_Monad.bind f k else State_Monad.bind g k)"
  by simp

text \<open>A program that is composed of parts, as one.\<close>

lemmas bind_simps = State_Monad.bind_assoc bind_case_sum bind_case_option bind_if State_Monad.bind_left_identity sum.case option.case

lemma run_state_bind_eq:
  "run_state (State_Monad.bind m f) w = (r, w') \<longleftrightarrow>
     (\<exists>a w1. run_state m w = (a, w1) \<and> run_state (f a) w1 = (r, w'))"
  by (auto split: prod.splits)

lemma map_sum_eq_Inr: "map_sum f g r = Inr y \<longleftrightarrow> (\<exists>z. r = Inr z \<and> y = g z)"
  by (cases r) auto

section \<open>Weakest preconditions\<close>

text \<open>
  The client proofs run symbolically: \<open>wp m Q w\<close> says that \<open>m\<close>, run from \<open>w\<close>, ends in a result and
  a state that satisfy \<open>Q\<close>. The rules in \<open>wp_intros\<close> follow the shape of the program; the contract of
  an interface adds one rule per method.
\<close>

named_theorems wp_intros \<open>weakest-precondition rules, by the shape of the program\<close>

definition wp :: "('s, 'a) state \<Rightarrow> ('a \<Rightarrow> 's \<Rightarrow> bool) \<Rightarrow> 's \<Rightarrow> bool" where
  "wp m Q w \<longleftrightarrow> Q (fst (run_state m w)) (snd (run_state m w))"

lemma wpI: "(\<And>r w'. run_state m w = (r, w') \<Longrightarrow> Q r w') \<Longrightarrow> wp m Q w"
  by (simp add: wp_def)

lemma wpD: "wp m Q w \<Longrightarrow> run_state m w = (r, w') \<Longrightarrow> Q r w'"
  by (simp add: wp_def)

lemma wp_mono: "wp m P w \<Longrightarrow> (\<And>r w'. P r w' \<Longrightarrow> Q r w') \<Longrightarrow> wp m Q w"
  by (simp add: wp_def)

lemma wp_return [wp_intros]: "Q x w \<Longrightarrow> wp (State_Monad.return x) Q w"
  by (simp add: wp_def)

lemma wp_bind [wp_intros]: "wp m (\<lambda>a. wp (f a) Q) w \<Longrightarrow> wp (State_Monad.bind m f) Q w"
  by (simp add: wp_def split_beta)

lemma wp_if [wp_intros]: "(b \<Longrightarrow> wp m Q w) \<Longrightarrow> (\<not> b \<Longrightarrow> wp n Q w) \<Longrightarrow> wp (if b then m else n) Q w"
  by simp

lemma wp_case_option [wp_intros]:
  "(x = None \<Longrightarrow> wp m Q w) \<Longrightarrow> (\<And>y. x = Some y \<Longrightarrow> wp (f y) Q w) \<Longrightarrow>
   wp (case x of None \<Rightarrow> m | Some y \<Rightarrow> f y) Q w"
  by (cases x) simp_all

lemma wp_case_sum [wp_intros]:
  "(\<And>e. x = Inl e \<Longrightarrow> wp (f e) Q w) \<Longrightarrow> (\<And>y. x = Inr y \<Longrightarrow> wp (g y) Q w) \<Longrightarrow>
   wp (case x of Inl e \<Rightarrow> f e | Inr y \<Rightarrow> g y) Q w"
  by (cases x) simp_all

lemma wp_case_prod [wp_intros]:
  "(\<And>a b. p = (a, b) \<Longrightarrow> wp (f a b) Q w) \<Longrightarrow> wp (case p of (a, b) \<Rightarrow> f a b) Q w"
  by (cases p) simp

section \<open>64-bit integers\<close>

definition wrap64 :: "int \<Rightarrow> int" where
  "wrap64 x = (x + 2 ^ 63) mod 2 ^ 64 - 2 ^ 63"

lemma wrap64_range: "- (2 ^ 63) \<le> wrap64 x \<and> wrap64 x < 2 ^ 63"
proof -
  have "0 \<le> (x + 2 ^ 63) mod 2 ^ 64" and "(x + 2 ^ 63) mod 2 ^ 64 < (2::int) ^ 64"
    by simp_all
  then show ?thesis by (simp add: wrap64_def)
qed

lemma wrap64_id [simp]: "- (2 ^ 63) \<le> x \<Longrightarrow> x < 2 ^ 63 \<Longrightarrow> wrap64 x = x"
  by (simp add: wrap64_def mod_pos_pos_trivial)

section \<open>Time\<close>

text \<open>
  \<open>time.Time\<close> and \<open>time.Duration\<close> are numbers of nanoseconds. An instant is unbounded: the real
  type keeps 64-bit seconds beside the nanoseconds, so adding a 64-bit duration (at most 292 years)
  to a clock reading does not overflow.
\<close>

type_synonym Time = int
type_synonym Duration = int

definition time_Second :: Duration where "time_Second = 1000000000"
definition time_Minute :: Duration where "time_Minute = 60 * time_Second"
definition time_Hour :: Duration where "time_Hour = 60 * time_Minute"

section \<open>Go maps\<close>

type_synonym ('k, 'v) gomap = "('k \<times> 'v) list"

abbreviation gomap_wf :: "('k, 'v) gomap \<Rightarrow> bool" where
  "gomap_wf m \<equiv> distinct (map fst m)"

text \<open>The library turns lookups into membership; here the lookup is the abstraction.\<close>

declare map_of_eq_Some_iff [simp del] and Some_eq_map_of_iff [simp del]

text \<open>\<open>m[k] = v\<close> and \<open>delete(m, k)\<close>; \<open>m[k]\<close> is \<^const>\<open>map_of\<close>.\<close>

definition gomap_set :: "'k \<Rightarrow> 'v \<Rightarrow> ('k, 'v) gomap \<Rightarrow> ('k, 'v) gomap" where
  "gomap_set k v m = AList.update k v m"

definition gomap_delete :: "'k \<Rightarrow> ('k, 'v) gomap \<Rightarrow> ('k, 'v) gomap" where
  "gomap_delete k m = AList.delete k m"

lemma map_of_gomap_set [simp]: "map_of (gomap_set k v m) = (map_of m)(k \<mapsto> v)"
  by (simp add: gomap_set_def update_conv')

lemma map_of_gomap_delete [simp]: "map_of (gomap_delete k m) = (map_of m)(k := None)"
  by (simp add: gomap_delete_def delete_conv')

lemma gomap_wf_set [simp]: "gomap_wf m \<Longrightarrow> gomap_wf (gomap_set k v m)"
  by (simp add: gomap_set_def distinct_update)

lemma gomap_wf_delete [simp]: "gomap_wf m \<Longrightarrow> gomap_wf (gomap_delete k m)"
  by (simp add: gomap_delete_def distinct_delete)

text \<open>
  The order in which \<open>range\<close> visits the entries: the positions in \<open>p\<close> when \<open>p\<close> lists every
  position once, the stored order otherwise. Either way every entry is visited exactly once, which
  is all that the language promises.
\<close>

definition range_order :: "nat list \<Rightarrow> 'a list \<Rightarrow> 'a list" where
  "range_order p xs = (if sort p = [0..<length xs] then map ((!) xs) p else xs)"

lemma mset_range_order: "mset (range_order p xs) = mset xs"
proof (cases "sort p = [0..<length xs]")
  case True
  then have "mset p = mset [0..<length xs]"
    by (metis mset_sort)
  then have "mset (map ((!) xs) p) = mset (map ((!) xs) [0..<length xs])"
    by (simp add: mset_map)
  with True show ?thesis
    by (simp add: range_order_def map_nth)
next
  case False
  then show ?thesis by (simp only: range_order_def if_False)
qed

lemma set_range_order [simp]: "set (range_order p xs) = set xs"
  by (metis mset_range_order set_mset_mset)

lemma distinct_range_order [simp]: "distinct (range_order p xs) = distinct xs"
  by (metis mset_range_order mset_eq_imp_distinct_iff)

lemma gomap_wf_range_order [simp]: "gomap_wf (range_order p m) = gomap_wf m"
  by (metis mset_range_order mset_map mset_eq_imp_distinct_iff)

lemma map_of_range_order [simp]: "gomap_wf m \<Longrightarrow> map_of (range_order p m) = map_of m"
  by (rule map_of_eqI) (auto simp: map_of_eq_Some_iff)

text \<open>
  The loop \<open>for k, v := range m { if P(v) { m[k] = f(v) } }\<close>: every entry is visited once and
  only its own key is assigned, so the loop rewrites the values in place, in whatever order it runs.
\<close>

definition range_assign :: "('v \<Rightarrow> bool) \<Rightarrow> ('v \<Rightarrow> 'v) \<Rightarrow> nat list \<Rightarrow> ('k, 'v) gomap \<Rightarrow> ('k, 'v) gomap"
  where
  "range_assign P f p m =
     fold (\<lambda>(k, v) acc. if P v then gomap_set k (f v) acc else acc) (range_order p m) m"

lemma map_of_fold_assign:
  "gomap_wf es \<Longrightarrow>
   map_of (fold (\<lambda>(k, v) acc. if P v then gomap_set k (f v) acc else acc) es m) k =
     (case map_of es k of
        Some v \<Rightarrow> if P v then Some (f v) else map_of m k
      | None \<Rightarrow> map_of m k)"
proof (induction es arbitrary: m)
  case Nil
  then show ?case by simp
next
  case (Cons e es)
  obtain k' v' where e: "e = (k', v')" by (cases e)
  from Cons.prems e have fresh: "map_of es k' = None" and wf: "gomap_wf es"
    by (simp_all add: map_of_eq_None_iff)
  show ?case
    using fresh by (auto simp: e Cons.IH [OF wf] split: option.splits)
qed

lemma map_of_range_assign:
  assumes "gomap_wf m"
  shows "map_of (range_assign P f p m) k = map_option (\<lambda>v. if P v then f v else v) (map_of m k)"
  using assms by (auto simp: range_assign_def map_of_fold_assign split: option.splits)

lemma gomap_wf_fold_assign:
  "gomap_wf m \<Longrightarrow> gomap_wf (fold (\<lambda>(k, v) acc. if P v then gomap_set k (f v) acc else acc) es m)"
  by (induction es arbitrary: m) (auto simp: split_beta)

lemma gomap_wf_range_assign [simp]: "gomap_wf m \<Longrightarrow> gomap_wf (range_assign P f p m)"
  unfolding range_assign_def by (rule gomap_wf_fold_assign)

text \<open>The loop \<open>for _, v := range m { if P(v) { return v } }\<close>.\<close>

definition range_find :: "('v \<Rightarrow> bool) \<Rightarrow> nat list \<Rightarrow> ('k, 'v) gomap \<Rightarrow> 'v option" where
  "range_find P p m = map_option snd (find (\<lambda>(k, v). P v) (range_order p m))"

lemma range_find_SomeD:
  "gomap_wf m \<Longrightarrow> range_find P p m = Some v \<Longrightarrow> P v \<and> (\<exists>k. map_of m k = Some v)"
proof -
  assume wf: "gomap_wf m" and "range_find P p m = Some v"
  then obtain e where e: "find (\<lambda>(k, v). P v) (range_order p m) = Some e" "v = snd e"
    by (auto simp: range_find_def)
  then have "e \<in> set m" and "P v"
    by (auto simp: find_Some_iff) (metis nth_mem set_range_order)
  with e wf show ?thesis by (auto simp: map_of_eq_Some_iff intro!: exI [of _ "fst e"])
qed

lemma range_find_NoneD: "range_find P p m = None \<Longrightarrow> map_of m k = Some v \<Longrightarrow> \<not> P v"
  by (auto simp: range_find_def find_None_iff dest!: map_of_SomeD)

text \<open>Where every value carries its own key, a found value is the one its key leads to.\<close>

lemma range_find_keyed:
  assumes "gomap_wf m" and "\<And>k v. map_of m k = Some v \<Longrightarrow> key v = k"
    and "range_find P p m = Some v"
  shows "map_of m (key v) = Some v \<and> P v"
  using range_find_SomeD [OF assms(1,3)] assms(2) by auto

lemma range_find_unique:
  assumes "gomap_wf m" and "map_of m k = Some v" and "P v"
    and "\<And>k' v'. map_of m k' = Some v' \<Longrightarrow> P v' \<Longrightarrow> v' = v"
  shows "range_find P p m = Some v"
proof (cases "range_find P p m")
  case None
  from range_find_NoneD [OF this assms(2)] assms(3) show ?thesis by simp
next
  case (Some v')
  from range_find_SomeD [OF assms(1) this] assms(4) have "v' = v" by blast
  with Some show ?thesis by simp
qed

text \<open>The loop that collects the values with a property, in visiting order.\<close>

definition range_filter :: "('v \<Rightarrow> bool) \<Rightarrow> nat list \<Rightarrow> ('k, 'v) gomap \<Rightarrow> 'v list" where
  "range_filter P p m = filter P (map snd (range_order p m))"

lemma set_range_filter:
  "gomap_wf m \<Longrightarrow> set (range_filter P p m) = {v. P v \<and> (\<exists>k. map_of m k = Some v)}"
  by (force simp: range_filter_def map_of_eq_Some_iff)

lemma distinct_range_filter:
  assumes "gomap_wf m" and "\<And>k v. map_of m k = Some v \<Longrightarrow> key v = k"
  shows "distinct (map key (range_filter P p m))"
proof -
  have "\<forall>e \<in> set (range_order p m). key (snd e) = fst e"
    using assms by (auto simp: map_of_eq_Some_iff)
  then have "map key (map snd (range_order p m)) = map fst (range_order p m)"
    by simp
  then have "distinct (map key (map snd (range_order p m)))"
    using assms(1) by (simp only: gomap_wf_range_order)
  then show ?thesis
    unfolding range_filter_def by (rule distinct_map_filter)
qed

section \<open>Decimal text\<close>

text \<open>\<open>strconv.Itoa\<close>\<close>

fun dec_digits :: "nat \<Rightarrow> string" where
  "dec_digits n = (if n < 10 then [char_of (48 + n)] else dec_digits (n div 10) @ [char_of (48 + n mod 10)])"

declare dec_digits.simps [simp del]

definition strconv_Itoa :: "int \<Rightarrow> string" where
  "strconv_Itoa i = (if i < 0 then CHR ''-'' # dec_digits (nat (- i)) else dec_digits (nat i))"

section \<open>Hexadecimal text\<close>

type_synonym byte = "8 word"

text \<open>\<open>hex.EncodeToString\<close>: two lower-case digits per byte, the high half first.\<close>

definition hextable :: string where
  "hextable = ''0123456789abcdef''"

definition hex_byte :: "byte \<Rightarrow> string" where
  "hex_byte b = [hextable ! (unat b div 16), hextable ! (unat b mod 16)]"

definition hex_EncodeToString :: "byte list \<Rightarrow> string" where
  "hex_EncodeToString bs = concat (map hex_byte bs)"

lemma length_hex_EncodeToString [simp]: "length (hex_EncodeToString bs) = 2 * length bs"
  by (induction bs) (simp_all add: hex_EncodeToString_def hex_byte_def)

lemma length_hextable [simp]: "length hextable = 16"
  by (simp add: hextable_def)

lemma distinct_hextable: "distinct hextable"
  by (simp add: hextable_def)

lemma unat_byte_bound: "unat (b :: byte) < 256"
  using unsigned_less [of b] by simp

lemma hex_byte_digits: "set (hex_byte b) \<subseteq> set hextable"
proof -
  have "unat b div 16 < 16" and "unat b mod 16 < 16"
    using unat_byte_bound [of b] by linarith+
  then show ?thesis by (auto simp: hex_byte_def intro!: nth_mem)
qed

lemma hex_EncodeToString_digits: "set (hex_EncodeToString bs) \<subseteq> set hextable"
  using hex_byte_digits by (fastforce simp: hex_EncodeToString_def)

lemma hex_byte_inj: "hex_byte b = hex_byte c \<Longrightarrow> b = c"
proof -
  assume eq: "hex_byte b = hex_byte c"
  have "unat b div 16 < 16" "unat c div 16 < 16" "unat b mod 16 < 16" "unat c mod 16 < 16"
    using unat_byte_bound [of b] unat_byte_bound [of c] by linarith+
  with eq have "unat b div 16 = unat c div 16" and "unat b mod 16 = unat c mod 16"
    using distinct_hextable by (auto simp: hex_byte_def nth_eq_iff_index_eq)
  then have "unat b = unat c"
    by (metis div_mult_mod_eq)
  then show "b = c" by (rule unsigned_word_eqI)
qed

lemma hex_EncodeToString_inj: "hex_EncodeToString bs = hex_EncodeToString cs \<Longrightarrow> bs = cs"
proof (induction bs arbitrary: cs)
  case Nil
  then have "length (hex_EncodeToString cs) = 0" by (simp add: hex_EncodeToString_def)
  then show ?case by simp
next
  case (Cons b bs)
  then have "length (hex_EncodeToString (b # bs)) = length (hex_EncodeToString cs)" by simp
  then obtain c cs' where cs: "cs = c # cs'" by (cases cs) auto
  with Cons.prems have "hex_byte b = hex_byte c" and "hex_EncodeToString bs = hex_EncodeToString cs'"
    by (simp_all add: hex_EncodeToString_def hex_byte_def)
  with cs Cons.IH show ?case by (auto dest: hex_byte_inj)
qed

end
