(* ===== verification/Rate_Limiter.thy ===== *)
theory Rate_Limiter
  imports Prelude
begin

text \<open>
  \<open>security/ratelimiter.go\<close>: the fixed-window counter per key. The clock reading is an argument
  here; \<open>Security\<close> supplies it from the world. The lemmas give the invariant of the counters, which
  also shows that \<open>count++\<close> never overflows, the exact number of calls a window lets through, the
  bound over any interval of the window's length, and that keys do not influence each other.
\<close>

section \<open>State and operations\<close>

record windowCounter =
  wc_count :: int
  wc_windowEnd :: Time

record InMemoryRateLimiter =
  rl_limit :: int
  rl_window :: Duration
  rl_counters :: "(string, windowCounter) gomap"

definition NewInMemoryRateLimiter :: "int \<Rightarrow> Duration \<Rightarrow> InMemoryRateLimiter" where
  "NewInMemoryRateLimiter limit window =
     \<lparr>rl_limit = limit, rl_window = window, rl_counters = []\<rparr>"

text \<open>The guard \<open>!ok || now.After(c.windowEnd)\<close>: no window is open for the key.\<close>

definition window_closed :: "Time \<Rightarrow> InMemoryRateLimiter \<Rightarrow> string \<Rightarrow> bool" where
  "window_closed now r key =
     (case map_of (rl_counters r) key of None \<Rightarrow> True | Some c \<Rightarrow> wc_windowEnd c < now)"

definition Allow_at :: "Time \<Rightarrow> InMemoryRateLimiter \<Rightarrow> string \<Rightarrow> bool \<times> InMemoryRateLimiter" where
  "Allow_at now r key =
     (case map_of (rl_counters r) key of
        None \<Rightarrow>
          (True, r\<lparr>rl_counters := gomap_set key
             \<lparr>wc_count = 1, wc_windowEnd = now + rl_window r\<rparr> (rl_counters r)\<rparr>)
      | Some c \<Rightarrow>
          if wc_windowEnd c < now then
            (True, r\<lparr>rl_counters := gomap_set key
               \<lparr>wc_count = 1, wc_windowEnd = now + rl_window r\<rparr> (rl_counters r)\<rparr>)
          else if rl_limit r \<le> wc_count c then (False, r)
          else
            (True, r\<lparr>rl_counters := gomap_set key
               (c\<lparr>wc_count := wrap64 (wc_count c + 1)\<rparr>) (rl_counters r)\<rparr>))"

text \<open>A history of calls, and how many of those for one key were let through.\<close>

fun allowed_calls :: "InMemoryRateLimiter \<Rightarrow> (Time \<times> string) list \<Rightarrow> string \<Rightarrow> int" where
  "allowed_calls r [] key = 0"
| "allowed_calls r ((t, k) # cs) key =
     (let (ok, r') = Allow_at t r k
      in (if ok \<and> k = key then 1 else 0) + allowed_calls r' cs key)"

fun after_calls :: "InMemoryRateLimiter \<Rightarrow> (Time \<times> string) list \<Rightarrow> InMemoryRateLimiter" where
  "after_calls r [] = r"
| "after_calls r ((t, k) # cs) = after_calls (snd (Allow_at t r k)) cs"

section \<open>Invariant\<close>

text \<open>The first call of a window is always let through, so a limit below one acts as one.\<close>

definition effective_limit :: "InMemoryRateLimiter \<Rightarrow> int" where
  "effective_limit r = max 1 (rl_limit r)"

definition limiter_wf :: "InMemoryRateLimiter \<Rightarrow> bool" where
  "limiter_wf r \<longleftrightarrow>
     gomap_wf (rl_counters r) \<and> rl_limit r < 2 ^ 63 \<and>
     (\<forall>k c. map_of (rl_counters r) k = Some c \<longrightarrow> 1 \<le> wc_count c \<and> wc_count c \<le> effective_limit r)"

lemma limiter_wf_new: "limit < 2 ^ 63 \<Longrightarrow> limiter_wf (NewInMemoryRateLimiter limit window)"
  by (simp add: limiter_wf_def NewInMemoryRateLimiter_def)

lemma Allow_at_config [simp]:
  "rl_limit (snd (Allow_at now r key)) = rl_limit r"
  "rl_window (snd (Allow_at now r key)) = rl_window r"
  "effective_limit (snd (Allow_at now r key)) = effective_limit r"
  by (simp_all add: Allow_at_def effective_limit_def split: option.splits)

lemma limiter_wfD:
  "limiter_wf r \<Longrightarrow> map_of (rl_counters r) k = Some c \<Longrightarrow>
     1 \<le> wc_count c \<and> wc_count c \<le> effective_limit r"
  by (simp add: limiter_wf_def)

lemma effective_limit_pos: "1 \<le> effective_limit r"
  by (simp add: effective_limit_def)

lemma Allow_at_closed:
  "window_closed now r key \<Longrightarrow>
   Allow_at now r key = (True, r\<lparr>rl_counters := gomap_set key
     \<lparr>wc_count = 1, wc_windowEnd = now + rl_window r\<rparr> (rl_counters r)\<rparr>)"
  by (auto simp: Allow_at_def window_closed_def split: option.splits)

lemma Allow_at_open:
  assumes "limiter_wf r" and "map_of (rl_counters r) key = Some c" and "now \<le> wc_windowEnd c"
  shows "Allow_at now r key =
    (if rl_limit r \<le> wc_count c then (False, r)
     else (True, r\<lparr>rl_counters := gomap_set key (c\<lparr>wc_count := wc_count c + 1\<rparr>) (rl_counters r)\<rparr>))"
proof -
  from assms(1,2) have "1 \<le> wc_count c" and "rl_limit r < 2 ^ 63"
    by (auto simp: limiter_wf_def)
  with assms(2,3) show ?thesis by (simp add: Allow_at_def)
qed

lemma Allow_at_wf:
  assumes "limiter_wf r"
  shows "limiter_wf (snd (Allow_at now r key))"
proof (cases "window_closed now r key")
  case True
  with assms show ?thesis
    by (simp add: Allow_at_closed limiter_wf_def effective_limit_def)
next
  case False
  then obtain c where c: "map_of (rl_counters r) key = Some c" "now \<le> wc_windowEnd c"
    by (auto simp: window_closed_def split: option.splits)
  have "0 \<le> wc_count c"
    using limiter_wfD [OF assms c(1)] by simp
  with assms c show ?thesis
    using Allow_at_open [OF assms c] by (auto simp: limiter_wf_def effective_limit_def)
qed

lemma after_calls_wf: "limiter_wf r \<Longrightarrow> limiter_wf (after_calls r cs)"
  by (induction r cs rule: after_calls.induct) (simp_all add: Allow_at_wf)

lemma after_calls_config [simp]:
  "rl_limit (after_calls r cs) = rl_limit r" "rl_window (after_calls r cs) = rl_window r"
  by (induction r cs rule: after_calls.induct) simp_all

section \<open>Behaviour of one call\<close>

text \<open>A call for one key leaves the counter of every other key alone and does not read it.\<close>

lemma Allow_at_other:
  "k \<noteq> key \<Longrightarrow> map_of (rl_counters (snd (Allow_at now r k))) key = map_of (rl_counters r) key"
  by (auto simp: Allow_at_def split: option.splits)

lemma Allow_at_local:
  assumes "map_of (rl_counters r) key = map_of (rl_counters s) key"
    and "rl_limit r = rl_limit s" and "rl_window r = rl_window s"
  shows "fst (Allow_at now r key) = fst (Allow_at now s key)"
    and "map_of (rl_counters (snd (Allow_at now r key))) key =
         map_of (rl_counters (snd (Allow_at now s key))) key"
  using assms by (auto simp: Allow_at_def split: option.splits)

lemma allowed_calls_local:
  assumes "map_of (rl_counters r) key = map_of (rl_counters s) key"
    and "rl_limit r = rl_limit s" and "rl_window r = rl_window s"
  shows "allowed_calls r cs key = allowed_calls s (filter (\<lambda>(t, k). k = key) cs) key"
  using assms
proof (induction cs arbitrary: r s)
  case Nil
  then show ?case by simp
next
  case (Cons c cs)
  obtain t k where c: "c = (t, k)" by (cases c)
  show ?case
  proof (cases "k = key")
    case True
    with Cons.prems Cons.IH [of "snd (Allow_at t r k)" "snd (Allow_at t s k)"] c
      Allow_at_local [OF Cons.prems]
    show ?thesis by (simp add: split_beta)
  next
    case False
    with Cons.prems Cons.IH [of "snd (Allow_at t r k)" s] c show ?thesis
      by (simp add: split_beta Allow_at_other)
  qed
qed

section \<open>Behaviour over a window\<close>

text \<open>While a window is open its key gets what is left of the limit, and nothing more.\<close>

lemma allowed_calls_open:
  assumes "limiter_wf r" and "map_of (rl_counters r) key = Some c"
    and "\<forall>(t, k) \<in> set cs. t \<le> wc_windowEnd c" and "\<forall>(t, k) \<in> set cs. k = key"
  shows "allowed_calls r cs key = min (int (length cs)) (max 0 (rl_limit r - wc_count c))"
  using assms
proof (induction cs arbitrary: r c)
  case Nil
  then show ?case by simp
next
  case (Cons tk cs)
  obtain t where tk: "tk = (t, key)" using Cons.prems(4) by (cases tk) auto
  with Cons.prems have here: "Allow_at t r key =
    (if rl_limit r \<le> wc_count c then (False, r)
     else (True, r\<lparr>rl_counters := gomap_set key (c\<lparr>wc_count := wc_count c + 1\<rparr>) (rl_counters r)\<rparr>))"
    by (intro Allow_at_open) auto
  have wf: "limiter_wf (snd (Allow_at t r key))"
    using Cons.prems(1) by (rule Allow_at_wf)
  show ?case
  proof (cases "rl_limit r \<le> wc_count c")
    case True
    with Cons.IH [OF Cons.prems(1,2)] Cons.prems(3,4) show ?thesis
      by (simp add: tk here)
  next
    case False
    let ?r' = "r\<lparr>rl_counters := gomap_set key (c\<lparr>wc_count := wc_count c + 1\<rparr>) (rl_counters r)\<rparr>"
    have "allowed_calls ?r' cs key = min (int (length cs)) (max 0 (rl_limit r - (wc_count c + 1)))"
      using Cons.IH [of ?r' "c\<lparr>wc_count := wc_count c + 1\<rparr>"] wf here False Cons.prems(3,4) by auto
    with False show ?thesis by (simp add: tk here)
  qed
qed

text \<open>A whole window: of the calls from the one that opens it, exactly the first ones pass.\<close>

lemma allowed_calls_window:
  assumes "limiter_wf r" and "window_closed t0 r key" and "0 \<le> rl_window r"
    and "\<forall>t \<in> set ts. t \<le> t0 + rl_window r"
  shows "allowed_calls r (map (\<lambda>t. (t, key)) (t0 # ts)) key =
    min (1 + int (length ts)) (effective_limit r)"
proof -
  let ?c = "\<lparr>wc_count = 1, wc_windowEnd = t0 + rl_window r\<rparr>"
  let ?r = "r\<lparr>rl_counters := gomap_set key ?c (rl_counters r)\<rparr>"
  have open1: "Allow_at t0 r key = (True, ?r)"
    using assms(2) by (rule Allow_at_closed)
  have "limiter_wf ?r"
    using Allow_at_wf [OF assms(1), of t0 key] open1 by simp
  then have "allowed_calls ?r (map (\<lambda>t. (t, key)) ts) key =
      min (int (length ts)) (max 0 (rl_limit ?r - wc_count ?c))"
    using allowed_calls_open [of ?r key ?c "map (\<lambda>t. (t, key)) ts"] assms(4) by auto
  then show ?thesis by (simp add: open1 effective_limit_def)
qed

text \<open>
  Over any interval of the window's length, at most two windows meet the interval. The lemma first
  bounds a history that no window opened inside it can outlive.
\<close>

lemma allowed_calls_two_windows:
  assumes "limiter_wf r" and "\<forall>(t, k) \<in> set cs. s \<le> t \<and> t \<le> s + rl_window r \<and> k = key"
  shows "allowed_calls r cs key \<le>
    (case map_of (rl_counters r) key of
       None \<Rightarrow> effective_limit r
     | Some c \<Rightarrow> (effective_limit r - wc_count c) +
         (if s + rl_window r \<le> wc_windowEnd c then 0 else effective_limit r))"
  using assms
proof (induction cs arbitrary: r)
  case Nil
  with effective_limit_pos [of r] show ?case by (auto split: option.splits dest!: limiter_wfD)
next
  case (Cons tk cs)
  obtain t where tk: "tk = (t, key)" and t: "s \<le> t" "t \<le> s + rl_window r"
    using Cons.prems(2) by (cases tk) auto
  have wf: "limiter_wf (snd (Allow_at t r key))"
    using Cons.prems(1) by (rule Allow_at_wf)
  have IH: "allowed_calls (snd (Allow_at t r key)) cs key \<le>
    (case map_of (rl_counters (snd (Allow_at t r key))) key of
       None \<Rightarrow> effective_limit r
     | Some c \<Rightarrow> (effective_limit r - wc_count c) +
         (if s + rl_window r \<le> wc_windowEnd c then 0 else effective_limit r))"
    using Cons.IH [OF wf] Cons.prems(2) unfolding Allow_at_config by auto
  show ?case
  proof (cases "window_closed t r key")
    case True
    with IH t show ?thesis
      using limiter_wfD [OF Cons.prems(1), of key]
      by (auto simp: tk Allow_at_closed window_closed_def split: option.splits)
  next
    case False
    then obtain c where c: "map_of (rl_counters r) key = Some c" "t \<le> wc_windowEnd c"
      by (auto simp: window_closed_def split: option.splits)
    from IH show ?thesis
      using c Allow_at_open [OF Cons.prems(1) c] by (auto simp: tk split: if_splits)
  qed
qed

lemma allowed_calls_interval:
  assumes "limiter_wf r" and "\<forall>(t, k) \<in> set cs. s \<le> t \<and> t \<le> s + rl_window r"
  shows "allowed_calls r cs key \<le> 2 * effective_limit r"
proof -
  let ?cs = "filter (\<lambda>(t, k). k = key) cs"
  have "allowed_calls r cs key = allowed_calls r ?cs key"
    by (rule allowed_calls_local) simp_all
  also have "\<dots> \<le> 2 * effective_limit r"
    using allowed_calls_two_windows [OF assms(1), of ?cs s key] assms(2)
      limiter_wfD [OF assms(1), of key] effective_limit_pos [of r]
    by (fastforce split: option.splits if_splits)
  finally show ?thesis .
qed

end
