(* ===== verification/World.thy ===== *)
theory World
  imports Rate_Limiter
begin

text \<open>
  The world the engine runs in, and what is ambient in Go: the error values of every package with
  their texts, the clock, the randomness, the order of map iteration, standard output, and the
  third-party packages.

  Everything the program cannot determine is drawn from \<open>externals\<close>: the \<open>k\<close>-th draw of a run gets
  the \<open>k\<close>-th value, and \<open>w_tick\<close> counts the draws. The clock, the randomness and the iteration
  order belong to Go itself; bcrypt, uuid and jwt are third-party packages, so they are functions
  about which nothing is assumed here. A theorem that relies on documented behaviour of one of them
  names it as a hypothesis (\<open>clock_monotone\<close>, \<open>bcrypt_sound\<close> and so on).
\<close>

section \<open>Errors\<close>

datatype error =
    ErrNotFound
  | ErrSessionNotOwned
  | ErrUserExists
  | ErrInvalidCredentials
  | ErrRateLimited
  | ErrAccountLocked
  | ErrVerificationTokenInvalid
  | ErrVerificationTokenExpired
  | ErrInvalidToken
  | ErrTokenReused
  | ErrInvalidAccessToken
  | ErrTokenByteLengthTooShort
  | ErrMissingJWTSecret_token
  | ErrInvalidTTL
  | ErrInvalidBcryptCost
  | ErrMissingJWTSecret
  | ErrMissingUserStore
  | ErrMissingSessionStore
  | ErrMissingAuditStore
  | ErrEmailChangeNotConfigured
  | ExternalError string

text \<open>The \<open>errors.New\<close> declarations, package by package.\<close>

definition store_errors :: "(error \<times> string) list" where
  "store_errors =
    [(ErrNotFound, ''store: record not found''),
     (ErrSessionNotOwned, ''store: session does not belong to this user'')]"

definition auth_errors :: "(error \<times> string) list" where
  "auth_errors =
    [(ErrUserExists, ''auth: user with this email already exists''),
     (ErrInvalidCredentials, ''auth: invalid email or password''),
     (ErrRateLimited, ''auth: rate limit exceeded''),
     (ErrAccountLocked, ''auth: account temporarily locked due to failed login attempts'')]"

definition auth_email_errors :: "(error \<times> string) list" where
  "auth_email_errors =
    [(ErrVerificationTokenInvalid, ''auth: verification token invalid or already used''),
     (ErrVerificationTokenExpired, ''auth: verification token expired'')]"

definition token_refresh_errors :: "(error \<times> string) list" where
  "token_refresh_errors =
    [(ErrInvalidToken, ''token: refresh token not found or malformed''),
     (ErrTokenReused, ''token: refresh token reuse detected, session family revoked'')]"

definition token_jwt_errors :: "(error \<times> string) list" where
  "token_jwt_errors = [(ErrInvalidAccessToken, ''token: access token invalid or expired'')]"

definition token_errors :: "(error \<times> string) list" where
  "token_errors =
    [(ErrTokenByteLengthTooShort,
        ''token: byte length below minimum safe entropy (16 bytes / 128 bits)''),
     (ErrMissingJWTSecret_token, ''token: JWT secret must not be empty''),
     (ErrInvalidTTL, ''token: TTL must be greater than zero'')]"

definition security_errors :: "(error \<times> string) list" where
  "security_errors = [(ErrInvalidBcryptCost, ''security: bcrypt cost out of valid range'')]"

definition cryden_errors :: "(error \<times> string) list" where
  "cryden_errors =
    [(ErrMissingJWTSecret, ''cryden: JWTSecret is required''),
     (ErrMissingUserStore, ''cryden: Config.Users is required''),
     (ErrMissingSessionStore, ''cryden: Config.Sessions is required''),
     (ErrMissingAuditStore, ''cryden: Config.Audit is required'')]"

definition cryden_email_errors :: "(error \<times> string) list" where
  "cryden_email_errors =
    [(ErrEmailChangeNotConfigured,
        ''cryden: email change requires Config.Verifications and Config.EmailSender to be set'')]"

definition all_errors :: "(error \<times> string) list" where
  "all_errors = store_errors @ auth_errors @ auth_email_errors @ token_refresh_errors @
     token_jwt_errors @ token_errors @ security_errors @ cryden_errors @ cryden_email_errors"

text \<open>\<open>err.Error()\<close>\<close>

definition error_Error :: "error \<Rightarrow> string" where
  "error_Error e =
     (case e of ExternalError msg \<Rightarrow> msg
      | _ \<Rightarrow> (case map_of all_errors e of Some msg \<Rightarrow> msg | None \<Rightarrow> ''''))"

section \<open>Third-party packages and the runtime\<close>

text \<open>
  What the source uses of \<open>golang-jwt/jwt\<close>: the family of a signing method (the type switch on
  \<open>*jwt.SigningMethodHMAC\<close>), the three registered claims that are set, and the token handed to the
  key function.
\<close>

datatype SigningMethod = SigningMethodHMAC nat | SigningMethodOther string

record RegisteredClaims =
  jc_Subject :: string
  jc_IssuedAt :: "Time option"
  jc_ExpiresAt :: "Time option"

record jwt_Token =
  jt_Method :: SigningMethod
  jt_Claims :: RegisteredClaims
  jt_Valid :: bool

record externals =
  ext_now :: "nat \<Rightarrow> Time"
  ext_range :: "nat \<Rightarrow> nat list"
  ext_rand :: "nat \<Rightarrow> error + (nat \<Rightarrow> byte)"
  ext_uuid_NewV7 :: "nat \<Rightarrow> error + string"
  ext_bcrypt_MinCost :: int
  ext_bcrypt_MaxCost :: int
  ext_bcrypt_GenerateFromPassword :: "nat \<Rightarrow> string \<Rightarrow> int \<Rightarrow> error + string"
  ext_bcrypt_CompareHashAndPassword :: "string \<Rightarrow> string \<Rightarrow> error option"
  ext_jwt_NewNumericDate :: "Time \<Rightarrow> Time"
  ext_jwt_SignedString :: "SigningMethod \<Rightarrow> RegisteredClaims \<Rightarrow> string \<Rightarrow> error + string"
  ext_jwt_ParseWithClaims :: "Time \<Rightarrow> string \<Rightarrow> (jwt_Token \<Rightarrow> error + string) \<Rightarrow> error + jwt_Token"

section \<open>The world\<close>

text \<open>
  \<open>w_db\<close> is the state of the storage backend, of any type; \<open>w_limiter\<close> the engine's rate limiter;
  \<open>w_stdout\<close> the lines written to standard output, \<open>w_outbox\<close> the verification messages handed to
  the application's mail provider, both oldest first.
\<close>

record 'db world =
  w_db :: 'db
  w_limiter :: InMemoryRateLimiter
  w_stdout :: "string list"
  w_outbox :: "(string \<times> string) list"
  w_ext :: externals
  w_tick :: nat

definition draw :: "(externals \<Rightarrow> nat \<Rightarrow> 'a) \<Rightarrow> ('db world, 'a) state" where
  "draw f = State (\<lambda>w. (f (w_ext w) (w_tick w), w\<lparr>w_tick := Suc (w_tick w)\<rparr>))"

lemma run_draw [simp]:
  "run_state (draw f) w = (f (w_ext w) (w_tick w), w\<lparr>w_tick := Suc (w_tick w)\<rparr>)"
  by (simp add: draw_def)

definition asks :: "(externals \<Rightarrow> 'a) \<Rightarrow> ('db world, 'a) state" where
  "asks f = State (\<lambda>w. (f (w_ext w), w))"

lemma run_asks [simp]: "run_state (asks f) w = (f (w_ext w), w)"
  by (simp add: asks_def)

definition update_db :: "('db \<Rightarrow> 'db) \<Rightarrow> ('db world, unit) state" where
  "update_db f = State (\<lambda>w. ((), w\<lparr>w_db := f (w_db w)\<rparr>))"

lemma run_update_db [simp]: "run_state (update_db f) w = ((), w\<lparr>w_db := f (w_db w)\<rparr>)"
  by (simp add: update_db_def)

definition read_db :: "('db \<Rightarrow> 'a) \<Rightarrow> ('db world, 'a) state" where
  "read_db f = State (\<lambda>w. (f (w_db w), w))"

lemma run_read_db [simp]: "run_state (read_db f) w = (f (w_db w), w)"
  by (simp add: read_db_def)

text \<open>\<open>time.Now()\<close>, and the order of one \<open>range\<close> loop over a map.\<close>

definition time_Now :: "('db world, Time) state" where
  "time_Now = draw ext_now"

definition range_perm :: "('db world, nat list) state" where
  "range_perm = draw ext_range"

lemma run_time_Now [simp]:
  "run_state time_Now w = (ext_now (w_ext w) (w_tick w), w\<lparr>w_tick := Suc (w_tick w)\<rparr>)"
  by (simp add: time_Now_def)

lemma run_range_perm [simp]:
  "run_state range_perm w = (ext_range (w_ext w) (w_tick w), w\<lparr>w_tick := Suc (w_tick w)\<rparr>)"
  by (simp add: range_perm_def)

text \<open>Go's monotonic clock: later readings are never smaller.\<close>

definition clock_monotone :: "externals \<Rightarrow> bool" where
  "clock_monotone x \<longleftrightarrow> (\<forall>i j. i \<le> j \<longrightarrow> ext_now x i \<le> ext_now x j)"

section \<open>What a call may change\<close>

text \<open>
  A storage call changes the backend at most, a call of the rate limiter the limiter at most, any
  other helper call neither the backend nor the limiter nor the outbox. Each may draw.
\<close>

definition db_only :: "'db world \<Rightarrow> 'db world \<Rightarrow> bool" where
  "db_only w w' \<longleftrightarrow> w_limiter w' = w_limiter w \<and> w_stdout w' = w_stdout w \<and>
     w_outbox w' = w_outbox w \<and> w_ext w' = w_ext w \<and> w_tick w \<le> w_tick w'"

definition quiet :: "'db world \<Rightarrow> 'db world \<Rightarrow> bool" where
  "quiet w w' \<longleftrightarrow> w_db w' = w_db w \<and> w_limiter w' = w_limiter w \<and>
     w_outbox w' = w_outbox w \<and> w_ext w' = w_ext w \<and> w_tick w \<le> w_tick w'"

definition limiter_only :: "'db world \<Rightarrow> 'db world \<Rightarrow> bool" where
  "limiter_only w w' \<longleftrightarrow> w_db w' = w_db w \<and> w_stdout w' = w_stdout w \<and>
     w_outbox w' = w_outbox w \<and> w_ext w' = w_ext w \<and> w_tick w \<le> w_tick w'"

lemma quiet_refl [simp]: "quiet w w"
  by (simp add: quiet_def)

lemma quiet_trans [trans]: "quiet u v \<Longrightarrow> quiet v w \<Longrightarrow> quiet u w"
  by (auto simp: quiet_def)

lemma quietD:
  assumes "quiet w w'"
  shows "w_db w' = w_db w" "w_limiter w' = w_limiter w" "w_outbox w' = w_outbox w"
    "w_ext w' = w_ext w" "w_tick w \<le> w_tick w'"
  using assms by (simp_all add: quiet_def)

text \<open>The frames, in the form the symbolic execution of clients uses.\<close>

lemma wp_quiet:
  assumes "quiet w (snd (run_state m w))"
    and "\<And>r w'. w_db w' = w_db w \<Longrightarrow> w_limiter w' = w_limiter w \<Longrightarrow>
      w_outbox w' = w_outbox w \<Longrightarrow> w_ext w' = w_ext w \<Longrightarrow> w_tick w \<le> w_tick w' \<Longrightarrow> Q r w'"
  shows "wp m Q w"
proof (rule wpI)
  fix r w' assume run: "run_state m w = (r, w')"
  with assms(1) have "quiet w w'" by simp
  from assms(2) quietD [OF this] show "Q r w'" by simp
qed

lemma wp_time_Now [wp_intros]:
  "Q (ext_now (w_ext w) (w_tick w)) (w\<lparr>w_tick := Suc (w_tick w)\<rparr>) \<Longrightarrow> wp time_Now Q w"
  by (simp add: wp_def)

section \<open>Operational logging\<close>

text \<open>\<open>logger/logger.go\<close>: the interface, and the contract the engine relies on.\<close>

type_synonym fields = "(string, string) gomap"

record 'w Logger =
  lg_Debug :: "string \<Rightarrow> fields \<Rightarrow> ('w, unit) state"
  lg_Info :: "string \<Rightarrow> fields \<Rightarrow> ('w, unit) state"
  lg_Warn :: "string \<Rightarrow> fields \<Rightarrow> ('w, unit) state"
  lg_Error :: "string \<Rightarrow> fields \<Rightarrow> ('w, unit) state"

locale logger =
  fixes log :: "'db world Logger"
  assumes Debug_quiet: "quiet w (snd (run_state (lg_Debug log msg f) w))"
    and Info_quiet: "quiet w (snd (run_state (lg_Info log msg f) w))"
    and Warn_quiet: "quiet w (snd (run_state (lg_Warn log msg f) w))"
    and Error_quiet: "quiet w (snd (run_state (lg_Error log msg f) w))"
begin

lemma log_quiet:
  "run_state (lg_Debug log msg f) w = (u, w') \<Longrightarrow> quiet w w'"
  "run_state (lg_Info log msg f) w = (u, w') \<Longrightarrow> quiet w w'"
  "run_state (lg_Warn log msg f) w = (u, w') \<Longrightarrow> quiet w w'"
  "run_state (lg_Error log msg f) w = (u, w') \<Longrightarrow> quiet w w'"
  using Debug_quiet [of w msg f] Info_quiet [of w msg f] Warn_quiet [of w msg f]
    Error_quiet [of w msg f] by simp_all

lemmas wp_log [wp_intros] = wp_quiet [OF Debug_quiet] wp_quiet [OF Info_quiet]
  wp_quiet [OF Warn_quiet] wp_quiet [OF Error_quiet]

end

end
