(* ===== verification/Store.thy ===== *)
theory Store
  imports World
begin

text \<open>
  \<open>store/interfaces.go\<close>: the domain records, the four storage interfaces as records of methods, and
  the contract of each interface. A contract is an abstract specification per method, a relation
  between the view of the backend before the call, the result and the view after it, and a locale
  that asks an implementation to meet all of them. The views are plain maps from identifiers, so the
  engine can be verified against the contracts alone. \<open>faults\<close> is the set of errors a backend may
  return on top of what its contents force; it is empty for the memory backend.
\<close>

section \<open>Domain records\<close>

definition time_zero :: Time where
  "time_zero = - 62135596800 * time_Second"

record User =
  u_ID :: string
  u_Email :: string
  u_PasswordHash :: string
  u_FailedAttempts :: int
  u_LockedUntil :: "Time option"
  u_CreatedAt :: Time
  u_UpdatedAt :: Time

record Session =
  s_ID :: string
  s_FamilyID :: string
  s_UserID :: string
  s_TokenHash :: string
  s_IP :: string
  s_UserAgent :: string
  s_CreatedAt :: Time
  s_RevokedAt :: "Time option"

text \<open>Kinds of events and purposes of tokens are strings, of which the package names some.\<close>

type_synonym AuditEventType = string

definition EventSignupSuccess :: AuditEventType where
  "EventSignupSuccess = ''signup_success''"

definition EventLoginSuccess :: AuditEventType where
  "EventLoginSuccess = ''login_success''"

definition EventLoginFailed :: AuditEventType where
  "EventLoginFailed = ''login_failed''"

definition EventLogout :: AuditEventType where
  "EventLogout = ''logout''"

definition EventLogoutAll :: AuditEventType where
  "EventLogoutAll = ''logout_all''"

definition EventTokenRotated :: AuditEventType where
  "EventTokenRotated = ''token_rotated''"

definition EventTokenReuseDetected :: AuditEventType where
  "EventTokenReuseDetected = ''token_reuse_detected''"

definition EventSessionRevoked :: AuditEventType where
  "EventSessionRevoked = ''session_revoked''"

definition EventAccountLocked :: AuditEventType where
  "EventAccountLocked = ''account_locked''"

definition EventPasswordChanged :: AuditEventType where
  "EventPasswordChanged = ''password_changed''"

definition EventEmailChangeRequested :: AuditEventType where
  "EventEmailChangeRequested = ''email_change_requested''"

definition EventEmailChanged :: AuditEventType where
  "EventEmailChanged = ''email_changed''"

definition EventAccountDeleted :: AuditEventType where
  "EventAccountDeleted = ''account_deleted''"

record AuditEvent =
  ev_ID :: string
  ev_Type :: AuditEventType
  ev_UserID :: string
  ev_IP :: string
  ev_Metadata :: "fields option"
  ev_CreatedAt :: Time

type_synonym VerificationPurpose = string

definition PurposeEmailVerify :: VerificationPurpose where
  "PurposeEmailVerify = ''email_verify''"

definition PurposeEmailChange :: VerificationPurpose where
  "PurposeEmailChange = ''email_change''"

record VerificationToken =
  vt_ID :: string
  vt_UserID :: string
  vt_Purpose :: VerificationPurpose
  vt_TokenHash :: string
  vt_NewEmail :: string
  vt_ExpiresAt :: Time
  vt_UsedAt :: "Time option"
  vt_CreatedAt :: Time

text \<open>A composite literal leaves the fields it does not name at their zero values.\<close>

definition new_AuditEvent :: "AuditEventType \<Rightarrow> string \<Rightarrow> string \<Rightarrow> fields option \<Rightarrow> AuditEvent" where
  "new_AuditEvent ty userID ip metadata =
     \<lparr>ev_ID = [], ev_Type = ty, ev_UserID = userID, ev_IP = ip, ev_Metadata = metadata,
      ev_CreatedAt = time_zero\<rparr>"

lemma new_AuditEvent_simps [simp]:
  "ev_Type (new_AuditEvent ty u ip m) = ty" "ev_UserID (new_AuditEvent ty u ip m) = u"
  "ev_IP (new_AuditEvent ty u ip m) = ip" "ev_Metadata (new_AuditEvent ty u ip m) = m"
  by (simp_all add: new_AuditEvent_def)

section \<open>Interfaces\<close>

record 'w UserStore =
  us_Create :: "User \<Rightarrow> ('w, error option) state"
  us_GetByEmail :: "string \<Rightarrow> ('w, error + User) state"
  us_GetByID :: "string \<Rightarrow> ('w, error + User) state"
  us_UpdateEmail :: "string \<Rightarrow> string \<Rightarrow> ('w, error option) state"
  us_UpdatePasswordHash :: "string \<Rightarrow> string \<Rightarrow> ('w, error option) state"
  us_Delete :: "string \<Rightarrow> ('w, error option) state"
  us_IncrementFailedAttempts :: "string \<Rightarrow> ('w, error + int) state"
  us_ResetFailedAttempts :: "string \<Rightarrow> ('w, error option) state"
  us_LockAccount :: "string \<Rightarrow> Time \<Rightarrow> ('w, error option) state"

record 'w SessionStore =
  ss_Create :: "Session \<Rightarrow> ('w, error option) state"
  ss_GetByID :: "string \<Rightarrow> ('w, error + Session) state"
  ss_GetByTokenHash :: "string \<Rightarrow> ('w, error + Session) state"
  ss_ListByUser :: "string \<Rightarrow> ('w, error + Session list) state"
  ss_Revoke :: "string \<Rightarrow> ('w, error option) state"
  ss_RevokeFamily :: "string \<Rightarrow> ('w, error option) state"
  ss_RevokeAllForUser :: "string \<Rightarrow> ('w, error option) state"
  ss_RotateToken :: "string \<Rightarrow> Session \<Rightarrow> ('w, error option) state"

record 'w AuditStore =
  as_Record :: "AuditEvent \<Rightarrow> ('w, error option) state"
  as_ListByUser :: "string \<Rightarrow> int \<Rightarrow> ('w, error + AuditEvent list) state"

record 'w VerificationStore =
  vs_Create :: "VerificationToken \<Rightarrow> ('w, error option) state"
  vs_GetByTokenHash :: "string \<Rightarrow> ('w, error + VerificationToken) state"
  vs_MarkUsed :: "string \<Rightarrow> ('w, error option) state"

section \<open>The abstract view of a backend\<close>

record dbview =
  v_users :: "string \<rightharpoonup> User"
  v_sessions :: "string \<rightharpoonup> Session"
  v_verifs :: "string \<rightharpoonup> VerificationToken"
  v_events :: "AuditEvent list"

definition db_op ::
  "('db \<Rightarrow> bool) \<Rightarrow> ('db \<Rightarrow> dbview) \<Rightarrow> ('db world, 'r) state \<Rightarrow> (dbview \<Rightarrow> 'r \<Rightarrow> dbview \<Rightarrow> bool) \<Rightarrow> bool"
  where
  "db_op invar view m S \<longleftrightarrow>
     (\<forall>w r w'. invar (w_db w) \<longrightarrow> run_state m w = (r, w') \<longrightarrow>
        invar (w_db w') \<and> db_only w w' \<and> S (view (w_db w)) r (view (w_db w')))"

lemma db_opI:
  "(\<And>w r w'. invar (w_db w) \<Longrightarrow> run_state m w = (r, w') \<Longrightarrow>
     invar (w_db w') \<and> db_only w w' \<and> S (view (w_db w)) r (view (w_db w'))) \<Longrightarrow> db_op invar view m S"
  by (simp add: db_op_def)

lemma db_opD:
  assumes "db_op invar view m S" and "run_state m w = (r, w')" and "invar (w_db w)"
  shows "invar (w_db w')" "db_only w w'" "S (view (w_db w)) r (view (w_db w'))"
  using assms by (auto simp: db_op_def)

lemma wp_db_op:
  assumes "db_op invar view m S" and "invar (w_db w)"
    and "\<And>r w'. invar (w_db w') \<Longrightarrow> w_limiter w' = w_limiter w \<Longrightarrow> w_outbox w' = w_outbox w \<Longrightarrow>
      w_ext w' = w_ext w \<Longrightarrow> w_tick w \<le> w_tick w' \<Longrightarrow> S (view (w_db w)) r (view (w_db w')) \<Longrightarrow> Q r w'"
  shows "wp m Q w"
proof (rule wpI)
  fix r w' assume "run_state m w = (r, w')"
  from db_opD [OF assms(1) this assms(2)] show "Q r w'"
    using assms(3) by (simp add: db_only_def)
qed

text \<open>A call that returned one of the backend's faults has changed nothing.\<close>

definition fault_option :: "error set \<Rightarrow> dbview \<Rightarrow> error option \<Rightarrow> dbview \<Rightarrow> bool" where
  "fault_option F v r v' \<longleftrightarrow> v' = v \<and> (\<exists>e \<in> F. r = Some e)"

section \<open>Specifications of the user store\<close>

text \<open>An update of one user record.\<close>

definition user_update_spec ::
  "error set \<Rightarrow> string \<Rightarrow> (User \<Rightarrow> User \<Rightarrow> bool) \<Rightarrow> dbview \<Rightarrow> error option \<Rightarrow> dbview \<Rightarrow> bool" where
  "user_update_spec F i P v r v' \<longleftrightarrow>
     (r = None \<and> (\<exists>u u'. v_users v i = Some u \<and> P u u' \<and> v' = v\<lparr>v_users := (v_users v)(i \<mapsto> u')\<rparr>)) \<or>
     (r = Some ErrNotFound \<and> v_users v i = None \<and> v' = v) \<or> fault_option F v r v'"

definition user_Create_spec :: "error set \<Rightarrow> User \<Rightarrow> dbview \<Rightarrow> error option \<Rightarrow> dbview \<Rightarrow> bool" where
  "user_Create_spec F u v r v' \<longleftrightarrow>
     (r = None \<and> (\<exists>t. v' = v\<lparr>v_users := (v_users v)(u_ID u \<mapsto> u\<lparr>u_CreatedAt := t, u_UpdatedAt := t\<rparr>)\<rparr>)) \<or>
     fault_option F v r v'"

definition user_GetByEmail_spec :: "error set \<Rightarrow> string \<Rightarrow> dbview \<Rightarrow> error + User \<Rightarrow> dbview \<Rightarrow> bool" where
  "user_GetByEmail_spec F email v r v' \<longleftrightarrow> v' = v \<and>
     (case r of
        Inr u \<Rightarrow> v_users v (u_ID u) = Some u \<and> u_Email u = email
      | Inl e \<Rightarrow> e \<in> F \<or> e = ErrNotFound \<and> (\<forall>i u. v_users v i = Some u \<longrightarrow> u_Email u \<noteq> email))"

definition user_GetByID_spec :: "error set \<Rightarrow> string \<Rightarrow> dbview \<Rightarrow> error + User \<Rightarrow> dbview \<Rightarrow> bool" where
  "user_GetByID_spec F i v r v' \<longleftrightarrow> v' = v \<and>
     (case r of
        Inr u \<Rightarrow> v_users v i = Some u \<and> u_ID u = i
      | Inl e \<Rightarrow> e \<in> F \<or> e = ErrNotFound \<and> v_users v i = None)"

text \<open>
  Deleting a user may take the user's sessions and verification tokens along, and may take the
  user's name off the recorded events; it leaves everything of other users alone.
\<close>

definition user_Delete_spec :: "error set \<Rightarrow> string \<Rightarrow> dbview \<Rightarrow> error option \<Rightarrow> dbview \<Rightarrow> bool" where
  "user_Delete_spec F i v r v' \<longleftrightarrow>
     (r = None \<and> v_users v i \<noteq> None \<and> v_users v' = (v_users v)(i := None) \<and>
        v_sessions v' \<subseteq>\<^sub>m v_sessions v \<and> v_verifs v' \<subseteq>\<^sub>m v_verifs v \<and>
        (\<forall>j s. v_sessions v j = Some s \<longrightarrow> s_UserID s \<noteq> i \<longrightarrow> v_sessions v' j = Some s) \<and>
        (\<forall>j t. v_verifs v j = Some t \<longrightarrow> vt_UserID t \<noteq> i \<longrightarrow> v_verifs v' j = Some t) \<and>
        map (\<lambda>e. e\<lparr>ev_UserID := []\<rparr>) (v_events v') = map (\<lambda>e. e\<lparr>ev_UserID := []\<rparr>) (v_events v)) \<or>
     (r = Some ErrNotFound \<and> v_users v i = None \<and> v' = v) \<or> fault_option F v r v'"

definition user_Increment_spec :: "error set \<Rightarrow> string \<Rightarrow> dbview \<Rightarrow> error + int \<Rightarrow> dbview \<Rightarrow> bool" where
  "user_Increment_spec F i v r v' \<longleftrightarrow>
     (case r of
        Inr n \<Rightarrow> (\<exists>u. v_users v i = Some u \<and> n = wrap64 (u_FailedAttempts u + 1) \<and>
                   v' = v\<lparr>v_users := (v_users v)(i \<mapsto> u\<lparr>u_FailedAttempts := n\<rparr>)\<rparr>)
      | Inl e \<Rightarrow> v' = v \<and> (e \<in> F \<or> e = ErrNotFound \<and> v_users v i = None))"

locale user_store =
  fixes invar :: "'db \<Rightarrow> bool" and view :: "'db \<Rightarrow> dbview" and faults :: "error set"
    and users :: "'db world UserStore" and stamp :: "Time \<Rightarrow> Time"
  assumes user_Create: "u_FailedAttempts u = 0 \<Longrightarrow> u_LockedUntil u = None \<Longrightarrow>
      db_op invar view (us_Create users u) (user_Create_spec faults u)"
    and user_GetByEmail: "db_op invar view (us_GetByEmail users email) (user_GetByEmail_spec faults email)"
    and user_GetByID: "db_op invar view (us_GetByID users i) (user_GetByID_spec faults i)"
    and user_UpdateEmail: "db_op invar view (us_UpdateEmail users i newEmail)
      (user_update_spec faults i (\<lambda>u u'. \<exists>t. u' = u\<lparr>u_Email := newEmail, u_UpdatedAt := t\<rparr>))"
    and user_UpdatePasswordHash: "db_op invar view (us_UpdatePasswordHash users i newHash)
      (user_update_spec faults i (\<lambda>u u'. \<exists>t. u' = u\<lparr>u_PasswordHash := newHash, u_UpdatedAt := t\<rparr>))"
    and user_Delete: "db_op invar view (us_Delete users i) (user_Delete_spec faults i)"
    and user_Increment: "db_op invar view (us_IncrementFailedAttempts users i) (user_Increment_spec faults i)"
    and user_Reset: "db_op invar view (us_ResetFailedAttempts users i)
      (user_update_spec faults i (\<lambda>u u'. u' = u\<lparr>u_FailedAttempts := 0, u_LockedUntil := None\<rparr>))"
    and user_Lock: "db_op invar view (us_LockAccount users i until)
      (user_update_spec faults i (\<lambda>u u'. u' = u\<lparr>u_LockedUntil := Some (stamp until)\<rparr>))"

context user_store
begin

lemmas wp_users [wp_intros] = wp_db_op [OF user_Create] wp_db_op [OF user_GetByEmail]
  wp_db_op [OF user_GetByID] wp_db_op [OF user_UpdateEmail] wp_db_op [OF user_UpdatePasswordHash]
  wp_db_op [OF user_Delete] wp_db_op [OF user_Increment] wp_db_op [OF user_Reset]
  wp_db_op [OF user_Lock]

end

section \<open>Specifications of the session store\<close>

text \<open>Stamp the active sessions with a property.\<close>

definition revoke_where ::
  "(Session \<Rightarrow> bool) \<Rightarrow> Time \<Rightarrow> (string \<rightharpoonup> Session) \<Rightarrow> string \<rightharpoonup> Session" where
  "revoke_where P t m = (\<lambda>i. map_option
     (\<lambda>s. if P s \<and> s_RevokedAt s = None then s\<lparr>s_RevokedAt := Some t\<rparr> else s) (m i))"

definition session_Create_spec :: "error set \<Rightarrow> Session \<Rightarrow> dbview \<Rightarrow> error option \<Rightarrow> dbview \<Rightarrow> bool" where
  "session_Create_spec F s v r v' \<longleftrightarrow>
     (r = None \<and> (\<exists>t. v' = v\<lparr>v_sessions := (v_sessions v)(s_ID s \<mapsto> s\<lparr>s_CreatedAt := t\<rparr>)\<rparr>)) \<or>
     fault_option F v r v'"

definition session_GetByID_spec :: "error set \<Rightarrow> string \<Rightarrow> dbview \<Rightarrow> error + Session \<Rightarrow> dbview \<Rightarrow> bool" where
  "session_GetByID_spec F i v r v' \<longleftrightarrow> v' = v \<and>
     (case r of
        Inr s \<Rightarrow> v_sessions v i = Some s \<and> s_ID s = i
      | Inl e \<Rightarrow> e \<in> F \<or> e = ErrNotFound \<and> v_sessions v i = None)"

definition session_GetByTokenHash_spec ::
  "error set \<Rightarrow> string \<Rightarrow> dbview \<Rightarrow> error + Session \<Rightarrow> dbview \<Rightarrow> bool" where
  "session_GetByTokenHash_spec F h v r v' \<longleftrightarrow> v' = v \<and>
     (case r of
        Inr s \<Rightarrow> v_sessions v (s_ID s) = Some s \<and> s_TokenHash s = h
      | Inl e \<Rightarrow> e \<in> F \<or> e = ErrNotFound \<and> (\<forall>i s. v_sessions v i = Some s \<longrightarrow> s_TokenHash s \<noteq> h))"

definition session_ListByUser_spec ::
  "error set \<Rightarrow> string \<Rightarrow> dbview \<Rightarrow> error + Session list \<Rightarrow> dbview \<Rightarrow> bool" where
  "session_ListByUser_spec F userID v r v' \<longleftrightarrow> v' = v \<and>
     (case r of
        Inr ss \<Rightarrow> distinct (map s_ID ss) \<and>
          set ss = {s. v_sessions v (s_ID s) = Some s \<and> s_UserID s = userID \<and> s_RevokedAt s = None}
      | Inl e \<Rightarrow> e \<in> F)"

definition session_Revoke_spec :: "error set \<Rightarrow> string \<Rightarrow> dbview \<Rightarrow> error option \<Rightarrow> dbview \<Rightarrow> bool" where
  "session_Revoke_spec F i v r v' \<longleftrightarrow>
     (r = None \<and> (\<exists>s t. v_sessions v i = Some s \<and>
        v' = v\<lparr>v_sessions := (v_sessions v)(i \<mapsto> s\<lparr>s_RevokedAt := Some t\<rparr>)\<rparr>)) \<or>
     (r = Some ErrNotFound \<and> v' = v \<and> (\<forall>s. v_sessions v i = Some s \<longrightarrow> s_RevokedAt s \<noteq> None)) \<or>
     fault_option F v r v'"

definition session_RevokeWhere_spec ::
  "error set \<Rightarrow> (Session \<Rightarrow> bool) \<Rightarrow> dbview \<Rightarrow> error option \<Rightarrow> dbview \<Rightarrow> bool" where
  "session_RevokeWhere_spec F P v r v' \<longleftrightarrow>
     (r = None \<and> (\<exists>t. v' = v\<lparr>v_sessions := revoke_where P t (v_sessions v)\<rparr>)) \<or> fault_option F v r v'"

definition session_RotateToken_spec ::
  "error set \<Rightarrow> string \<Rightarrow> Session \<Rightarrow> dbview \<Rightarrow> error option \<Rightarrow> dbview \<Rightarrow> bool" where
  "session_RotateToken_spec F i n v r v' \<longleftrightarrow>
     (r = None \<and> (\<exists>s t t'. v_sessions v i = Some s \<and>
        v' = v\<lparr>v_sessions := (v_sessions v)(i \<mapsto> s\<lparr>s_RevokedAt := Some t\<rparr>, s_ID n \<mapsto> n\<lparr>s_CreatedAt := t'\<rparr>)\<rparr>)) \<or>
     (r = Some ErrNotFound \<and> v' = v \<and> (\<forall>s. v_sessions v i = Some s \<longrightarrow> s_RevokedAt s \<noteq> None)) \<or>
     fault_option F v r v'"

locale session_store =
  fixes invar :: "'db \<Rightarrow> bool" and view :: "'db \<Rightarrow> dbview" and faults :: "error set"
    and sessions :: "'db world SessionStore"
  assumes session_Create: "s_RevokedAt s = None \<Longrightarrow>
      db_op invar view (ss_Create sessions s) (session_Create_spec faults s)"
    and session_GetByID: "db_op invar view (ss_GetByID sessions i) (session_GetByID_spec faults i)"
    and session_GetByTokenHash:
      "db_op invar view (ss_GetByTokenHash sessions h) (session_GetByTokenHash_spec faults h)"
    and session_ListByUser: "db_op invar view (ss_ListByUser sessions uid) (session_ListByUser_spec faults uid)"
    and session_Revoke: "db_op invar view (ss_Revoke sessions i) (session_Revoke_spec faults i)"
    and session_RevokeFamily: "db_op invar view (ss_RevokeFamily sessions f)
      (session_RevokeWhere_spec faults (\<lambda>s. s_FamilyID s = f))"
    and session_RevokeAllForUser: "db_op invar view (ss_RevokeAllForUser sessions uid)
      (session_RevokeWhere_spec faults (\<lambda>s. s_UserID s = uid))"
    and session_RotateToken: "s_RevokedAt n = None \<Longrightarrow>
      db_op invar view (ss_RotateToken sessions i n) (session_RotateToken_spec faults i n)"

context session_store
begin

lemmas wp_sessions [wp_intros] = wp_db_op [OF session_Create] wp_db_op [OF session_GetByID]
  wp_db_op [OF session_GetByTokenHash] wp_db_op [OF session_ListByUser] wp_db_op [OF session_Revoke]
  wp_db_op [OF session_RevokeFamily] wp_db_op [OF session_RevokeAllForUser]
  wp_db_op [OF session_RotateToken]

end

section \<open>Specifications of the audit and verification stores\<close>

definition audit_Record_spec :: "error set \<Rightarrow> AuditEvent \<Rightarrow> dbview \<Rightarrow> error option \<Rightarrow> dbview \<Rightarrow> bool" where
  "audit_Record_spec F e v r v' \<longleftrightarrow>
     (r = None \<and> (\<exists>i t. v' = v\<lparr>v_events := v_events v @ [e\<lparr>ev_ID := i, ev_CreatedAt := t\<rparr>]\<rparr>)) \<or>
     fault_option F v r v'"

definition audit_ListByUser_spec ::
  "error set \<Rightarrow> string \<Rightarrow> int \<Rightarrow> dbview \<Rightarrow> error + AuditEvent list \<Rightarrow> dbview \<Rightarrow> bool" where
  "audit_ListByUser_spec F userID limit v r v' \<longleftrightarrow> v' = v \<and>
     (case r of
        Inr es \<Rightarrow> int (length es) \<le> max 0 limit \<and> (\<forall>e \<in> set es. ev_UserID e = userID \<and> e \<in> set (v_events v))
      | Inl e \<Rightarrow> e \<in> F)"

locale audit_store =
  fixes invar :: "'db \<Rightarrow> bool" and view :: "'db \<Rightarrow> dbview" and faults :: "error set"
    and audit :: "'db world AuditStore"
  assumes audit_Record: "db_op invar view (as_Record audit e) (audit_Record_spec faults e)"
    and audit_ListByUser: "db_op invar view (as_ListByUser audit uid n) (audit_ListByUser_spec faults uid n)"

text \<open>
  The engine records an event and only logs when that fails: the event is there afterwards unless
  the backend can fault.
\<close>

definition audited :: "error set \<Rightarrow> AuditEvent \<Rightarrow> dbview \<Rightarrow> dbview \<Rightarrow> bool" where
  "audited F e v v' \<longleftrightarrow>
     (\<exists>i t. v' = v\<lparr>v_events := v_events v @ [e\<lparr>ev_ID := i, ev_CreatedAt := t\<rparr>]\<rparr>) \<or> (F \<noteq> {} \<and> v' = v)"

lemma audited_data:
  assumes "audited F e v v'"
  shows "v_users v' = v_users v" "v_sessions v' = v_sessions v" "v_verifs v' = v_verifs v"
  using assms by (auto simp: audited_def)

context audit_store
begin

lemmas wp_audit [wp_intros] = wp_db_op [OF audit_Record] wp_db_op [OF audit_ListByUser]

end

locale audit_log = audit_store invar view faults audit + logger log
  for invar :: "'db \<Rightarrow> bool" and view :: "'db \<Rightarrow> dbview" and faults :: "error set"
    and audit :: "'db world AuditStore" and log :: "'db world Logger"
begin

lemma wp_audited:
  assumes "invar (w_db w)"
    and "\<And>w'. invar (w_db w') \<Longrightarrow> w_limiter w' = w_limiter w \<Longrightarrow> w_outbox w' = w_outbox w \<Longrightarrow>
      w_ext w' = w_ext w \<Longrightarrow> w_tick w \<le> w_tick w' \<Longrightarrow>
      audited faults e (view (w_db w)) (view (w_db w')) \<Longrightarrow>
      v_users (view (w_db w')) = v_users (view (w_db w)) \<Longrightarrow>
      v_sessions (view (w_db w')) = v_sessions (view (w_db w)) \<Longrightarrow>
      v_verifs (view (w_db w')) = v_verifs (view (w_db w)) \<Longrightarrow> wp k Q w'"
  shows "wp (State_Monad.bind (as_Record audit e) (\<lambda>r.
      State_Monad.bind (case r of None \<Rightarrow> State_Monad.return () | Some err \<Rightarrow> lg_Error log msg (f err))
        (\<lambda>_. k))) Q w"
proof (intro wp_bind wp_audit(1) assms(1))
  fix r and w' :: "'db world"
  assume w': "invar (w_db w')" "w_limiter w' = w_limiter w" "w_outbox w' = w_outbox w"
    "w_ext w' = w_ext w" "w_tick w \<le> w_tick w'" "audit_Record_spec faults e (view (w_db w)) r (view (w_db w'))"
  then have aud: "audited faults e (view (w_db w)) (view (w_db w'))"
    by (auto simp: audited_def audit_Record_spec_def fault_option_def)
  show "wp (case r of None \<Rightarrow> State_Monad.return () | Some err \<Rightarrow> lg_Error log msg (f err)) (\<lambda>_. wp k Q) w'"
    using w' aud by (intro wp_case_option wp_return wp_log) (auto intro!: assms(2) audited_data [OF aud])
qed

end

definition verif_Create_spec ::
  "error set \<Rightarrow> (Time \<Rightarrow> Time) \<Rightarrow> VerificationToken \<Rightarrow> dbview \<Rightarrow> error option \<Rightarrow> dbview \<Rightarrow> bool" where
  "verif_Create_spec F st vt v r v' \<longleftrightarrow>
     (r = None \<and> (\<exists>t. v' = v\<lparr>v_verifs := (v_verifs v)(vt_ID vt \<mapsto>
        vt\<lparr>vt_ExpiresAt := st (vt_ExpiresAt vt), vt_CreatedAt := t\<rparr>)\<rparr>)) \<or>
     fault_option F v r v'"

definition verif_GetByTokenHash_spec ::
  "error set \<Rightarrow> string \<Rightarrow> dbview \<Rightarrow> error + VerificationToken \<Rightarrow> dbview \<Rightarrow> bool" where
  "verif_GetByTokenHash_spec F h v r v' \<longleftrightarrow> v' = v \<and>
     (case r of
        Inr vt \<Rightarrow> v_verifs v (vt_ID vt) = Some vt \<and> vt_TokenHash vt = h
      | Inl e \<Rightarrow> e \<in> F \<or> e = ErrNotFound \<and> (\<forall>i vt. v_verifs v i = Some vt \<longrightarrow> vt_TokenHash vt \<noteq> h))"

definition verif_MarkUsed_spec :: "error set \<Rightarrow> string \<Rightarrow> dbview \<Rightarrow> error option \<Rightarrow> dbview \<Rightarrow> bool" where
  "verif_MarkUsed_spec F i v r v' \<longleftrightarrow>
     (r = None \<and> (\<exists>vt t. v_verifs v i = Some vt \<and>
        v' = v\<lparr>v_verifs := (v_verifs v)(i \<mapsto> vt\<lparr>vt_UsedAt := Some t\<rparr>)\<rparr>)) \<or>
     (r = Some ErrNotFound \<and> v' = v \<and> (\<forall>vt. v_verifs v i = Some vt \<longrightarrow> vt_UsedAt vt \<noteq> None)) \<or>
     fault_option F v r v'"

locale verification_store =
  fixes invar :: "'db \<Rightarrow> bool" and view :: "'db \<Rightarrow> dbview" and faults :: "error set"
    and verifications :: "'db world VerificationStore" and stamp :: "Time \<Rightarrow> Time"
  assumes verif_Create: "vt_UsedAt vt = None \<Longrightarrow>
      db_op invar view (vs_Create verifications vt) (verif_Create_spec faults stamp vt)"
    and verif_GetByTokenHash:
      "db_op invar view (vs_GetByTokenHash verifications h) (verif_GetByTokenHash_spec faults h)"
    and verif_MarkUsed: "db_op invar view (vs_MarkUsed verifications i) (verif_MarkUsed_spec faults i)"

context verification_store
begin

lemmas wp_verifications [wp_intros] = wp_db_op [OF verif_Create] wp_db_op [OF verif_GetByTokenHash]
  wp_db_op [OF verif_MarkUsed]

end

lemmas user_spec_defs [spec_defs] = user_update_spec_def user_Create_spec_def user_GetByEmail_spec_def
  user_GetByID_spec_def user_Delete_spec_def user_Increment_spec_def

lemmas session_spec_defs [spec_defs] = session_Create_spec_def session_GetByID_spec_def
  session_GetByTokenHash_spec_def session_ListByUser_spec_def session_Revoke_spec_def
  session_RevokeWhere_spec_def session_RotateToken_spec_def

lemmas other_spec_defs [spec_defs] = audit_Record_spec_def audit_ListByUser_spec_def
  verif_Create_spec_def verif_GetByTokenHash_spec_def verif_MarkUsed_spec_def fault_option_def

section \<open>Operations of the engine\<close>

text \<open>
  A program of the engine that hands out no mail keeps the promise \<open>S\<close>, a relation between the
  third-party world, the interval of draws it used, the view before, the result and the view after.
\<close>

definition engine_op ::
  "('db \<Rightarrow> bool) \<Rightarrow> ('db \<Rightarrow> dbview) \<Rightarrow> ('db world, 'r) state \<Rightarrow>
   (externals \<Rightarrow> nat \<Rightarrow> nat \<Rightarrow> dbview \<Rightarrow> 'r \<Rightarrow> dbview \<Rightarrow> bool) \<Rightarrow> bool" where
  "engine_op invar view m S \<longleftrightarrow> (\<forall>w. invar (w_db w) \<longrightarrow>
     wp m (\<lambda>r w'. invar (w_db w') \<and> w_outbox w' = w_outbox w \<and> w_ext w' = w_ext w \<and> w_tick w \<le> w_tick w' \<and>
       S (w_ext w) (w_tick w) (w_tick w') (view (w_db w)) r (view (w_db w'))) w)"

lemma engine_opI:
  "(\<And>w. invar (w_db w) \<Longrightarrow>
     wp m (\<lambda>r w'. invar (w_db w') \<and> w_outbox w' = w_outbox w \<and> w_ext w' = w_ext w \<and> w_tick w \<le> w_tick w' \<and>
       S (w_ext w) (w_tick w) (w_tick w') (view (w_db w)) r (view (w_db w'))) w) \<Longrightarrow>
   engine_op invar view m S"
  by (simp add: engine_op_def)

lemma engine_opD:
  assumes "engine_op invar view m S" and "run_state m w = (r, w')" and "invar (w_db w)"
  shows "invar (w_db w')" "w_outbox w' = w_outbox w" "w_ext w' = w_ext w" "w_tick w \<le> w_tick w'"
    "S (w_ext w) (w_tick w) (w_tick w') (view (w_db w)) r (view (w_db w'))"
  using wpD [OF assms(1) [unfolded engine_op_def, rule_format, OF assms(3)] assms(2)] by blast+

lemma wp_engine_op:
  assumes "engine_op invar view m S" and "invar (w_db w)"
    and "\<And>r w'. invar (w_db w') \<Longrightarrow> w_outbox w' = w_outbox w \<Longrightarrow>
      w_ext w' = w_ext w \<Longrightarrow> w_tick w \<le> w_tick w' \<Longrightarrow>
      S (w_ext w) (w_tick w) (w_tick w') (view (w_db w)) r (view (w_db w')) \<Longrightarrow> Q r w'"
  shows "wp m Q w"
  by (rule wpI, rule assms; erule engine_opD [OF assms(1) _ assms(2)])

end
