(* ===== verification/Sql_Tables.thy ===== *)
theory Sql_Tables
  imports Store "HOL-Library.Multiset"
begin

text \<open>
  The database behind \<open>store/postgres\<close>: the tables of \<open>migrations/0001_initial_schema.up.sql\<close> as lists of
  rows, their constraints, and the effect of the statements that the stores send. What the server
  decides on its own is a parameter, \<open>pg_server\<close>, by the number of the statement: whether a statement
  fails, the value of \<open>now()\<close> and of \<open>gen_random_uuid()\<close>, the order in which rows are found, and the
  precision to which a \<open>TIMESTAMPTZ\<close> is kept. A statement that fails has no effect. Identifiers are
  compared as they are written: other spellings of a UUID are not modelled.
\<close>

section \<open>Rows\<close>

record audit_row =
  au_id :: string
  au_type :: AuditEventType
  au_user_id :: "string option"
  au_ip :: string
  au_metadata :: "fields option"
  au_created_at :: Time

record verification_row =
  vr_id :: string
  vr_user_id :: string
  vr_purpose :: VerificationPurpose
  vr_token_hash :: string
  vr_new_email :: "string option"
  vr_expires_at :: Time
  vr_used_at :: "Time option"
  vr_created_at :: Time

record pg_server =
  sv_fault :: "nat \<Rightarrow> string option"
  sv_now :: "nat \<Rightarrow> Time"
  sv_gen_random_uuid :: "nat \<Rightarrow> string"
  sv_scan :: "nat \<Rightarrow> nat list"
  sv_round :: "Time \<Rightarrow> Time"

text \<open>The rows of \<open>users\<close> and \<open>sessions\<close> are scanned into the structs field by field.\<close>

record PostgresDB =
  pg_users :: "User list"
  pg_sessions :: "Session list"
  pg_verifs :: "verification_row list"
  pg_events :: "audit_row list"
  pg_stmts :: nat
  pg_server :: pg_server

type_synonym pg_world = "PostgresDB world"

section \<open>Statements\<close>

definition unique_violation :: error where
  "unique_violation = ExternalError ''pq: duplicate key value violates unique constraint''"

definition foreign_key_violation :: error where
  "foreign_key_violation = ExternalError ''pq: insert or update on table violates foreign key constraint''"

definition out_of_range :: error where
  "out_of_range = ExternalError ''pq: integer out of range''"

definition negative_limit :: error where
  "negative_limit = ExternalError ''pq: LIMIT must not be negative''"

text \<open>One statement: the server fails it, or runs it on the tables; a violated constraint is an error too.\<close>

definition pg_stmt :: "(nat \<Rightarrow> PostgresDB \<Rightarrow> error + 'r \<times> PostgresDB) \<Rightarrow> (pg_world, error + 'r) state" where
  "pg_stmt stmt = State (\<lambda>w.
     let d = w_db w; n = pg_stmts d; failed = w\<lparr>w_db := d\<lparr>pg_stmts := Suc n\<rparr>\<rparr>
     in case sv_fault (pg_server d) n of
          Some msg \<Rightarrow> (Inl (ExternalError msg), failed)
        | None \<Rightarrow>
            (case stmt n d of
               Inl e \<Rightarrow> (Inl e, failed)
             | Inr (r, d') \<Rightarrow> (Inr r, w\<lparr>w_db := d'\<lparr>pg_stmts := Suc n\<rparr>\<rparr>)))"

text \<open>\<open>QueryRowContext(...).Scan\<close>: the first row found; \<open>None\<close> stands for \<open>sql.ErrNoRows\<close>.\<close>

definition find_row :: "('a \<Rightarrow> bool) \<Rightarrow> (PostgresDB \<Rightarrow> 'a list) \<Rightarrow> nat \<Rightarrow> PostgresDB \<Rightarrow> 'a option" where
  "find_row P table n d = find P (range_order (sv_scan (pg_server d) n) (table d))"

definition select_row :: "('a \<Rightarrow> bool) \<Rightarrow> (PostgresDB \<Rightarrow> 'a list) \<Rightarrow> (pg_world, error + 'a option) state" where
  "select_row P table = pg_stmt (\<lambda>n d. Inr (find_row P table n d, d))"

text \<open>\<open>SELECT ... WHERE P ORDER BY k DESC\<close>; rows with the same key come in any order.\<close>

definition select_ordered ::
  "('a \<Rightarrow> bool) \<Rightarrow> ('a \<Rightarrow> Time) \<Rightarrow> (PostgresDB \<Rightarrow> 'a list) \<Rightarrow> nat \<Rightarrow> PostgresDB \<Rightarrow> 'a list" where
  "select_ordered P k table n d =
     sort_key (\<lambda>r. - k r) (filter P (range_order (sv_scan (pg_server d) n) (table d)))"

definition update_where :: "('a \<Rightarrow> bool) \<Rightarrow> ('a \<Rightarrow> 'a) \<Rightarrow> 'a list \<Rightarrow> 'a list" where
  "update_where P f rows = map (\<lambda>r. if P r then f r else r) rows"

definition affected :: "('a \<Rightarrow> bool) \<Rightarrow> 'a list \<Rightarrow> int" where
  "affected P rows = int (length (filter P rows))"

section \<open>The statements, table by table\<close>

definition insert_user :: "string \<Rightarrow> string \<Rightarrow> string \<Rightarrow> nat \<Rightarrow> PostgresDB \<Rightarrow> error + int \<times> PostgresDB" where
  "insert_user i email hash n d =
     (if i \<in> u_ID ` set (pg_users d) \<or> email \<in> u_Email ` set (pg_users d) then Inl unique_violation
      else Inr (1, d\<lparr>pg_users := pg_users d @
        [\<lparr>u_ID = i, u_Email = email, u_PasswordHash = hash, u_FailedAttempts = 0, u_LockedUntil = None,
          u_CreatedAt = sv_now (pg_server d) n, u_UpdatedAt = sv_now (pg_server d) n\<rparr>]\<rparr>))"

definition update_users :: "string \<Rightarrow> (nat \<Rightarrow> PostgresDB \<Rightarrow> User \<Rightarrow> User) \<Rightarrow> nat \<Rightarrow> PostgresDB \<Rightarrow> error + int \<times> PostgresDB" where
  "update_users i f n d =
     (let rows = update_where (\<lambda>u. u_ID u = i) (f n d) (pg_users d)
      in if distinct (map u_Email rows)
         then Inr (affected (\<lambda>u. u_ID u = i) (pg_users d), d\<lparr>pg_users := rows\<rparr>)
         else Inl unique_violation)"

text \<open>
  \<open>UPDATE users SET failed_attempts = failed_attempts + 1 ... RETURNING failed_attempts\<close>, on a column of
  type \<open>INT\<close>.
\<close>

definition increment_attempts :: "string \<Rightarrow> nat \<Rightarrow> PostgresDB \<Rightarrow> error + int option \<times> PostgresDB" where
  "increment_attempts i n d =
     (case find_row (\<lambda>u. u_ID u = i) pg_users n d of
        None \<Rightarrow> Inr (None, d)
      | Some u \<Rightarrow>
          if 2 ^ 31 \<le> u_FailedAttempts u + 1 then Inl out_of_range
          else Inr (Some (u_FailedAttempts u + 1), d\<lparr>pg_users := update_where (\<lambda>u. u_ID u = i)
                 (\<lambda>u. u\<lparr>u_FailedAttempts := u_FailedAttempts u + 1\<rparr>) (pg_users d)\<rparr>))"

text \<open>
  \<open>DELETE FROM users\<close>: the sessions and verification tokens of the user go along (\<open>ON DELETE CASCADE\<close>), the
  audit events lose their user (\<open>ON DELETE SET NULL\<close>).
\<close>

definition delete_user :: "string \<Rightarrow> nat \<Rightarrow> PostgresDB \<Rightarrow> error + int \<times> PostgresDB" where
  "delete_user i n d =
     Inr (affected (\<lambda>u. u_ID u = i) (pg_users d),
       d\<lparr>pg_users := filter (\<lambda>u. u_ID u \<noteq> i) (pg_users d),
         pg_sessions := filter (\<lambda>s. s_UserID s \<noteq> i \<or> i \<notin> u_ID ` set (pg_users d)) (pg_sessions d),
         pg_verifs := filter (\<lambda>r. vr_user_id r \<noteq> i \<or> i \<notin> u_ID ` set (pg_users d)) (pg_verifs d),
         pg_events := update_where (\<lambda>r. au_user_id r = Some i \<and> i \<in> u_ID ` set (pg_users d))
           (\<lambda>r. r\<lparr>au_user_id := None\<rparr>) (pg_events d)\<rparr>)"

definition insert_session :: "Session \<Rightarrow> nat \<Rightarrow> PostgresDB \<Rightarrow> error + int \<times> PostgresDB" where
  "insert_session s n d =
     (if s_ID s \<in> s_ID ` set (pg_sessions d) \<or> s_TokenHash s \<in> s_TokenHash ` set (pg_sessions d)
      then Inl unique_violation
      else if s_UserID s \<notin> u_ID ` set (pg_users d) then Inl foreign_key_violation
      else Inr (1, d\<lparr>pg_sessions := pg_sessions d @
        [\<lparr>s_ID = s_ID s, s_FamilyID = s_FamilyID s, s_UserID = s_UserID s, s_TokenHash = s_TokenHash s,
          s_IP = s_IP s, s_UserAgent = s_UserAgent s, s_CreatedAt = sv_now (pg_server d) n,
          s_RevokedAt = None\<rparr>]\<rparr>))"

text \<open>\<open>UPDATE sessions SET revoked_at = now() WHERE P AND revoked_at IS NULL\<close>.\<close>

definition revoke_sessions :: "(Session \<Rightarrow> bool) \<Rightarrow> nat \<Rightarrow> PostgresDB \<Rightarrow> error + int \<times> PostgresDB" where
  "revoke_sessions P n d =
     Inr (affected (\<lambda>s. P s \<and> s_RevokedAt s = None) (pg_sessions d),
       d\<lparr>pg_sessions := update_where (\<lambda>s. P s \<and> s_RevokedAt s = None)
         (\<lambda>s. s\<lparr>s_RevokedAt := Some (sv_now (pg_server d) n)\<rparr>) (pg_sessions d)\<rparr>)"

definition insert_audit_event ::
  "AuditEventType \<Rightarrow> string option \<Rightarrow> string \<Rightarrow> fields option \<Rightarrow> nat \<Rightarrow> PostgresDB \<Rightarrow> error + int \<times> PostgresDB" where
  "insert_audit_event ty userID ip metadata n d =
     (let i = sv_gen_random_uuid (pg_server d) n
      in if i \<in> au_id ` set (pg_events d) then Inl unique_violation
         else if \<exists>u. userID = Some u \<and> u \<notin> u_ID ` set (pg_users d) then Inl foreign_key_violation
         else Inr (1, d\<lparr>pg_events := pg_events d @
           [\<lparr>au_id = i, au_type = ty, au_user_id = userID, au_ip = ip, au_metadata = metadata,
             au_created_at = sv_now (pg_server d) n\<rparr>]\<rparr>))"

definition insert_verification ::
  "string \<Rightarrow> string \<Rightarrow> VerificationPurpose \<Rightarrow> string \<Rightarrow> string option \<Rightarrow> Time \<Rightarrow> nat \<Rightarrow> PostgresDB \<Rightarrow>
   error + int \<times> PostgresDB" where
  "insert_verification i userID purpose tokenHash newEmail expiresAt n d =
     (if i \<in> vr_id ` set (pg_verifs d) \<or> tokenHash \<in> vr_token_hash ` set (pg_verifs d) then Inl unique_violation
      else if userID \<notin> u_ID ` set (pg_users d) then Inl foreign_key_violation
      else Inr (1, d\<lparr>pg_verifs := pg_verifs d @
        [\<lparr>vr_id = i, vr_user_id = userID, vr_purpose = purpose, vr_token_hash = tokenHash, vr_new_email = newEmail,
          vr_expires_at = sv_round (pg_server d) expiresAt, vr_used_at = None,
          vr_created_at = sv_now (pg_server d) n\<rparr>]\<rparr>))"

definition use_verification :: "string \<Rightarrow> nat \<Rightarrow> PostgresDB \<Rightarrow> error + int \<times> PostgresDB" where
  "use_verification i n d =
     Inr (affected (\<lambda>r. vr_id r = i \<and> vr_used_at r = None) (pg_verifs d),
       d\<lparr>pg_verifs := update_where (\<lambda>r. vr_id r = i \<and> vr_used_at r = None)
         (\<lambda>r. r\<lparr>vr_used_at := Some (sv_now (pg_server d) n)\<rparr>) (pg_verifs d)\<rparr>)"

section \<open>Tables as maps\<close>

definition keyed :: "('a \<Rightarrow> string) \<Rightarrow> 'a list \<Rightarrow> string \<rightharpoonup> 'a" where
  "keyed k rows = map_of (map (\<lambda>r. (k r, r)) rows)"

lemma keyed_Some: "distinct (map k rows) \<Longrightarrow> keyed k rows i = Some r \<longleftrightarrow> r \<in> set rows \<and> k r = i"
  by (auto simp: keyed_def map_of_eq_Some_iff comp_def)

lemma keyed_None: "keyed k rows i = None \<longleftrightarrow> i \<notin> k ` set rows"
  by (simp add: keyed_def map_of_eq_None_iff image_image)

lemma keyed_append: "k r \<notin> k ` set rows \<Longrightarrow> keyed k (rows @ [r]) = (keyed k rows)(k r \<mapsto> r)"
  by (induction rows) (auto simp: keyed_def fun_upd_twist)

lemma keyed_update:
  assumes "\<And>r. k (f r) = k r"
  shows "keyed k (update_where P f rows) i = map_option (\<lambda>r. if P r then f r else r) (keyed k rows i)"
  using assms by (induction rows) (auto simp: keyed_def update_where_def)

lemma keyed_key: "keyed k rows i = Some r \<Longrightarrow> r \<in> set rows \<and> k r = i"
  by (auto simp: keyed_def dest: map_of_SomeD)

lemma keyed_update_one:
  assumes "\<And>r. k (f r) = k r"
  shows "keyed k (update_where (\<lambda>r. k r = i \<and> Q r) f rows) =
    (case keyed k rows i of None \<Rightarrow> keyed k rows | Some r \<Rightarrow> if Q r then (keyed k rows)(i \<mapsto> f r) else keyed k rows)"
proof
  fix j
  note upd = keyed_update [where k = k and f = f, OF assms, where P = "\<lambda>r. k r = i \<and> Q r" and rows = rows and i = j]
  show "keyed k (update_where (\<lambda>r. k r = i \<and> Q r) f rows) j =
    (case keyed k rows i of None \<Rightarrow> keyed k rows | Some r \<Rightarrow> if Q r then (keyed k rows)(i \<mapsto> f r) else keyed k rows) j"
  proof (cases "keyed k rows j")
    case (Some r)
    with upd keyed_key [OF Some] show ?thesis by (auto split: option.splits)
  qed (use upd in \<open>auto split: option.splits\<close>)
qed

lemma affected_one: "affected (\<lambda>r. k r = i \<and> Q r) rows = 0 \<longleftrightarrow> (\<forall>r \<in> set rows. k r = i \<longrightarrow> \<not> Q r)"
  by (auto simp: affected_def filter_empty_conv)

lemma keyed_filter:
  "distinct (map k rows) \<Longrightarrow>
   keyed k (filter P rows) i = (case keyed k rows i of Some r \<Rightarrow> if P r then Some r else None | None \<Rightarrow> None)"
  by (induction rows) (auto simp: keyed_def map_of_eq_None_iff split: option.splits)

lemma keyed_filter_keeps:
  "distinct (map k rows) \<Longrightarrow> keyed k rows i = Some r \<Longrightarrow> P r \<Longrightarrow> keyed k (filter P rows) i = Some r"
  by (simp add: keyed_filter)

lemma keyed_filter_le: "distinct (map k rows) \<Longrightarrow> keyed k (filter P rows) \<subseteq>\<^sub>m keyed k rows"
  by (auto simp: map_le_def keyed_filter split: option.splits if_splits)

lemma map_option_le: "m \<subseteq>\<^sub>m m' \<Longrightarrow> map_option f \<circ> m \<subseteq>\<^sub>m map_option f \<circ> m'"
  by (auto simp: map_le_def dom_def)

lemma update_where_key: "(\<And>r. k (f r) = k r) \<Longrightarrow> map k (update_where P f rows) = map k rows"
  by (simp add: update_where_def)

lemma set_update_where: "set (update_where P f rows) = (\<lambda>r. if P r then f r else r) ` set rows"
  by (auto simp: update_where_def)

lemma affected_zero: "affected P rows = 0 \<longleftrightarrow> (\<forall>r \<in> set rows. \<not> P r)"
  by (simp add: affected_def filter_empty_conv)

lemma find_row_Some: "find_row P table n d = Some r \<Longrightarrow> r \<in> set (table d) \<and> P r"
  by (auto simp: find_row_def find_Some_iff dest: nth_mem)

lemma find_row_None: "find_row P table n d = None \<longleftrightarrow> (\<forall>r \<in> set (table d). \<not> P r)"
  by (auto simp: find_row_def find_None_iff)

lemma set_select_ordered [simp]: "set (select_ordered P k table n d) = {r \<in> set (table d). P r}"
  by (auto simp: select_ordered_def)

lemma distinct_select_ordered:
  assumes "distinct (map f (table d))"
  shows "distinct (map f (select_ordered P k table n d))"
proof -
  let ?rows = "range_order (sv_scan (pg_server d) n) (table d)"
  have "mset (map f ?rows) = mset (map f (table d))" by (simp add: mset_range_order)
  then have "distinct (map f ?rows)" using assms mset_eq_imp_distinct_iff by blast
  then have "distinct (map f (filter P ?rows))" by (rule distinct_map_filter)
  moreover have "mset (map f (select_ordered P k table n d)) = mset (map f (filter P ?rows))"
    by (simp add: select_ordered_def)
  ultimately show ?thesis using mset_eq_imp_distinct_iff by blast
qed

end
