(* ===== verification/Postgres_Store.thy ===== *)
theory Postgres_Store
  imports Sql_Tables
begin

text \<open>
  \<open>store/postgres\<close>: the four stores over the database of \<open>Sql_Tables\<close>, one definition per method. That they keep the
  contracts of \<open>Store\<close> is shown in \<open>Postgres_Users\<close> and \<open>Postgres_Contracts\<close>.
\<close>

section \<open>User store\<close>

definition exec_error :: "error + 'a \<Rightarrow> error option" where
  "exec_error r = (case r of Inl err \<Rightarrow> Some err | Inr _ \<Rightarrow> None)"

definition checkRowsAffected :: "error + int \<Rightarrow> error option" where
  "checkRowsAffected result =
     (case result of Inl err \<Rightarrow> Some err | Inr n \<Rightarrow> if n = 0 then Some ErrNotFound else None)"

definition pg_UserStore_Create :: "User \<Rightarrow> (pg_world, error option) state" where
  "pg_UserStore_Create user = do {
     r \<leftarrow> pg_stmt (insert_user (u_ID user) (u_Email user) (u_PasswordHash user));
     State_Monad.return (exec_error r)
   }"

definition row_or_not_found :: "('a \<Rightarrow> 'b) \<Rightarrow> error + 'a option \<Rightarrow> error + 'b" where
  "row_or_not_found f r =
     (case r of Inl err \<Rightarrow> Inl err | Inr None \<Rightarrow> Inl ErrNotFound | Inr (Some row) \<Rightarrow> Inr (f row))"

definition pg_UserStore_GetByEmail :: "string \<Rightarrow> (pg_world, error + User) state" where
  "pg_UserStore_GetByEmail email = do {
     r \<leftarrow> select_row (\<lambda>u. u_Email u = email) pg_users;
     State_Monad.return (row_or_not_found id r)
   }"

definition pg_UserStore_GetByID :: "string \<Rightarrow> (pg_world, error + User) state" where
  "pg_UserStore_GetByID i = do {
     r \<leftarrow> select_row (\<lambda>u. u_ID u = i) pg_users;
     State_Monad.return (row_or_not_found id r)
   }"

definition pg_UserStore_UpdateEmail :: "string \<Rightarrow> string \<Rightarrow> (pg_world, error option) state" where
  "pg_UserStore_UpdateEmail i newEmail = do {
     result \<leftarrow> pg_stmt (update_users i (\<lambda>n d u. u\<lparr>u_Email := newEmail, u_UpdatedAt := sv_now (pg_server d) n\<rparr>));
     State_Monad.return (checkRowsAffected result)
   }"

definition pg_UserStore_UpdatePasswordHash :: "string \<Rightarrow> string \<Rightarrow> (pg_world, error option) state" where
  "pg_UserStore_UpdatePasswordHash i newHash = do {
     result \<leftarrow> pg_stmt (update_users i (\<lambda>n d u. u\<lparr>u_PasswordHash := newHash, u_UpdatedAt := sv_now (pg_server d) n\<rparr>));
     State_Monad.return (checkRowsAffected result)
   }"

definition pg_UserStore_Delete :: "string \<Rightarrow> (pg_world, error option) state" where
  "pg_UserStore_Delete i = do {
     result \<leftarrow> pg_stmt (delete_user i);
     State_Monad.return (checkRowsAffected result)
   }"

definition pg_UserStore_IncrementFailedAttempts :: "string \<Rightarrow> (pg_world, error + int) state" where
  "pg_UserStore_IncrementFailedAttempts i = do {
     r \<leftarrow> pg_stmt (increment_attempts i);
     State_Monad.return (row_or_not_found id r)
   }"

definition pg_UserStore_ResetFailedAttempts :: "string \<Rightarrow> (pg_world, error option) state" where
  "pg_UserStore_ResetFailedAttempts i = do {
     result \<leftarrow> pg_stmt (update_users i (\<lambda>n d u. u\<lparr>u_FailedAttempts := 0, u_LockedUntil := None\<rparr>));
     State_Monad.return (checkRowsAffected result)
   }"

definition pg_UserStore_LockAccount :: "string \<Rightarrow> Time \<Rightarrow> (pg_world, error option) state" where
  "pg_UserStore_LockAccount i until = do {
     result \<leftarrow> pg_stmt (update_users i (\<lambda>n d u. u\<lparr>u_LockedUntil := Some (sv_round (pg_server d) until)\<rparr>));
     State_Monad.return (checkRowsAffected result)
   }"

definition pg_UserStore :: "pg_world UserStore" where
  "pg_UserStore =
     \<lparr>us_Create = pg_UserStore_Create, us_GetByEmail = pg_UserStore_GetByEmail, us_GetByID = pg_UserStore_GetByID,
      us_UpdateEmail = pg_UserStore_UpdateEmail, us_UpdatePasswordHash = pg_UserStore_UpdatePasswordHash,
      us_Delete = pg_UserStore_Delete, us_IncrementFailedAttempts = pg_UserStore_IncrementFailedAttempts,
      us_ResetFailedAttempts = pg_UserStore_ResetFailedAttempts, us_LockAccount = pg_UserStore_LockAccount\<rparr>"

section \<open>Session store\<close>

definition pg_SessionStore_Create :: "Session \<Rightarrow> (pg_world, error option) state" where
  "pg_SessionStore_Create sess = do {
     r \<leftarrow> pg_stmt (insert_session sess);
     State_Monad.return (exec_error r)
   }"

definition pg_SessionStore_scanOne :: "(Session \<Rightarrow> bool) \<Rightarrow> (pg_world, error + Session) state" where
  "pg_SessionStore_scanOne P = do {
     r \<leftarrow> select_row P pg_sessions;
     State_Monad.return (row_or_not_found id r)
   }"

definition pg_SessionStore_GetByID :: "string \<Rightarrow> (pg_world, error + Session) state" where
  "pg_SessionStore_GetByID sessionID = pg_SessionStore_scanOne (\<lambda>s. s_ID s = sessionID)"

definition pg_SessionStore_GetByTokenHash :: "string \<Rightarrow> (pg_world, error + Session) state" where
  "pg_SessionStore_GetByTokenHash tokenHash = pg_SessionStore_scanOne (\<lambda>s. s_TokenHash s = tokenHash)"

text \<open>The loop over the rows: \<open>rows.Err()\<close> is asked when the last one has been scanned.\<close>

definition scan_rows :: "('a \<Rightarrow> 'b) \<Rightarrow> 'a list \<Rightarrow> (pg_world, error + 'b list) state" where
  "scan_rows f rows = do {
     r \<leftarrow> pg_stmt (\<lambda>n d. Inr ((), d));
     State_Monad.return (case r of Inl err \<Rightarrow> Inl err | Inr _ \<Rightarrow> Inr (map f rows))
   }"

definition pg_SessionStore_ListByUser :: "string \<Rightarrow> (pg_world, error + Session list) state" where
  "pg_SessionStore_ListByUser userID = do {
     rows \<leftarrow> pg_stmt (\<lambda>n d. Inr (select_ordered (\<lambda>s. s_UserID s = userID \<and> s_RevokedAt s = None) s_CreatedAt pg_sessions n d, d));
     case rows of
       Inl err \<Rightarrow> State_Monad.return (Inl err)
     | Inr rows \<Rightarrow> scan_rows id rows
   }"

definition pg_SessionStore_Revoke :: "string \<Rightarrow> (pg_world, error option) state" where
  "pg_SessionStore_Revoke sessionID = do {
     result \<leftarrow> pg_stmt (revoke_sessions (\<lambda>s. s_ID s = sessionID));
     State_Monad.return (checkRowsAffected result)
   }"

definition pg_SessionStore_RevokeFamily :: "string \<Rightarrow> (pg_world, error option) state" where
  "pg_SessionStore_RevokeFamily familyID = do {
     r \<leftarrow> pg_stmt (revoke_sessions (\<lambda>s. s_FamilyID s = familyID));
     State_Monad.return (exec_error r)
   }"

definition pg_SessionStore_RevokeAllForUser :: "string \<Rightarrow> (pg_world, error option) state" where
  "pg_SessionStore_RevokeAllForUser userID = do {
     r \<leftarrow> pg_stmt (revoke_sessions (\<lambda>s. s_UserID s = userID));
     State_Monad.return (exec_error r)
   }"

text \<open>
  \<open>defer tx.Rollback()\<close>: the tables are as they were when the transaction began. A rollback that cannot be
  sent has the same effect, since the server drops the transaction with the connection.
\<close>

definition tx_Rollback :: "PostgresDB \<Rightarrow> (pg_world, unit) state" where
  "tx_Rollback before = State (\<lambda>w. ((), w\<lparr>w_db := before\<lparr>pg_stmts := pg_stmts (w_db w)\<rparr>\<rparr>))"

definition pg_SessionStore_RotateToken :: "string \<Rightarrow> Session \<Rightarrow> (pg_world, error option) state" where
  "pg_SessionStore_RotateToken oldSessionID newSession = do {
     tx \<leftarrow> pg_stmt (\<lambda>n d. Inr (d, d));
     case tx of
       Inl err \<Rightarrow> State_Monad.return (Some err)
     | Inr before \<Rightarrow> do {
         result \<leftarrow> pg_stmt (revoke_sessions (\<lambda>s. s_ID s = oldSessionID));
         case checkRowsAffected result of
           Some err \<Rightarrow> do { _ \<leftarrow> tx_Rollback before; State_Monad.return (Some err) }
         | None \<Rightarrow> do {
             r \<leftarrow> pg_stmt (insert_session newSession);
             case r of
               Inl err \<Rightarrow> do { _ \<leftarrow> tx_Rollback before; State_Monad.return (Some err) }
             | Inr _ \<Rightarrow> do {
                 c \<leftarrow> pg_stmt (\<lambda>n d. Inr ((), d));
                 case c of
                   Inl err \<Rightarrow> do { _ \<leftarrow> tx_Rollback before; State_Monad.return (Some err) }
                 | Inr _ \<Rightarrow> State_Monad.return None
               }
           }
       }
   }"

definition pg_SessionStore :: "pg_world SessionStore" where
  "pg_SessionStore =
     \<lparr>ss_Create = pg_SessionStore_Create, ss_GetByID = pg_SessionStore_GetByID,
      ss_GetByTokenHash = pg_SessionStore_GetByTokenHash, ss_ListByUser = pg_SessionStore_ListByUser,
      ss_Revoke = pg_SessionStore_Revoke, ss_RevokeFamily = pg_SessionStore_RevokeFamily,
      ss_RevokeAllForUser = pg_SessionStore_RevokeAllForUser, ss_RotateToken = pg_SessionStore_RotateToken\<rparr>"

section \<open>Audit store\<close>

definition null_string :: "string \<Rightarrow> string option" where
  "null_string s = (if s \<noteq> [] then Some s else None)"

definition string_or_empty :: "string option \<Rightarrow> string" where
  "string_or_empty s = (case s of Some s \<Rightarrow> s | None \<Rightarrow> [])"

definition pg_AuditStore_Record :: "AuditEvent \<Rightarrow> (pg_world, error option) state" where
  "pg_AuditStore_Record event = do {
     r \<leftarrow> pg_stmt (insert_audit_event (ev_Type event) (null_string (ev_UserID event)) (ev_IP event) (ev_Metadata event));
     State_Monad.return (exec_error r)
   }"

definition scan_event :: "audit_row \<Rightarrow> AuditEvent" where
  "scan_event r = \<lparr>ev_ID = au_id r, ev_Type = au_type r, ev_UserID = string_or_empty (au_user_id r), ev_IP = au_ip r,
     ev_Metadata = au_metadata r, ev_CreatedAt = au_created_at r\<rparr>"

definition pg_AuditStore_ListByUser :: "string \<Rightarrow> int \<Rightarrow> (pg_world, error + AuditEvent list) state" where
  "pg_AuditStore_ListByUser userID limit = do {
     rows \<leftarrow> pg_stmt (\<lambda>n d.
       if limit < 0 then Inl negative_limit
       else Inr (take (nat limit) (select_ordered (\<lambda>r. au_user_id r = Some userID) au_created_at pg_events n d), d));
     case rows of
       Inl err \<Rightarrow> State_Monad.return (Inl err)
     | Inr rows \<Rightarrow> scan_rows scan_event rows
   }"

definition pg_AuditStore :: "pg_world AuditStore" where
  "pg_AuditStore = \<lparr>as_Record = pg_AuditStore_Record, as_ListByUser = pg_AuditStore_ListByUser\<rparr>"

section \<open>Verification store\<close>

definition pg_VerificationStore_Create :: "VerificationToken \<Rightarrow> (pg_world, error option) state" where
  "pg_VerificationStore_Create vt = do {
     r \<leftarrow> pg_stmt (insert_verification (vt_ID vt) (vt_UserID vt) (vt_Purpose vt) (vt_TokenHash vt)
       (null_string (vt_NewEmail vt)) (vt_ExpiresAt vt));
     State_Monad.return (exec_error r)
   }"

definition scan_verification :: "verification_row \<Rightarrow> VerificationToken" where
  "scan_verification r = \<lparr>vt_ID = vr_id r, vt_UserID = vr_user_id r, vt_Purpose = vr_purpose r,
     vt_TokenHash = vr_token_hash r, vt_NewEmail = string_or_empty (vr_new_email r), vt_ExpiresAt = vr_expires_at r,
     vt_UsedAt = vr_used_at r, vt_CreatedAt = vr_created_at r\<rparr>"

definition pg_VerificationStore_GetByTokenHash :: "string \<Rightarrow> (pg_world, error + VerificationToken) state" where
  "pg_VerificationStore_GetByTokenHash tokenHash = do {
     r \<leftarrow> select_row (\<lambda>r. vr_token_hash r = tokenHash) pg_verifs;
     State_Monad.return (row_or_not_found scan_verification r)
   }"

definition pg_VerificationStore_MarkUsed :: "string \<Rightarrow> (pg_world, error option) state" where
  "pg_VerificationStore_MarkUsed i = do {
     result \<leftarrow> pg_stmt (use_verification i);
     State_Monad.return (checkRowsAffected result)
   }"

definition pg_VerificationStore :: "pg_world VerificationStore" where
  "pg_VerificationStore =
     \<lparr>vs_Create = pg_VerificationStore_Create, vs_GetByTokenHash = pg_VerificationStore_GetByTokenHash,
      vs_MarkUsed = pg_VerificationStore_MarkUsed\<rparr>"

end
