(* ===== verification/Postgres_Users.thy ===== *)
theory Postgres_Users
  imports Postgres_Store
begin

text \<open>
  The constraints of the schema as an invariant of the database, what the database holds in terms of
  the contracts of \<open>Store\<close>, the rule for a method that sends one statement, and the user store.
\<close>

section \<open>The constraints of the schema, and the view\<close>

definition pg_inv :: "(Time \<Rightarrow> Time) \<Rightarrow> PostgresDB \<Rightarrow> bool" where
  "pg_inv rnd d \<longleftrightarrow>
     distinct (map u_ID (pg_users d)) \<and> distinct (map u_Email (pg_users d)) \<and>
     distinct (map s_ID (pg_sessions d)) \<and> distinct (map s_TokenHash (pg_sessions d)) \<and>
     distinct (map vr_id (pg_verifs d)) \<and> distinct (map vr_token_hash (pg_verifs d)) \<and>
     s_UserID ` set (pg_sessions d) \<subseteq> u_ID ` set (pg_users d) \<and>
     vr_user_id ` set (pg_verifs d) \<subseteq> u_ID ` set (pg_users d) \<and>
     (\<forall>r \<in> set (pg_events d). \<forall>u. au_user_id r = Some u \<longrightarrow> u \<in> u_ID ` set (pg_users d) \<and> u \<noteq> []) \<and>
     (\<forall>u \<in> set (pg_users d). 0 \<le> u_FailedAttempts u \<and> u_FailedAttempts u < 2 ^ 31) \<and>
     sv_round (pg_server d) = rnd"

definition pg_view :: "PostgresDB \<Rightarrow> dbview" where
  "pg_view d = \<lparr>v_users = keyed u_ID (pg_users d), v_sessions = keyed s_ID (pg_sessions d),
     v_verifs = map_option scan_verification \<circ> keyed vr_id (pg_verifs d), v_events = map scan_event (pg_events d)\<rparr>"

definition pg_faults :: "error set" where
  "pg_faults = range ExternalError"

section \<open>The stores keep their contracts\<close>

lemma pg_view_simps [simp]:
  "v_users (pg_view d) = keyed u_ID (pg_users d)" "v_sessions (pg_view d) = keyed s_ID (pg_sessions d)"
  "v_verifs (pg_view d) = map_option scan_verification \<circ> keyed vr_id (pg_verifs d)"
  "v_events (pg_view d) = map scan_event (pg_events d)"
  by (simp_all add: pg_view_def)

lemma pg_stmts_irrelevant [simp]:
  "pg_view (d\<lparr>pg_stmts := n\<rparr>) = pg_view d" "pg_inv rnd (d\<lparr>pg_stmts := n\<rparr>) = pg_inv rnd d"
  by (simp_all add: pg_view_def pg_inv_def)

lemma pg_view_updates:
  "pg_view (d\<lparr>pg_users := us\<rparr>) = (pg_view d)\<lparr>v_users := keyed u_ID us\<rparr>"
  "pg_view (d\<lparr>pg_sessions := ss\<rparr>) = (pg_view d)\<lparr>v_sessions := keyed s_ID ss\<rparr>"
  "pg_view (d\<lparr>pg_verifs := vs\<rparr>) = (pg_view d)\<lparr>v_verifs := map_option scan_verification \<circ> keyed vr_id vs\<rparr>"
  "pg_view (d\<lparr>pg_events := es\<rparr>) = (pg_view d)\<lparr>v_events := map scan_event es\<rparr>"
  by (simp_all add: pg_view_def)

lemma pg_invD:
  assumes "pg_inv rnd d"
  shows "distinct (map u_ID (pg_users d))" "distinct (map u_Email (pg_users d))" "distinct (map s_ID (pg_sessions d))"
    "distinct (map s_TokenHash (pg_sessions d))" "distinct (map vr_id (pg_verifs d))"
    "distinct (map vr_token_hash (pg_verifs d))" "s_UserID ` set (pg_sessions d) \<subseteq> u_ID ` set (pg_users d)"
    "vr_user_id ` set (pg_verifs d) \<subseteq> u_ID ` set (pg_users d)"
    "r \<in> set (pg_events d) \<Longrightarrow> au_user_id r = Some i \<Longrightarrow> i \<in> u_ID ` set (pg_users d) \<and> i \<noteq> []"
    "u \<in> set (pg_users d) \<Longrightarrow> 0 \<le> u_FailedAttempts u \<and> u_FailedAttempts u < 2 ^ 31"
    "sv_round (pg_server d) = rnd"
  using assms by (auto simp: pg_inv_def)

lemma pg_faultsI [simp]: "ExternalError msg \<in> pg_faults" "unique_violation \<in> pg_faults"
  "foreign_key_violation \<in> pg_faults" "out_of_range \<in> pg_faults" "negative_limit \<in> pg_faults"
  by (auto simp: pg_faults_def unique_violation_def foreign_key_violation_def out_of_range_def negative_limit_def)

lemma wp_pg_stmt:
  assumes "pg_inv rnd (w_db w)" and "\<And>n d e. stmt n d = Inl e \<Longrightarrow> e \<in> pg_faults"
    and "\<And>e d. e \<in> pg_faults \<Longrightarrow> pg_inv rnd d \<Longrightarrow> pg_view d = pg_view (w_db w) \<Longrightarrow> Q (Inl e) (w\<lparr>w_db := d\<rparr>)"
    and "\<And>n r d d'. stmt n (w_db w) = Inr (r, d) \<Longrightarrow> d' = d\<lparr>pg_stmts := n + 1\<rparr> \<Longrightarrow> Q (Inr r) (w\<lparr>w_db := d'\<rparr>)"
  shows "wp (pg_stmt stmt) Q w"
proof (rule wpI)
  let ?d = "w_db w" and ?n = "pg_stmts (w_db w)"
  fix r w' assume run: "run_state (pg_stmt stmt) w = (r, w')"
  show "Q r w'"
  proof (cases "sv_fault (pg_server ?d) ?n")
    case (Some msg)
    with run assms(3) [of "ExternalError msg" "?d\<lparr>pg_stmts := Suc ?n\<rparr>"] assms(1) show ?thesis
      by (auto simp: pg_stmt_def Let_def)
  next
    case None
    show ?thesis
    proof (cases "stmt ?n ?d")
      case (Inl e)
      with None run assms(3) [of e "?d\<lparr>pg_stmts := Suc ?n\<rparr>"] assms(2) [OF Inl] assms(1) show ?thesis
        by (auto simp: pg_stmt_def Let_def)
    next
      case (Inr x)
      with None run assms(4) [of ?n "fst x" "snd x"] show ?thesis
        by (auto simp: pg_stmt_def Let_def split: prod.splits)
    qed
  qed
qed

lemma pg_op:
  assumes "\<And>n d e. stmt n d = Inl e \<Longrightarrow> e \<in> pg_faults"
    and "\<And>v e. e \<in> pg_faults \<Longrightarrow> S v (f (Inl e)) v"
    and "\<And>n d x d'. pg_inv rnd d \<Longrightarrow> stmt n d = Inr (x, d') \<Longrightarrow> pg_inv rnd d' \<and> S (pg_view d) (f (Inr x)) (pg_view d')"
  shows "db_op (pg_inv rnd) pg_view (pg_stmt stmt \<bind> (\<lambda>r. State_Monad.return (f r))) S"
proof (rule db_opI)
  fix w r w' assume inv: "pg_inv rnd (w_db w)" and run: "run_state (pg_stmt stmt \<bind> (\<lambda>r. State_Monad.return (f r))) w = (r, w')"
  have "wp (pg_stmt stmt \<bind> (\<lambda>r. State_Monad.return (f r)))
      (\<lambda>r w'. pg_inv rnd (w_db w') \<and> db_only w w' \<and> S (pg_view (w_db w)) r (pg_view (w_db w'))) w"
    by (intro wp_bind wp_pg_stmt [OF inv assms(1)] wp_return) (use assms(2,3) inv in \<open>auto simp: db_only_def\<close>)
  from wpD [OF this run] show "pg_inv rnd (w_db w') \<and> db_only w w' \<and> S (pg_view (w_db w)) r (pg_view (w_db w'))" .
qed

lemma stmt_faults:
  "insert_user i email hash n d = Inl e \<Longrightarrow> e \<in> pg_faults"
  "update_users i f n d = Inl e \<Longrightarrow> e \<in> pg_faults"
  "increment_attempts i n d = Inl e \<Longrightarrow> e \<in> pg_faults"
  "delete_user i n d = Inl e \<Longrightarrow> e \<in> pg_faults"
  "insert_session s n d = Inl e \<Longrightarrow> e \<in> pg_faults"
  "revoke_sessions P n d = Inl e \<Longrightarrow> e \<in> pg_faults"
  "insert_audit_event ty uid ip m n d = Inl e \<Longrightarrow> e \<in> pg_faults"
  "insert_verification i owner p h ne x n d = Inl e \<Longrightarrow> e \<in> pg_faults"
  "use_verification i n d = Inl e \<Longrightarrow> e \<in> pg_faults"
  by (auto simp: insert_user_def update_users_def increment_attempts_def delete_user_def insert_session_def
      revoke_sessions_def insert_audit_event_def insert_verification_def use_verification_def Let_def
      split: if_splits option.splits)

subsection \<open>Users\<close>

lemma update_users_spec:
  assumes inv: "pg_inv rnd d" and run: "update_users i f n d = Inr (k, d')"
    and f: "\<And>u. u_ID (f n d u) = u_ID u" "\<And>u. 0 \<le> u_FailedAttempts u \<and> u_FailedAttempts u < 2 ^ 31 \<Longrightarrow>
      0 \<le> u_FailedAttempts (f n d u) \<and> u_FailedAttempts (f n d u) < 2 ^ 31" "\<And>u. P u (f n d u)"
  shows "pg_inv rnd d' \<and> user_update_spec pg_faults i P (pg_view d) (checkRowsAffected (Inr k)) (pg_view d')"
proof -
  let ?rows = "update_where (\<lambda>u. u_ID u = i) (f n d) (pg_users d)"
  from run have d': "d' = d\<lparr>pg_users := ?rows\<rparr>" and k: "k = affected (\<lambda>u. u_ID u = i) (pg_users d)"
    and emails: "distinct (map u_Email ?rows)"
    by (auto simp: update_users_def Let_def split: if_splits)
  have ids: "map u_ID ?rows = map u_ID (pg_users d)" by (rule update_where_key) (rule f(1))
  then have "u_ID ` set ?rows = u_ID ` set (pg_users d)" by (metis set_map)
  moreover have "0 \<le> u_FailedAttempts u \<and> u_FailedAttempts u < 2 ^ 31" if "u \<in> set ?rows" for u
    using that f(2) pg_invD(10) [OF inv] by (auto simp: set_update_where)
  ultimately have inv': "pg_inv rnd d'" using inv ids emails by (simp add: pg_inv_def d')
  have upd: "keyed u_ID ?rows = (case keyed u_ID (pg_users d) i of None \<Rightarrow> keyed u_ID (pg_users d)
      | Some u \<Rightarrow> (keyed u_ID (pg_users d))(i \<mapsto> f n d u))"
    using keyed_update_one [where Q = "\<lambda>_. True" and k = u_ID and f = "f n d", OF f(1)] by (simp split: option.splits)
  show ?thesis
  proof (cases "keyed u_ID (pg_users d) i")
    case None
    then have "k = 0" by (auto simp: k affected_zero keyed_None)
    with inv' None upd show ?thesis
      by (simp add: user_update_spec_def checkRowsAffected_def d' pg_view_updates)
  next
    case (Some u)
    then have "k \<noteq> 0" by (auto simp: k affected_zero dest: keyed_key)
    with inv' Some upd f(3) show ?thesis
      by (auto simp: user_update_spec_def checkRowsAffected_def d' pg_view_updates)
  qed
qed

lemma pg_update_op:
  assumes "\<And>n d u. u_ID (f n d u) = u_ID u" and "\<And>n d u. 0 \<le> u_FailedAttempts u \<and> u_FailedAttempts u < 2 ^ 31 \<Longrightarrow>
      0 \<le> u_FailedAttempts (f n d u) \<and> u_FailedAttempts (f n d u) < 2 ^ 31"
    and "\<And>n d u. pg_inv rnd d \<Longrightarrow> P u (f n d u)"
  shows "db_op (pg_inv rnd) pg_view (pg_stmt (update_users i f) \<bind> (\<lambda>r. State_Monad.return (checkRowsAffected r)))
    (user_update_spec pg_faults i P)"
proof (rule pg_op)
  show "e \<in> pg_faults" if "update_users i f n d = Inl e" for n d e using that by (rule stmt_faults)
  show "user_update_spec pg_faults i P v (checkRowsAffected (Inl e)) v" if "e \<in> pg_faults" for v e
    using that by (simp add: user_update_spec_def checkRowsAffected_def fault_option_def)
  show "pg_inv rnd d' \<and> user_update_spec pg_faults i P (pg_view d) (checkRowsAffected (Inr x)) (pg_view d')"
    if "pg_inv rnd d" "update_users i f n d = Inr (x, d')" for n d x d'
    using that by (rule update_users_spec) (use assms that(1) in auto)
qed

lemma insert_user_spec:
  assumes inv: "pg_inv rnd d" and run: "insert_user (u_ID u) (u_Email u) (u_PasswordHash u) n d = Inr (k, d')"
    and u: "u_FailedAttempts u = 0" "u_LockedUntil u = None"
  shows "pg_inv rnd d' \<and> user_Create_spec pg_faults u (pg_view d) (exec_error (Inr k)) (pg_view d')"
proof -
  let ?t = "sv_now (pg_server d) n"
  have row: "\<lparr>u_ID = u_ID u, u_Email = u_Email u, u_PasswordHash = u_PasswordHash u, u_FailedAttempts = 0,
      u_LockedUntil = None, u_CreatedAt = ?t, u_UpdatedAt = ?t\<rparr> = u\<lparr>u_CreatedAt := ?t, u_UpdatedAt := ?t\<rparr>"
    using u by (cases u) simp
  from run have new: "u_ID u \<notin> u_ID ` set (pg_users d)" "u_Email u \<notin> u_Email ` set (pg_users d)"
    and d': "d' = d\<lparr>pg_users := pg_users d @ [u\<lparr>u_CreatedAt := ?t, u_UpdatedAt := ?t\<rparr>]\<rparr>"
    by (auto simp: insert_user_def row split: if_splits)
  have "pg_inv rnd d'" using inv new u unfolding d' pg_inv_def by auto
  moreover have "keyed u_ID (pg_users d @ [u\<lparr>u_CreatedAt := ?t, u_UpdatedAt := ?t\<rparr>]) =
      (keyed u_ID (pg_users d))(u_ID u \<mapsto> u\<lparr>u_CreatedAt := ?t, u_UpdatedAt := ?t\<rparr>)"
    using keyed_append [where k = u_ID and r = "u\<lparr>u_CreatedAt := ?t, u_UpdatedAt := ?t\<rparr>"] new(1) by simp
  ultimately show ?thesis by (auto simp: user_Create_spec_def exec_error_def d' pg_view_updates)
qed

lemma delete_user_spec:
  assumes inv: "pg_inv rnd d" and run: "delete_user i n d = Inr (k, d')"
  shows "pg_inv rnd d' \<and> user_Delete_spec pg_faults i (pg_view d) (checkRowsAffected (Inr k)) (pg_view d')"
proof (cases "i \<in> u_ID ` set (pg_users d)")
  case True
  let ?es = "update_where (\<lambda>r. au_user_id r = Some i) (\<lambda>r. r\<lparr>au_user_id := None\<rparr>) (pg_events d)"
  from run True have k: "k \<noteq> 0" and d': "d' = d\<lparr>pg_users := filter (\<lambda>u. u_ID u \<noteq> i) (pg_users d),
      pg_sessions := filter (\<lambda>s. s_UserID s \<noteq> i) (pg_sessions d),
      pg_verifs := filter (\<lambda>r. vr_user_id r \<noteq> i) (pg_verifs d), pg_events := ?es\<rparr>"
    by (auto simp: delete_user_def affected_zero)
  note keys = pg_invD(1,3,5) [OF inv]
  have ids: "u_ID ` {u \<in> set (pg_users d). u_ID u \<noteq> i} = u_ID ` set (pg_users d) - {i}" by auto
  have "pg_inv rnd d'"
    using inv unfolding d' pg_inv_def by (auto simp: ids distinct_map_filter set_update_where split: if_splits)
  moreover have "map (\<lambda>e. e\<lparr>ev_UserID := []\<rparr>) (map scan_event ?es) = map (\<lambda>e. e\<lparr>ev_UserID := []\<rparr>) (map scan_event (pg_events d))"
    by (auto simp: update_where_def scan_event_def)
  moreover have "keyed u_ID (filter (\<lambda>u. u_ID u \<noteq> i) (pg_users d)) = (keyed u_ID (pg_users d))(i := None)"
    by (intro ext) (auto simp: keyed_filter [OF keys(1)] split: option.splits dest: keyed_key)
  moreover have "t = scan_verification r \<Longrightarrow> vt_UserID t = vr_user_id r" for t r by (simp add: scan_verification_def)
  ultimately show ?thesis
    using True k keyed_filter_le [OF keys(2)] map_option_le [OF keyed_filter_le [OF keys(3)]]
      keyed_filter_keeps [OF keys(2)] keyed_filter_keeps [OF keys(3)]
    by (simp add: user_Delete_spec_def checkRowsAffected_def d' pg_view_def keyed_None) (fastforce simp: scan_verification_def)
next
  case False
  then have "filter (\<lambda>u. u_ID u = i) (pg_users d) = []" "filter (\<lambda>u. u_ID u \<noteq> i) (pg_users d) = pg_users d"
    by (auto simp: filter_empty_conv filter_id_conv)
  with run False have "k = 0" "d' = d" by (auto simp: delete_user_def affected_def update_where_def)
  with False inv show ?thesis by (simp add: user_Delete_spec_def checkRowsAffected_def keyed_None)
qed

lemma increment_attempts_spec:
  assumes inv: "pg_inv rnd d" and run: "increment_attempts i n d = Inr (k, d')"
  shows "pg_inv rnd d' \<and> user_Increment_spec pg_faults i (pg_view d) (row_or_not_found id (Inr k)) (pg_view d')"
proof (cases "find_row (\<lambda>u. u_ID u = i) pg_users n d")
  case None
  with run inv show ?thesis
    by (auto simp: increment_attempts_def find_row_None row_or_not_found_def user_Increment_spec_def keyed_None)
next
  case (Some u)
  let ?f = "\<lambda>u. u\<lparr>u_FailedAttempts := u_FailedAttempts u + 1\<rparr>"
  let ?rows = "update_where (\<lambda>u. u_ID u = i) ?f (pg_users d)"
  from Some run have k: "k = Some (u_FailedAttempts u + 1)" "u_FailedAttempts u + 1 < 2 ^ 31" and d': "d' = d\<lparr>pg_users := ?rows\<rparr>"
    by (auto simp: increment_attempts_def split: if_splits)
  from find_row_Some [OF Some] have u: "keyed u_ID (pg_users d) i = Some u" "u \<in> set (pg_users d)" "u_ID u = i"
    using keyed_Some [OF pg_invD(1) [OF inv]] by auto
  have one: "u' = u" if "u' \<in> set (pg_users d)" "u_ID u' = i" for u'
    using that u pg_invD(1) [OF inv] by (metis distinct_map inj_on_eq_iff)
  have ids: "map u_ID ?rows = map u_ID (pg_users d)" "map u_Email ?rows = map u_Email (pg_users d)"
    by (simp_all add: update_where_def)
  then have "u_ID ` set ?rows = u_ID ` set (pg_users d)" by (metis set_map)
  moreover have "0 \<le> u_FailedAttempts u' \<and> u_FailedAttempts u' < 2 ^ 31" if "u' \<in> set ?rows" for u'
    using that one pg_invD(10) [OF inv] k(2) by (auto simp: set_update_where)
  ultimately have "pg_inv rnd d'" using inv ids by (simp add: pg_inv_def d')
  moreover have "keyed u_ID ?rows = (keyed u_ID (pg_users d))(i \<mapsto> ?f u)"
    using keyed_update_one [where Q = "\<lambda>_. True" and k = u_ID and f = ?f and rows = "pg_users d" and i = i] u(1) by simp
  moreover have "wrap64 (u_FailedAttempts u + 1) = u_FailedAttempts u + 1"
    using pg_invD(10) [OF inv u(2)] by (intro wrap64_id) simp_all
  ultimately show ?thesis
    using u(1) k by (simp add: row_or_not_found_def user_Increment_spec_def d' pg_view_updates)
qed

interpretation pg_us: user_store "pg_inv rnd" pg_view pg_faults pg_UserStore rnd
proof unfold_locales
  fix u :: User and i email newEmail newHash :: string and until :: Time
  show "db_op (pg_inv rnd) pg_view (us_Create pg_UserStore u) (user_Create_spec pg_faults u)"
    if "u_FailedAttempts u = 0" "u_LockedUntil u = None"
    unfolding pg_UserStore_def UserStore.select_convs pg_UserStore_Create_def
  proof (rule pg_op)
    show "user_Create_spec pg_faults u v (exec_error (Inl e)) v" if "e \<in> pg_faults" for v e
      using that by (simp add: user_Create_spec_def exec_error_def fault_option_def)
  qed (erule stmt_faults, erule (1) insert_user_spec [OF _ _ that])
  show "db_op (pg_inv rnd) pg_view (us_GetByEmail pg_UserStore email) (user_GetByEmail_spec pg_faults email)"
    unfolding pg_UserStore_def UserStore.select_convs pg_UserStore_GetByEmail_def select_row_def
    by (rule pg_op) (auto simp: user_GetByEmail_spec_def row_or_not_found_def find_row_None keyed_Some [OF pg_invD(1)]
        split: option.splits dest: find_row_Some)
  show "db_op (pg_inv rnd) pg_view (us_GetByID pg_UserStore i) (user_GetByID_spec pg_faults i)"
    unfolding pg_UserStore_def UserStore.select_convs pg_UserStore_GetByID_def select_row_def
    by (rule pg_op) (auto simp: user_GetByID_spec_def row_or_not_found_def find_row_None keyed_Some [OF pg_invD(1)] keyed_None
        split: option.splits dest: find_row_Some)
  show "db_op (pg_inv rnd) pg_view (us_UpdateEmail pg_UserStore i newEmail)
      (user_update_spec pg_faults i (\<lambda>u u'. \<exists>t. u' = u\<lparr>u_Email := newEmail, u_UpdatedAt := t\<rparr>))"
    unfolding pg_UserStore_def UserStore.select_convs pg_UserStore_UpdateEmail_def by (rule pg_update_op) auto
  show "db_op (pg_inv rnd) pg_view (us_UpdatePasswordHash pg_UserStore i newHash)
      (user_update_spec pg_faults i (\<lambda>u u'. \<exists>t. u' = u\<lparr>u_PasswordHash := newHash, u_UpdatedAt := t\<rparr>))"
    unfolding pg_UserStore_def UserStore.select_convs pg_UserStore_UpdatePasswordHash_def by (rule pg_update_op) auto
  show "db_op (pg_inv rnd) pg_view (us_Delete pg_UserStore i) (user_Delete_spec pg_faults i)"
    unfolding pg_UserStore_def UserStore.select_convs pg_UserStore_Delete_def
  proof (rule pg_op)
    show "user_Delete_spec pg_faults i v (checkRowsAffected (Inl e)) v" if "e \<in> pg_faults" for v e
      using that by (simp add: user_Delete_spec_def checkRowsAffected_def fault_option_def)
  qed (erule stmt_faults, erule (1) delete_user_spec)
  show "db_op (pg_inv rnd) pg_view (us_IncrementFailedAttempts pg_UserStore i) (user_Increment_spec pg_faults i)"
    unfolding pg_UserStore_def UserStore.select_convs pg_UserStore_IncrementFailedAttempts_def
  proof (rule pg_op)
    show "user_Increment_spec pg_faults i v (row_or_not_found id (Inl e)) v" if "e \<in> pg_faults" for v e
      using that by (simp add: user_Increment_spec_def row_or_not_found_def)
  qed (erule stmt_faults, erule (1) increment_attempts_spec)
  show "db_op (pg_inv rnd) pg_view (us_ResetFailedAttempts pg_UserStore i)
      (user_update_spec pg_faults i (\<lambda>u u'. u' = u\<lparr>u_FailedAttempts := 0, u_LockedUntil := None\<rparr>))"
    unfolding pg_UserStore_def UserStore.select_convs pg_UserStore_ResetFailedAttempts_def by (rule pg_update_op) auto
  show "db_op (pg_inv rnd) pg_view (us_LockAccount pg_UserStore i until)
      (user_update_spec pg_faults i (\<lambda>u u'. u' = u\<lparr>u_LockedUntil := Some (rnd until)\<rparr>))"
    unfolding pg_UserStore_def UserStore.select_convs pg_UserStore_LockAccount_def
    by (rule pg_update_op) (auto simp: pg_invD(11))
qed

end
