(* ===== verification/Postgres_Contracts.thy ===== *)
theory Postgres_Contracts
  imports Postgres_Users
begin

text \<open>
  The session, audit and verification stores over Postgres keep the contracts of \<open>Store\<close>: every error of
  the server is a fault that leaves the data as they were, a rotation in particular.
\<close>

lemma db_op_wpI:
  "(\<And>w. invar (w_db w) \<Longrightarrow> wp m (\<lambda>r w'. invar (w_db w') \<and> db_only w w' \<and> S (view (w_db w)) r (view (w_db w'))) w) \<Longrightarrow>
   db_op invar view m S"
  by (rule db_opI) (rule wpD)

lemma db_only_w_db [simp]: "db_only w (w\<lparr>w_db := d\<rparr>)"
  by (simp add: db_only_def)

section \<open>Sessions\<close>

lemma insert_session_spec:
  assumes inv: "pg_inv rnd d" and run: "insert_session s n d = Inr (k, d')" and s: "s_RevokedAt s = None"
  shows "pg_inv rnd d' \<and> (\<exists>t. pg_view d' = (pg_view d)\<lparr>v_sessions := (v_sessions (pg_view d))(s_ID s \<mapsto> s\<lparr>s_CreatedAt := t\<rparr>)\<rparr>)"
proof -
  let ?t = "sv_now (pg_server d) n"
  have row: "\<lparr>s_ID = s_ID s, s_FamilyID = s_FamilyID s, s_UserID = s_UserID s, s_TokenHash = s_TokenHash s,
      s_IP = s_IP s, s_UserAgent = s_UserAgent s, s_CreatedAt = ?t, s_RevokedAt = None\<rparr> = s\<lparr>s_CreatedAt := ?t\<rparr>"
    using s by (cases s) simp
  from run have new: "s_ID s \<notin> s_ID ` set (pg_sessions d)" "s_TokenHash s \<notin> s_TokenHash ` set (pg_sessions d)"
    "s_UserID s \<in> u_ID ` set (pg_users d)" and d': "d' = d\<lparr>pg_sessions := pg_sessions d @ [s\<lparr>s_CreatedAt := ?t\<rparr>]\<rparr>"
    by (auto simp: insert_session_def row split: if_splits)
  have "pg_inv rnd d'" using inv new unfolding d' pg_inv_def by auto
  moreover have "keyed s_ID (pg_sessions d @ [s\<lparr>s_CreatedAt := ?t\<rparr>]) = (keyed s_ID (pg_sessions d))(s_ID s \<mapsto> s\<lparr>s_CreatedAt := ?t\<rparr>)"
    using keyed_append [where k = s_ID and r = "s\<lparr>s_CreatedAt := ?t\<rparr>"] new(1) by simp
  ultimately show ?thesis by (auto simp: d' pg_view_updates)
qed

lemma revoke_sessions_inv:
  assumes "pg_inv rnd d" and "revoke_sessions P n d = Inr (k, d')"
  shows "pg_inv rnd d'"
proof -
  let ?rows = "update_where (\<lambda>s. P s \<and> s_RevokedAt s = None) (\<lambda>s. s\<lparr>s_RevokedAt := Some (sv_now (pg_server d) n)\<rparr>) (pg_sessions d)"
  have keys: "map s_ID ?rows = map s_ID (pg_sessions d)" "map s_TokenHash ?rows = map s_TokenHash (pg_sessions d)"
    "map s_UserID ?rows = map s_UserID (pg_sessions d)"
    by (simp_all add: update_where_def)
  from arg_cong [OF keys(3), of set] have "s_UserID ` set ?rows = s_UserID ` set (pg_sessions d)" by simp
  moreover have "d' = d\<lparr>pg_sessions := ?rows\<rparr>" using assms(2) by (simp add: revoke_sessions_def)
  ultimately show ?thesis using assms(1) keys by (simp add: pg_inv_def)
qed

lemma revoke_sessions_where:
  assumes "revoke_sessions P n d = Inr (k, d')"
  shows "\<exists>t. pg_view d' = (pg_view d)\<lparr>v_sessions := revoke_where P t (v_sessions (pg_view d))\<rparr>"
proof -
  let ?t = "sv_now (pg_server d) n"
  have "keyed s_ID (update_where (\<lambda>s. P s \<and> s_RevokedAt s = None) (\<lambda>s. s\<lparr>s_RevokedAt := Some ?t\<rparr>) (pg_sessions d)) =
      revoke_where P ?t (keyed s_ID (pg_sessions d))"
    unfolding revoke_where_def by (intro ext keyed_update) simp
  with assms show ?thesis by (auto simp: revoke_sessions_def pg_view_updates)
qed

text \<open>Revoking one session by its identifier: either it is active, or no row is affected.\<close>

lemma revoke_session_cases:
  assumes "pg_inv rnd d" and "revoke_sessions (\<lambda>s. s_ID s = i) n d = Inr (k, d')"
  shows "k \<noteq> 0 \<and> (\<exists>s t. v_sessions (pg_view d) i = Some s \<and> s_RevokedAt s = None \<and>
      pg_view d' = (pg_view d)\<lparr>v_sessions := (v_sessions (pg_view d))(i \<mapsto> s\<lparr>s_RevokedAt := Some t\<rparr>)\<rparr>) \<or>
    k = 0 \<and> pg_view d' = pg_view d \<and> (\<forall>s. v_sessions (pg_view d) i = Some s \<longrightarrow> s_RevokedAt s \<noteq> None)"
proof -
  let ?t = "sv_now (pg_server d) n"
  let ?rows = "update_where (\<lambda>s. s_ID s = i \<and> s_RevokedAt s = None) (\<lambda>s. s\<lparr>s_RevokedAt := Some ?t\<rparr>) (pg_sessions d)"
  from assms(2) have k: "k = affected (\<lambda>s. s_ID s = i \<and> s_RevokedAt s = None) (pg_sessions d)" and d': "d' = d\<lparr>pg_sessions := ?rows\<rparr>"
    by (auto simp: revoke_sessions_def)
  have upd: "keyed s_ID ?rows = (case keyed s_ID (pg_sessions d) i of None \<Rightarrow> keyed s_ID (pg_sessions d)
      | Some s \<Rightarrow> if s_RevokedAt s = None then (keyed s_ID (pg_sessions d))(i \<mapsto> s\<lparr>s_RevokedAt := Some ?t\<rparr>)
        else keyed s_ID (pg_sessions d))"
    by (rule keyed_update_one) simp
  have k0: "k = 0 \<longleftrightarrow> (\<forall>s. keyed s_ID (pg_sessions d) i = Some s \<longrightarrow> s_RevokedAt s \<noteq> None)"
    unfolding k affected_one keyed_Some [OF pg_invD(3) [OF assms(1)]] by auto
  show ?thesis
  proof (cases "k = 0")
    case True
    with k0 upd have "keyed s_ID ?rows = keyed s_ID (pg_sessions d)" by (auto split: option.splits)
    with True k0 show ?thesis by (simp add: d' pg_view_updates)
  next
    case False
    with k0 obtain s where s: "keyed s_ID (pg_sessions d) i = Some s" "s_RevokedAt s = None" by auto
    with upd have "keyed s_ID ?rows = (keyed s_ID (pg_sessions d))(i \<mapsto> s\<lparr>s_RevokedAt := Some ?t\<rparr>)" by simp
    with False s show ?thesis by (auto simp: d' pg_view_updates)
  qed
qed

lemma pg_revoke_op:
  "db_op (pg_inv rnd) pg_view (pg_stmt (revoke_sessions P) \<bind> (\<lambda>r. State_Monad.return (exec_error r)))
     (session_RevokeWhere_spec pg_faults P)"
proof (rule pg_op [OF stmt_faults(6)])
  show "pg_inv rnd d' \<and> session_RevokeWhere_spec pg_faults P (pg_view d) (exec_error (Inr k)) (pg_view d')"
    if "pg_inv rnd d" "revoke_sessions P n d = Inr (k, d')" for n d k d'
    using revoke_sessions_inv [OF that] revoke_sessions_where [OF that(2)]
    by (auto simp: session_RevokeWhere_spec_def exec_error_def)
qed (auto simp: session_RevokeWhere_spec_def exec_error_def fault_option_def)

text \<open>A statement that only asks: the loop over the rows of a result ends with one, and so does a commit.\<close>

lemma scan_rows_op:
  assumes "pg_inv rnd (w_db w)"
    and "\<And>e d. e \<in> pg_faults \<Longrightarrow> pg_inv rnd d \<Longrightarrow> pg_view d = pg_view (w_db w) \<Longrightarrow> Q (Inl e) (w\<lparr>w_db := d\<rparr>)"
    and "\<And>d. pg_inv rnd d \<Longrightarrow> pg_view d = pg_view (w_db w) \<Longrightarrow> Q (Inr (map f rows)) (w\<lparr>w_db := d\<rparr>)"
  shows "wp (scan_rows f rows) Q w"
  unfolding scan_rows_def by (intro wp_bind wp_pg_stmt [OF assms(1)] wp_return) (use assms in auto)

lemma pg_list_op:
  assumes "\<And>n d e. stmt n d = Inl e \<Longrightarrow> e \<in> pg_faults" and "\<And>n d rows d'. stmt n d = Inr (rows, d') \<Longrightarrow> d' = d"
    and "\<And>v e. e \<in> pg_faults \<Longrightarrow> S v (Inl e) v"
    and "\<And>n d rows. pg_inv rnd d \<Longrightarrow> stmt n d = Inr (rows, d) \<Longrightarrow> S (pg_view d) (Inr (map f rows)) (pg_view d)"
  shows "db_op (pg_inv rnd) pg_view (pg_stmt stmt \<bind> (\<lambda>rows. case rows of
      Inl err \<Rightarrow> State_Monad.return (Inl err) | Inr rows \<Rightarrow> scan_rows f rows)) S"
proof (rule db_op_wpI)
  fix w :: pg_world assume inv: "pg_inv rnd (w_db w)"
  show "wp (pg_stmt stmt \<bind> (\<lambda>rows. case rows of Inl err \<Rightarrow> State_Monad.return (Inl err) | Inr rows \<Rightarrow> scan_rows f rows))
      (\<lambda>r w'. pg_inv rnd (w_db w') \<and> db_only w w' \<and> S (pg_view (w_db w)) r (pg_view (w_db w'))) w"
  proof (intro wp_bind wp_pg_stmt [OF inv assms(1)])
    fix n rows d d' assume run: "stmt n (w_db w) = Inr (rows, d)" "d' = d\<lparr>pg_stmts := n + 1\<rparr>"
    with assms(2) have "d = w_db w" by blast
    with run inv assms(3,4) show "wp (case Inr rows of Inl err \<Rightarrow> State_Monad.return (Inl err) | Inr rows \<Rightarrow> scan_rows f rows)
      (\<lambda>r w'. pg_inv rnd (w_db w') \<and> db_only w w' \<and> S (pg_view (w_db w)) r (pg_view (w_db w'))) (w\<lparr>w_db := d'\<rparr>)"
      by (auto intro!: scan_rows_op simp: db_only_def)
  qed (use assms(3) in \<open>auto intro!: wp_return simp: db_only_def\<close>)
qed

text \<open>The transaction of a rotation: it commits whole, or leaves the tables as they were.\<close>

lemma RotateToken_commits:
  assumes "pg_inv rnd d" and "revoke_sessions (\<lambda>s. s_ID s = i) n d = Inr (k, d')" and "k \<noteq> 0"
    and "insert_session s n' (d'\<lparr>pg_stmts := m\<rparr>) = Inr (k', d'')" and "s_RevokedAt s = None"
  shows "pg_inv rnd d'' \<and> session_RotateToken_spec pg_faults i s (pg_view d) None (pg_view d'')"
proof -
  from revoke_session_cases [OF assms(1,2)] assms(3) obtain old t where
    old: "v_sessions (pg_view d) i = Some old" "s_RevokedAt old = None"
      "pg_view d' = (pg_view d)\<lparr>v_sessions := (v_sessions (pg_view d))(i \<mapsto> old\<lparr>s_RevokedAt := Some t\<rparr>)\<rparr>"
    by blast
  have "pg_inv rnd (d'\<lparr>pg_stmts := m\<rparr>)" using revoke_sessions_inv [OF assms(1,2)] by simp
  from insert_session_spec [OF this assms(4,5)] obtain t' where "pg_inv rnd d''"
    "pg_view d'' = (pg_view d')\<lparr>v_sessions := (v_sessions (pg_view d'))(s_ID s \<mapsto> s\<lparr>s_CreatedAt := t'\<rparr>)\<rparr>"
    by auto
  with old show ?thesis by (auto simp: session_RotateToken_spec_def)
qed

lemma wp_Rollback:
  "Q () (w\<lparr>w_db := before\<lparr>pg_stmts := pg_stmts (w_db w)\<rparr>\<rparr>) \<Longrightarrow> wp (tx_Rollback before) Q w"
  by (simp add: wp_def tx_Rollback_def)

lemma RotateToken_op:
  assumes s: "s_RevokedAt s = None"
  shows "db_op (pg_inv rnd) pg_view (pg_SessionStore_RotateToken i s) (session_RotateToken_spec pg_faults i s)"
proof (rule db_op_wpI)
  fix w :: pg_world assume inv: "pg_inv rnd (w_db w)"
  let ?Q = "\<lambda>r w'. pg_inv rnd (w_db w') \<and> db_only w w' \<and>
    session_RotateToken_spec pg_faults i s (pg_view (w_db w)) r (pg_view (w_db w'))"
  have fault: "session_RotateToken_spec pg_faults i s v (Some e) v" if "e \<in> pg_faults" for v e
    using that by (simp add: session_RotateToken_spec_def fault_option_def)
  have rolled_back: "wp (tx_Rollback (w_db w) \<bind> (\<lambda>_. State_Monad.return (Some e))) ?Q (w\<lparr>w_db := d\<rparr>)"
    if "session_RotateToken_spec pg_faults i s (pg_view (w_db w)) (Some e) (pg_view (w_db w))" for e d
    using that inv by (intro wp_bind wp_Rollback wp_return) (simp add: db_only_def)
  let ?insert = "pg_stmt (insert_session s) \<bind> (\<lambda>r. case r of
      Inl err \<Rightarrow> tx_Rollback (w_db w) \<bind> (\<lambda>_. State_Monad.return (Some err))
    | Inr _ \<Rightarrow> pg_stmt (\<lambda>n d. Inr ((), d)) \<bind> (\<lambda>c. case c of
        Inl err \<Rightarrow> tx_Rollback (w_db w) \<bind> (\<lambda>_. State_Monad.return (Some err))
      | Inr _ \<Rightarrow> State_Monad.return None))"
  let ?begun = "\<lambda>m. (w_db w)\<lparr>pg_stmts := m\<rparr>"
  have inserts: "wp ?insert ?Q (w\<lparr>w_db := d'\<lparr>pg_stmts := m'\<rparr>\<rparr>)"
    if revoked: "revoke_sessions (\<lambda>s. s_ID s = i) n (?begun m) = Inr (k, d')" and k: "k \<noteq> 0" for n k d' m m'
  proof -
    from inv have begun: "pg_inv rnd (?begun m)" by simp
    then have "pg_inv rnd (d'\<lparr>pg_stmts := m'\<rparr>)" using revoke_sessions_inv [OF _ revoked] by simp
    then show ?thesis
      by (intro wp_bind wp_pg_stmt [OF _ stmt_faults(5)])
        (use RotateToken_commits [OF begun revoked k _ s] in
          \<open>auto intro!: wp_bind [of "pg_stmt _"] wp_pg_stmt [where rnd = rnd] wp_return rolled_back fault\<close>)
  qed
  have none: "session_RotateToken_spec pg_faults i s (pg_view (w_db w)) (Some ErrNotFound) (pg_view (w_db w))"
    if "revoke_sessions (\<lambda>s. s_ID s = i) n (?begun m) = Inr (0, d')" for n m d'
    using revoke_session_cases [OF _ that, of rnd] inv by (auto simp: session_RotateToken_spec_def)
  have revokes: "wp (pg_stmt (revoke_sessions (\<lambda>s. s_ID s = i)) \<bind> (\<lambda>result. case checkRowsAffected result of
      Some err \<Rightarrow> tx_Rollback (w_db w) \<bind> (\<lambda>_. State_Monad.return (Some err)) | None \<Rightarrow> ?insert)) ?Q
      (w\<lparr>w_db := ?begun m\<rparr>)" for m
    by (intro wp_bind wp_pg_stmt [where rnd = rnd, OF _ stmt_faults(6)])
      (use inv in \<open>auto simp: checkRowsAffected_def intro: rolled_back fault none inserts\<close>)
  show "wp (pg_SessionStore_RotateToken i s) ?Q w"
    unfolding pg_SessionStore_RotateToken_def
    by (intro wp_bind wp_pg_stmt [OF inv]) (auto intro!: wp_return fault revokes)
qed

interpretation pg_ss: session_store "pg_inv rnd" pg_view pg_faults pg_SessionStore
proof unfold_locales
  fix s :: Session and i h uid f :: string
  show "db_op (pg_inv rnd) pg_view (ss_Create pg_SessionStore s) (session_Create_spec pg_faults s)" if "s_RevokedAt s = None"
    unfolding pg_SessionStore_def SessionStore.select_convs pg_SessionStore_Create_def
    by (rule pg_op [OF stmt_faults(5)], assumption)
      (use insert_session_spec [OF _ _ that] in \<open>auto simp: session_Create_spec_def exec_error_def fault_option_def\<close>)
  show "db_op (pg_inv rnd) pg_view (ss_GetByID pg_SessionStore i) (session_GetByID_spec pg_faults i)"
    unfolding pg_SessionStore_def SessionStore.select_convs pg_SessionStore_GetByID_def pg_SessionStore_scanOne_def select_row_def
    by (rule pg_op) (auto simp: session_GetByID_spec_def row_or_not_found_def find_row_None keyed_Some [OF pg_invD(3)] keyed_None
        split: option.splits dest: find_row_Some)
  show "db_op (pg_inv rnd) pg_view (ss_GetByTokenHash pg_SessionStore h) (session_GetByTokenHash_spec pg_faults h)"
    unfolding pg_SessionStore_def SessionStore.select_convs pg_SessionStore_GetByTokenHash_def pg_SessionStore_scanOne_def select_row_def
    by (rule pg_op) (auto simp: session_GetByTokenHash_spec_def row_or_not_found_def find_row_None keyed_Some [OF pg_invD(3)]
        split: option.splits dest: find_row_Some)
  show "db_op (pg_inv rnd) pg_view (ss_ListByUser pg_SessionStore uid) (session_ListByUser_spec pg_faults uid)"
    unfolding pg_SessionStore_def SessionStore.select_convs pg_SessionStore_ListByUser_def
    by (rule pg_list_op) (auto simp: session_ListByUser_spec_def keyed_Some [OF pg_invD(3)] intro: distinct_select_ordered dest: pg_invD(3))
  show "db_op (pg_inv rnd) pg_view (ss_Revoke pg_SessionStore i) (session_Revoke_spec pg_faults i)"
    unfolding pg_SessionStore_def SessionStore.select_convs pg_SessionStore_Revoke_def
  proof (rule pg_op [OF stmt_faults(6)])
    show "pg_inv rnd d' \<and> session_Revoke_spec pg_faults i (pg_view d) (checkRowsAffected (Inr k)) (pg_view d')"
      if "pg_inv rnd d" "revoke_sessions (\<lambda>s. s_ID s = i) n d = Inr (k, d')" for n d k d'
      using revoke_sessions_inv [OF that] revoke_session_cases [OF that]
      by (auto simp: session_Revoke_spec_def checkRowsAffected_def)
  qed (auto simp: session_Revoke_spec_def checkRowsAffected_def fault_option_def)
  show "db_op (pg_inv rnd) pg_view (ss_RevokeFamily pg_SessionStore f) (session_RevokeWhere_spec pg_faults (\<lambda>s. s_FamilyID s = f))"
    unfolding pg_SessionStore_def SessionStore.select_convs pg_SessionStore_RevokeFamily_def
    by (rule pg_revoke_op)
  show "db_op (pg_inv rnd) pg_view (ss_RevokeAllForUser pg_SessionStore uid) (session_RevokeWhere_spec pg_faults (\<lambda>s. s_UserID s = uid))"
    unfolding pg_SessionStore_def SessionStore.select_convs pg_SessionStore_RevokeAllForUser_def
    by (rule pg_revoke_op)
  show "db_op (pg_inv rnd) pg_view (ss_RotateToken pg_SessionStore i s) (session_RotateToken_spec pg_faults i s)" if "s_RevokedAt s = None"
    unfolding pg_SessionStore_def SessionStore.select_convs by (rule RotateToken_op [OF that])
qed

section \<open>Audit events\<close>

lemma string_or_empty_null_string [simp]: "string_or_empty (null_string x) = x"
  by (simp add: string_or_empty_def null_string_def)

lemma insert_audit_event_spec:
  assumes inv: "pg_inv rnd d" and run: "insert_audit_event (ev_Type e) (null_string (ev_UserID e)) (ev_IP e) (ev_Metadata e) n d = Inr (k, d')"
  shows "pg_inv rnd d' \<and> audit_Record_spec pg_faults e (pg_view d) (exec_error (Inr k)) (pg_view d')"
proof -
  let ?row = "\<lparr>au_id = sv_gen_random_uuid (pg_server d) n, au_type = ev_Type e, au_user_id = null_string (ev_UserID e),
    au_ip = ev_IP e, au_metadata = ev_Metadata e, au_created_at = sv_now (pg_server d) n\<rparr>"
  from run have d': "d' = d\<lparr>pg_events := pg_events d @ [?row]\<rparr>"
    and known: "\<And>u. null_string (ev_UserID e) = Some u \<Longrightarrow> u \<in> u_ID ` set (pg_users d)"
    by (auto simp: insert_audit_event_def Let_def split: if_splits)
  have "u \<noteq> []" if "null_string (ev_UserID e) = Some u" for u using that by (auto simp: null_string_def split: if_splits)
  with inv known have "pg_inv rnd d'" unfolding d' pg_inv_def by auto
  moreover have "scan_event ?row = e\<lparr>ev_ID := sv_gen_random_uuid (pg_server d) n, ev_CreatedAt := sv_now (pg_server d) n\<rparr>"
    by (cases e) (simp add: scan_event_def)
  ultimately show ?thesis by (auto simp: audit_Record_spec_def exec_error_def d' pg_view_updates)
qed

interpretation pg_as: audit_store "pg_inv rnd" pg_view pg_faults pg_AuditStore
proof unfold_locales
  fix e :: AuditEvent and uid :: string and n :: int
  show "db_op (pg_inv rnd) pg_view (as_Record pg_AuditStore e) (audit_Record_spec pg_faults e)"
    unfolding pg_AuditStore_def AuditStore.select_convs pg_AuditStore_Record_def
    by (rule pg_op [OF stmt_faults(7)], assumption)
      (use insert_audit_event_spec in \<open>auto simp: audit_Record_spec_def exec_error_def fault_option_def\<close>)
  show "db_op (pg_inv rnd) pg_view (as_ListByUser pg_AuditStore uid n) (audit_ListByUser_spec pg_faults uid n)"
    unfolding pg_AuditStore_def AuditStore.select_convs pg_AuditStore_ListByUser_def
    by (rule pg_list_op) (auto simp: audit_ListByUser_spec_def scan_event_def string_or_empty_def dest!: in_set_takeD split: if_splits)
qed

section \<open>Verification tokens\<close>

lemma insert_verification_spec:
  assumes inv: "pg_inv rnd d" and vt: "vt_UsedAt vt = None"
    and run: "insert_verification (vt_ID vt) (vt_UserID vt) (vt_Purpose vt) (vt_TokenHash vt) (null_string (vt_NewEmail vt))
      (vt_ExpiresAt vt) n d = Inr (k, d')"
  shows "pg_inv rnd d' \<and> verif_Create_spec pg_faults rnd vt (pg_view d) (exec_error (Inr k)) (pg_view d')"
proof -
  let ?row = "\<lparr>vr_id = vt_ID vt, vr_user_id = vt_UserID vt, vr_purpose = vt_Purpose vt, vr_token_hash = vt_TokenHash vt,
    vr_new_email = null_string (vt_NewEmail vt), vr_expires_at = rnd (vt_ExpiresAt vt), vr_used_at = None,
    vr_created_at = sv_now (pg_server d) n\<rparr>"
  from run have new: "vt_ID vt \<notin> vr_id ` set (pg_verifs d)" "vt_TokenHash vt \<notin> vr_token_hash ` set (pg_verifs d)"
    "vt_UserID vt \<in> u_ID ` set (pg_users d)" and d': "d' = d\<lparr>pg_verifs := pg_verifs d @ [?row]\<rparr>"
    by (auto simp: insert_verification_def pg_invD(11) [OF inv] split: if_splits)
  have "pg_inv rnd d'" using inv new unfolding d' pg_inv_def by auto
  moreover have "scan_verification ?row = vt\<lparr>vt_ExpiresAt := rnd (vt_ExpiresAt vt), vt_CreatedAt := sv_now (pg_server d) n\<rparr>"
    using vt by (cases vt) (simp add: scan_verification_def)
  moreover have "keyed vr_id (pg_verifs d @ [?row]) = (keyed vr_id (pg_verifs d))(vt_ID vt \<mapsto> ?row)"
    using keyed_append [where k = vr_id and r = ?row] new(1) by simp
  ultimately show ?thesis by (auto simp: verif_Create_spec_def exec_error_def d' pg_view_updates)
qed

lemma use_verification_spec:
  assumes inv: "pg_inv rnd d" and run: "use_verification i n d = Inr (k, d')"
  shows "pg_inv rnd d' \<and> verif_MarkUsed_spec pg_faults i (pg_view d) (checkRowsAffected (Inr k)) (pg_view d')"
proof -
  let ?t = "sv_now (pg_server d) n"
  let ?rows = "update_where (\<lambda>r. vr_id r = i \<and> vr_used_at r = None) (\<lambda>r. r\<lparr>vr_used_at := Some ?t\<rparr>) (pg_verifs d)"
  from run have k: "k = affected (\<lambda>r. vr_id r = i \<and> vr_used_at r = None) (pg_verifs d)" and d': "d' = d\<lparr>pg_verifs := ?rows\<rparr>"
    by (auto simp: use_verification_def)
  have keys: "map vr_id ?rows = map vr_id (pg_verifs d)" "map vr_token_hash ?rows = map vr_token_hash (pg_verifs d)"
    "map vr_user_id ?rows = map vr_user_id (pg_verifs d)"
    by (simp_all add: update_where_def)
  from arg_cong [OF keys(3), of set] have "vr_user_id ` set ?rows = vr_user_id ` set (pg_verifs d)" by simp
  with inv keys have inv': "pg_inv rnd d'" by (simp add: pg_inv_def d')
  have upd: "keyed vr_id ?rows = (case keyed vr_id (pg_verifs d) i of None \<Rightarrow> keyed vr_id (pg_verifs d)
      | Some r \<Rightarrow> if vr_used_at r = None then (keyed vr_id (pg_verifs d))(i \<mapsto> r\<lparr>vr_used_at := Some ?t\<rparr>)
        else keyed vr_id (pg_verifs d))"
    by (rule keyed_update_one) simp
  have k0: "k = 0 \<longleftrightarrow> (\<forall>r. keyed vr_id (pg_verifs d) i = Some r \<longrightarrow> vr_used_at r \<noteq> None)"
    unfolding k affected_one keyed_Some [OF pg_invD(5) [OF inv]] by auto
  show ?thesis
  proof (cases "k = 0")
    case True
    with k0 upd have "keyed vr_id ?rows = keyed vr_id (pg_verifs d)" by (auto split: option.splits)
    with True k0 inv' show ?thesis
      by (auto simp: verif_MarkUsed_spec_def checkRowsAffected_def d' pg_view_updates scan_verification_def)
  next
    case False
    with k0 obtain r where r: "keyed vr_id (pg_verifs d) i = Some r" "vr_used_at r = None" by auto
    have "scan_verification (r\<lparr>vr_used_at := Some ?t\<rparr>) = (scan_verification r)\<lparr>vt_UsedAt := Some ?t\<rparr>"
      by (simp add: scan_verification_def)
    with False r upd inv' show ?thesis
      by (auto simp: verif_MarkUsed_spec_def checkRowsAffected_def d' pg_view_updates)
  qed
qed

interpretation pg_vs: verification_store "pg_inv rnd" pg_view pg_faults pg_VerificationStore rnd
proof unfold_locales
  fix vt :: VerificationToken and h i :: string
  show "db_op (pg_inv rnd) pg_view (vs_Create pg_VerificationStore vt) (verif_Create_spec pg_faults rnd vt)"
    if "vt_UsedAt vt = None"
    unfolding pg_VerificationStore_def VerificationStore.select_convs pg_VerificationStore_Create_def
    by (rule pg_op [OF stmt_faults(8)], assumption)
      (use insert_verification_spec [OF _ that] in \<open>auto simp: verif_Create_spec_def exec_error_def fault_option_def\<close>)
  show "db_op (pg_inv rnd) pg_view (vs_GetByTokenHash pg_VerificationStore h) (verif_GetByTokenHash_spec pg_faults h)"
    unfolding pg_VerificationStore_def VerificationStore.select_convs pg_VerificationStore_GetByTokenHash_def select_row_def
    by (rule pg_op) (auto simp: verif_GetByTokenHash_spec_def row_or_not_found_def find_row_None keyed_Some [OF pg_invD(5)]
        scan_verification_def split: option.splits dest: find_row_Some)
  show "db_op (pg_inv rnd) pg_view (vs_MarkUsed pg_VerificationStore i) (verif_MarkUsed_spec pg_faults i)"
    unfolding pg_VerificationStore_def VerificationStore.select_convs pg_VerificationStore_MarkUsed_def
    by (rule pg_op [OF stmt_faults(9)], assumption)
      (use use_verification_spec in \<open>auto simp: verif_MarkUsed_spec_def checkRowsAffected_def fault_option_def\<close>)
qed

section \<open>The transaction of a rotation\<close>

lemma RotateToken_rolls_back:
  assumes "run_state (pg_SessionStore_RotateToken i n) w = (Some err, w')"
  shows "\<exists>k. w' = w\<lparr>w_db := (w_db w)\<lparr>pg_stmts := k\<rparr>\<rparr>"
  using assms
  by (auto simp: pg_SessionStore_RotateToken_def pg_stmt_def tx_Rollback_def Let_def split: option.splits sum.splits prod.splits)

lemma RotateToken_needs_active:
  assumes "pg_inv rnd (w_db w)" and "run_state (pg_SessionStore_RotateToken i n) w = (None, w')"
  shows "\<exists>s. v_sessions (pg_view (w_db w)) i = Some s \<and> s_RevokedAt s = None"
proof -
  let ?m = "Suc (pg_stmts (w_db w))"
  from assms(2) obtain k d where k: "revoke_sessions (\<lambda>s. s_ID s = i) ?m ((w_db w)\<lparr>pg_stmts := ?m\<rparr>) = Inr (k, d)" "k \<noteq> 0"
    by (auto simp: pg_SessionStore_RotateToken_def pg_stmt_def tx_Rollback_def Let_def checkRowsAffected_def
        split: option.splits sum.splits prod.splits if_splits)
  show ?thesis
    using revoke_session_cases [OF _ k(1), of rnd] assms(1) k(2) by auto
qed

end
