(* ===== verification/Security.thy ===== *)
theory Security
  imports World
begin

text \<open>
  \<open>security\<close>: the password hasher, the identifier source and the rate limiter as the engine sees
  them. Each is an interface (a record of methods) with a contract (a locale), and the one
  implementation the package ships is interpreted against it.
\<close>

section \<open>Interfaces\<close>

record 'w Hasher =
  hs_Hash :: "string \<Rightarrow> ('w, error + string) state"
  hs_Compare :: "string \<Rightarrow> string \<Rightarrow> ('w, error option) state"

record 'w IDGenerator =
  ig_New :: "('w, error + string) state"

record 'w RateLimiter =
  lm_Allow :: "string \<Rightarrow> ('w, error + bool) state"

section \<open>Password hashing\<close>

record BcryptHasher =
  bh_Cost :: int

definition NewBcryptHasher :: "externals \<Rightarrow> int \<Rightarrow> error + BcryptHasher" where
  "NewBcryptHasher x cost =
     (if cost < ext_bcrypt_MinCost x \<or> ext_bcrypt_MaxCost x < cost then Inl ErrInvalidBcryptCost
      else Inr \<lparr>bh_Cost = cost\<rparr>)"

definition BcryptHasher_Hash :: "BcryptHasher \<Rightarrow> string \<Rightarrow> ('db world, error + string) state" where
  "BcryptHasher_Hash b password = do {
     r \<leftarrow> draw (\<lambda>x k. ext_bcrypt_GenerateFromPassword x k password (bh_Cost b));
     case r of
       Inl err \<Rightarrow> State_Monad.return (Inl err)
     | Inr bytes \<Rightarrow> State_Monad.return (Inr bytes)
   }"

definition BcryptHasher_Compare ::
  "BcryptHasher \<Rightarrow> string \<Rightarrow> string \<Rightarrow> ('db world, error option) state" where
  "BcryptHasher_Compare b hash password = asks (\<lambda>x. ext_bcrypt_CompareHashAndPassword x hash password)"

definition BcryptHasher_Hasher :: "BcryptHasher \<Rightarrow> 'db world Hasher" where
  "BcryptHasher_Hasher b = \<lparr>hs_Hash = BcryptHasher_Hash b, hs_Compare = BcryptHasher_Compare b\<rparr>"

text \<open>
  Documented behaviour of bcrypt: a hash it generated from a password compares equal to that
  password.
\<close>

definition bcrypt_sound :: "externals \<Rightarrow> bool" where
  "bcrypt_sound x \<longleftrightarrow> (\<forall>k p c h. ext_bcrypt_GenerateFromPassword x k p c = Inr h \<longrightarrow>
     ext_bcrypt_CompareHashAndPassword x h p = None)"

definition password_matches :: "externals \<Rightarrow> string \<Rightarrow> string \<Rightarrow> bool" where
  "password_matches x hash password \<longleftrightarrow> ext_bcrypt_CompareHashAndPassword x hash password = None"

text \<open>When \<open>bcrypt.GenerateFromPassword\<close> refuses a password, at some draw.\<close>

definition bcrypt_fails :: "BcryptHasher \<Rightarrow> externals \<Rightarrow> string \<Rightarrow> error \<Rightarrow> bool" where
  "bcrypt_fails b x password e \<longleftrightarrow> (\<exists>k. ext_bcrypt_GenerateFromPassword x k password (bh_Cost b) = Inl e)"

text \<open>
  The contract: comparing only reads and is decided by \<open>matches\<close>, hashing changes nothing the
  engine keeps, under \<open>sound\<close> a fresh hash matches its password, and \<open>hash_fails\<close> covers the errors.
\<close>

locale password_hasher =
  fixes hasher :: "'db world Hasher"
    and matches :: "externals \<Rightarrow> string \<Rightarrow> string \<Rightarrow> bool" and sound :: "externals \<Rightarrow> bool"
    and hash_fails :: "externals \<Rightarrow> string \<Rightarrow> error \<Rightarrow> bool"
  assumes Compare_quiet: "run_state (hs_Compare hasher hash pw) w = (r, w') \<Longrightarrow> quiet w w'"
    and Compare_iff: "run_state (hs_Compare hasher hash pw) w = (r, w') \<Longrightarrow>
      (r = None \<longleftrightarrow> matches (w_ext w) hash pw)"
    and Hash_quiet: "run_state (hs_Hash hasher pw) w = (hr, w') \<Longrightarrow> quiet w w'"
    and Hash_matches: "run_state (hs_Hash hasher pw) w = (Inr hash, w') \<Longrightarrow> sound (w_ext w) \<Longrightarrow>
      matches (w_ext w) hash pw"
    and Hash_error: "run_state (hs_Hash hasher pw) w = (Inl e, w') \<Longrightarrow> hash_fails (w_ext w) pw e"
begin

lemma wp_Compare [wp_intros]:
  assumes "\<And>r w'. w_db w' = w_db w \<Longrightarrow> w_limiter w' = w_limiter w \<Longrightarrow> w_outbox w' = w_outbox w \<Longrightarrow>
    w_ext w' = w_ext w \<Longrightarrow> w_tick w \<le> w_tick w' \<Longrightarrow> r = None \<longleftrightarrow> matches (w_ext w) hash pw \<Longrightarrow> Q r w'"
  shows "wp (hs_Compare hasher hash pw) Q w"
  by (rule wpI, rule assms) (auto dest: Compare_iff Compare_quiet [THEN quietD(1)] Compare_quiet [THEN quietD(2)]
    Compare_quiet [THEN quietD(3)] Compare_quiet [THEN quietD(4)] Compare_quiet [THEN quietD(5)])

lemma wp_Hash [wp_intros]:
  assumes "\<And>r w'. w_db w' = w_db w \<Longrightarrow> w_limiter w' = w_limiter w \<Longrightarrow> w_outbox w' = w_outbox w \<Longrightarrow>
    w_ext w' = w_ext w \<Longrightarrow> w_tick w \<le> w_tick w' \<Longrightarrow>
    \<forall>h. r = Inr h \<longrightarrow> sound (w_ext w) \<longrightarrow> matches (w_ext w) h pw \<Longrightarrow>
    \<forall>e. r = Inl e \<longrightarrow> hash_fails (w_ext w) pw e \<Longrightarrow> Q r w'"
  shows "wp (hs_Hash hasher pw) Q w"
  by (rule wpI, rule assms) (auto dest: Hash_matches Hash_error Hash_quiet [THEN quietD(1)] Hash_quiet [THEN quietD(2)]
    Hash_quiet [THEN quietD(3)] Hash_quiet [THEN quietD(4)] Hash_quiet [THEN quietD(5)])

end

interpretation bcrypt: password_hasher "BcryptHasher_Hasher b" password_matches bcrypt_sound "bcrypt_fails b"
  by unfold_locales
    (auto simp: BcryptHasher_Hasher_def BcryptHasher_Hash_def BcryptHasher_Compare_def quiet_def
      password_matches_def bcrypt_sound_def bcrypt_fails_def run_simps split: sum.splits)

lemma NewBcryptHasher_range:
  "NewBcryptHasher x cost = Inr b \<longleftrightarrow>
     ext_bcrypt_MinCost x \<le> cost \<and> cost \<le> ext_bcrypt_MaxCost x \<and> b = \<lparr>bh_Cost = cost\<rparr>"
  by (auto simp: NewBcryptHasher_def)

section \<open>Sources of fresh strings\<close>

text \<open>
  \<open>uuid.NewV7()\<close> followed by \<open>String()\<close>; the external function gives the text of the identifier.
\<close>

definition UUIDv7Generator_New :: "('db world, error + string) state" where
  "UUIDv7Generator_New = do {
     r \<leftarrow> draw ext_uuid_NewV7;
     case r of
       Inl err \<Rightarrow> State_Monad.return (Inl err)
     | Inr s \<Rightarrow> State_Monad.return (Inr s)
   }"

definition UUIDv7Generator :: "'db world IDGenerator" where
  "UUIDv7Generator = \<lparr>ig_New = UUIDv7Generator_New\<rparr>"

text \<open>
  The contract of the two \<open>New() (string, error)\<close> interfaces (identifiers here, refresh tokens in
  \<open>Token\<close>): a value that is returned was drawn during the call, so two calls never share a draw.
\<close>

definition drawn_between :: "(externals \<Rightarrow> nat \<Rightarrow> error + string) \<Rightarrow> externals \<Rightarrow> nat \<Rightarrow> nat \<Rightarrow> string \<Rightarrow> bool"
  where
  "drawn_between drawn x k k' s \<longleftrightarrow> (\<exists>i. k \<le> i \<and> i < k' \<and> drawn x i = Inr s)"

lemma drawn_between_mono:
  "drawn_between d x k k' s \<Longrightarrow> j \<le> k \<Longrightarrow> k' \<le> j' \<Longrightarrow> drawn_between d x j j' s"
  unfolding drawn_between_def by (meson le_trans less_le_trans)

definition failed_between :: "(externals \<Rightarrow> nat \<Rightarrow> error + string) \<Rightarrow> externals \<Rightarrow> nat \<Rightarrow> nat \<Rightarrow> error \<Rightarrow> bool"
  where
  "failed_between drawn x k k' e \<longleftrightarrow> (\<exists>i. k \<le> i \<and> i < k' \<and> drawn x i = Inl e)"

lemma failed_between_mono:
  "failed_between d x k k' e \<Longrightarrow> j \<le> k \<Longrightarrow> k' \<le> j' \<Longrightarrow> failed_between d x j j' e"
  unfolding failed_between_def by (meson le_trans less_le_trans)

locale string_source =
  fixes New :: "('db world, error + string) state" and drawn :: "externals \<Rightarrow> nat \<Rightarrow> error + string"
  assumes New_quiet: "run_state New w = (r, w') \<Longrightarrow> quiet w w'"
    and New_drawn: "run_state New w = (Inr x, w') \<Longrightarrow>
      drawn_between drawn (w_ext w) (w_tick w) (w_tick w') x"
    and New_failed: "run_state New w = (Inl e, w') \<Longrightarrow>
      failed_between drawn (w_ext w) (w_tick w) (w_tick w') e"
begin

lemma wp_New [wp_intros]:
  assumes "\<And>r w'. w_db w' = w_db w \<Longrightarrow> w_limiter w' = w_limiter w \<Longrightarrow> w_outbox w' = w_outbox w \<Longrightarrow>
    w_ext w' = w_ext w \<Longrightarrow> w_tick w \<le> w_tick w' \<Longrightarrow>
    \<forall>x. r = Inr x \<longrightarrow> drawn_between drawn (w_ext w) (w_tick w) (w_tick w') x \<Longrightarrow>
    \<forall>e. r = Inl e \<longrightarrow> failed_between drawn (w_ext w) (w_tick w) (w_tick w') e \<Longrightarrow> Q r w'"
  shows "wp New Q w"
  by (rule wpI, rule assms) (auto dest: New_drawn New_failed New_quiet [THEN quietD(1)] New_quiet [THEN quietD(2)]
    New_quiet [THEN quietD(3)] New_quiet [THEN quietD(4)] New_quiet [THEN quietD(5)])

end

interpretation uuids: string_source "ig_New UUIDv7Generator" ext_uuid_NewV7
  by unfold_locales
    (auto simp: UUIDv7Generator_def UUIDv7Generator_New_def quiet_def drawn_between_def failed_between_def run_simps
      split: sum.splits intro: exI [of _ "w_tick w" for w])

section \<open>Rate limiting\<close>

definition InMemoryRateLimiter_Allow :: "string \<Rightarrow> ('db world, error + bool) state" where
  "InMemoryRateLimiter_Allow key = do {
     now \<leftarrow> time_Now;
     ok \<leftarrow> State (\<lambda>w. case Allow_at now (w_limiter w) key of
                     (ok, r) \<Rightarrow> (ok, w\<lparr>w_limiter := r\<rparr>));
     State_Monad.return (Inr ok)
   }"

definition InMemoryRateLimiter_RateLimiter :: "'db world RateLimiter" where
  "InMemoryRateLimiter_RateLimiter = \<lparr>lm_Allow = InMemoryRateLimiter_Allow\<rparr>"

lemma run_InMemoryRateLimiter_Allow:
  "run_state (lm_Allow InMemoryRateLimiter_RateLimiter key) w =
     (let a = Allow_at (ext_now (w_ext w) (w_tick w)) (w_limiter w) key
      in (Inr (fst a), w\<lparr>w_tick := Suc (w_tick w), w_limiter := snd a\<rparr>))"
  by (simp add: InMemoryRateLimiter_RateLimiter_def InMemoryRateLimiter_Allow_def Let_def split_beta)

text \<open>
  The contract the engine relies on: a check touches nothing but the limiter. \<open>refusals\<close> are the
  errors the limiter itself can fail with; the in-memory limiter has none.
\<close>

locale rate_limiter =
  fixes limiter :: "'db world RateLimiter" and refusals :: "error set"
  assumes Allow_frame: "run_state (lm_Allow limiter key) w = (r, w') \<Longrightarrow> limiter_only w w'"
    and Allow_errors: "run_state (lm_Allow limiter key) w = (Inl e, w') \<Longrightarrow> e \<in> refusals"
begin

lemma wp_Allow [wp_intros]:
  assumes "\<And>r w'. run_state (lm_Allow limiter key) w = (r, w') \<Longrightarrow> w_db w' = w_db w \<Longrightarrow>
    w_outbox w' = w_outbox w \<Longrightarrow> w_ext w' = w_ext w \<Longrightarrow> w_tick w \<le> w_tick w' \<Longrightarrow>
    \<forall>e. r = Inl e \<longrightarrow> e \<in> refusals \<Longrightarrow> Q r w'"
  shows "wp (lm_Allow limiter key) Q w"
  by (rule wpI, rule assms) (auto dest: Allow_frame Allow_errors simp: limiter_only_def)

end

interpretation window_limiter: rate_limiter InMemoryRateLimiter_RateLimiter "{}"
  by unfold_locales (auto simp: run_InMemoryRateLimiter_Allow Let_def limiter_only_def)

end
