(* ===== verification/Auth_Signup.thy ===== *)
theory Auth_Signup
  imports Security Store
begin

text \<open>
  \<open>auth/signup.go\<close>. \<open>SignUp_spec\<close> is the promise of a call in terms of the view of the backend; the
  locale \<open>signup\<close> proves it over the contracts of the interfaces the function is given.
\<close>

section \<open>The program\<close>

definition zero_User :: User where
  "zero_User = \<lparr>u_ID = [], u_Email = [], u_PasswordHash = [], u_FailedAttempts = 0,
     u_LockedUntil = None, u_CreatedAt = time_zero, u_UpdatedAt = time_zero\<rparr>"

text \<open>The rate-limit check that sign-up and login begin with, in front of the rest of the function.\<close>

definition rate_limited ::
  "'db world RateLimiter \<Rightarrow> 'db world Logger \<Rightarrow> string \<Rightarrow> string \<Rightarrow> string \<Rightarrow> string \<Rightarrow>
   ('db world, error + 'a) state \<Rightarrow> ('db world, error + 'a) state" where
  "rate_limited limiter log key failed refused callerIP body = do {
     allowed \<leftarrow> lm_Allow limiter key;
     case allowed of
       Inl err \<Rightarrow> do {
         _ \<leftarrow> lg_Error log failed [(''error'', error_Error err)];
         State_Monad.return (Inl err)
       }
     | Inr allowed \<Rightarrow>
         if \<not> allowed then do {
           _ \<leftarrow> lg_Warn log refused [(''ip'', callerIP)];
           State_Monad.return (Inl ErrRateLimited)
         } else body
   }"

text \<open>The check that the address is free and the hash of the password; then what is done with them.\<close>

definition signup_hash ::
  "'db world UserStore \<Rightarrow> 'db world Hasher \<Rightarrow> 'db world Logger \<Rightarrow> string \<Rightarrow> string \<Rightarrow> string \<Rightarrow>
   ('db world, error + string) state" where
  "signup_hash users hasher log email password callerIP = do {
     existing \<leftarrow> us_GetByEmail users email;
     case existing of
       Inr _ \<Rightarrow> do {
         _ \<leftarrow> lg_Warn log ''signup: duplicate email attempt'' [(''ip'', callerIP)];
         State_Monad.return (Inl ErrUserExists)
       }
     | Inl _ \<Rightarrow> hs_Hash hasher password
   }"

definition signup_create ::
  "'db world UserStore \<Rightarrow> 'db world IDGenerator \<Rightarrow> 'db world AuditStore \<Rightarrow> 'db world Logger \<Rightarrow>
   string \<Rightarrow> string \<Rightarrow> string \<Rightarrow> ('db world, error + User) state" where
  "signup_create users ids audit log email hash callerIP = do {
     userID \<leftarrow> ig_New ids;
     case userID of
       Inl err \<Rightarrow> State_Monad.return (Inl err)
     | Inr userID \<Rightarrow> do {
         let user = zero_User\<lparr>u_ID := userID, u_Email := email, u_PasswordHash := hash\<rparr>;
         err \<leftarrow> us_Create users user;
         case err of
           Some e \<Rightarrow> State_Monad.return (Inl e)
         | None \<Rightarrow> do {
             err \<leftarrow> as_Record audit (new_AuditEvent EventSignupSuccess (u_ID user) callerIP None);
             _ \<leftarrow> (case err of
                    None \<Rightarrow> State_Monad.return ()
                  | Some err \<Rightarrow> lg_Error log ''signup: audit record failed''
                      [(''error'', error_Error err), (''user_id'', u_ID user)]);
             _ \<leftarrow> lg_Info log ''signup: completed'' [(''user_id'', u_ID user)];
             State_Monad.return (Inr user)
           }
       }
   }"

text \<open>The body of the function below the rate-limit check, and the function.\<close>

definition signup_checked ::
  "'db world UserStore \<Rightarrow> 'db world Hasher \<Rightarrow> 'db world IDGenerator \<Rightarrow> 'db world AuditStore \<Rightarrow>
   'db world Logger \<Rightarrow> string \<Rightarrow> string \<Rightarrow> string \<Rightarrow> ('db world, error + User) state" where
  "signup_checked users hasher ids audit log email password callerIP = do {
     hash \<leftarrow> signup_hash users hasher log email password callerIP;
     case hash of
       Inl err \<Rightarrow> State_Monad.return (Inl err)
     | Inr hash \<Rightarrow> signup_create users ids audit log email hash callerIP
   }"

definition SignUp ::
  "'db world UserStore \<Rightarrow> 'db world Hasher \<Rightarrow> 'db world IDGenerator \<Rightarrow> 'db world RateLimiter \<Rightarrow>
   'db world AuditStore \<Rightarrow> 'db world Logger \<Rightarrow> string \<Rightarrow> string \<Rightarrow> string \<Rightarrow>
   ('db world, error + User) state" where
  "SignUp users hasher ids limiter audit log email password callerIP =
     rate_limited limiter log (''signup:'' @ callerIP) ''signup: rate limiter error'' ''signup: rate limited'' callerIP
       (signup_checked users hasher ids audit log email password callerIP)"

lemmas signup_unfold = signup_checked_def signup_hash_def bind_simps

lemma rate_limited_bind:
  "State_Monad.bind (rate_limited limiter log key failed refused ip m) (\<lambda>r. case r of Inl err \<Rightarrow> State_Monad.return (Inl err) | Inr a \<Rightarrow> f a) =
   rate_limited limiter log key failed refused ip
     (State_Monad.bind m (\<lambda>r. case r of Inl err \<Rightarrow> State_Monad.return (Inl err) | Inr a \<Rightarrow> f a))"
  unfolding rate_limited_def bind_simps ..

lemma run_SignUp_allowed:
  "run_state (lm_Allow limiter (''signup:'' @ ip)) w = (Inr True, w1) \<Longrightarrow>
   run_state (SignUp users hasher ids limiter audit log email password ip) w =
   run_state (signup_checked users hasher ids audit log email password ip) w1"
  by (simp add: SignUp_def rate_limited_def)

section \<open>What a call promises\<close>

definition email_taken :: "dbview \<Rightarrow> string \<Rightarrow> bool" where
  "email_taken v email \<longleftrightarrow> (\<exists>i u. v_users v i = Some u \<and> u_Email u = email)"

definition put_user :: "User \<Rightarrow> dbview \<Rightarrow> dbview" where
  "put_user u v = v\<lparr>v_users := (v_users v)(u_ID u \<mapsto> u)\<rparr>"

text \<open>
  A call that fails changes nothing. A call that succeeds stores the returned user, stamped, under
  an identifier drawn during the call, with a hash of the password, and records the event.
\<close>

definition signup_checked_spec ::
  "error set \<Rightarrow> (externals \<Rightarrow> string \<Rightarrow> string \<Rightarrow> bool) \<Rightarrow> (externals \<Rightarrow> bool) \<Rightarrow>
   (externals \<Rightarrow> string \<Rightarrow> error \<Rightarrow> bool) \<Rightarrow> (externals \<Rightarrow> nat \<Rightarrow> error + string) \<Rightarrow> string \<Rightarrow> string \<Rightarrow> string \<Rightarrow>
   externals \<Rightarrow> nat \<Rightarrow> nat \<Rightarrow> dbview \<Rightarrow> error + User \<Rightarrow> dbview \<Rightarrow> bool" where
  "signup_checked_spec F matches sound hash_fails d_id email password ip x k k' v r v' \<longleftrightarrow>
     (case r of
        Inl e \<Rightarrow> v' = v \<and>
          (e = ErrUserExists \<and> email_taken v email \<or>
           (F \<noteq> {} \<or> \<not> email_taken v email) \<and>
             (hash_fails x password e \<or> failed_between d_id x k k' e \<or> e \<in> F))
      | Inr u \<Rightarrow> (F \<noteq> {} \<or> \<not> email_taken v email) \<and> drawn_between d_id x k k' (u_ID u) \<and>
          (sound x \<longrightarrow> matches x (u_PasswordHash u) password) \<and>
          u = zero_User\<lparr>u_ID := u_ID u, u_Email := email, u_PasswordHash := u_PasswordHash u\<rparr> \<and>
          (\<exists>t. audited F (new_AuditEvent EventSignupSuccess (u_ID u) ip None)
             (put_user (u\<lparr>u_CreatedAt := t, u_UpdatedAt := t\<rparr>) v) v'))"

lemma signup_checked_spec_mono:
  assumes "signup_checked_spec F matches sound hash_fails d_id email password ip x k k' v r v'"
    and "j \<le> k" and "k' \<le> j'"
  shows "signup_checked_spec F matches sound hash_fails d_id email password ip x j j' v r v'"
  using assms(1) drawn_between_mono [OF _ assms(2,3)] failed_between_mono [OF _ assms(2,3)]
  unfolding signup_checked_spec_def by (cases r) auto

definition SignUp_spec where
  "SignUp_spec F refusals matches sound hash_fails d_id email password ip x k k' v r v' \<longleftrightarrow>
     (\<exists>e. r = Inl e \<and> v' = v \<and> (e = ErrRateLimited \<or> e \<in> refusals)) \<or>
     signup_checked_spec F matches sound hash_fails d_id email password ip x k k' v r v'"

locale signup =
  user_store invar view faults users stamp + audit_log invar view faults audit log +
  password_hasher hasher matches sound hash_fails + string_source "ig_New ids" drawn_id +
  rate_limiter limiter refusals
  for invar :: "'db \<Rightarrow> bool" and view :: "'db \<Rightarrow> dbview" and faults :: "error set"
    and users :: "'db world UserStore" and stamp :: "Time \<Rightarrow> Time" and audit :: "'db world AuditStore" and log :: "'db world Logger"
    and hasher :: "'db world Hasher" and matches and sound and hash_fails
    and ids :: "'db world IDGenerator" and drawn_id and limiter :: "'db world RateLimiter" and refusals
begin

lemma signup_checked_meets:
  "engine_op invar view (signup_checked users hasher ids audit log email password ip)
     (signup_checked_spec faults matches sound hash_fails drawn_id email password ip)"
  unfolding signup_unfold
  unfolding signup_create_def Let_def
  by (rule engine_opI, (intro wp_audited wp_intros; simp add: zero_User_def))
    (auto simp: signup_checked_spec_def zero_User_def email_taken_def put_user_def spec_defs
      elim!: drawn_between_mono failed_between_mono)

lemma SignUp_meets:
  "engine_op invar view (SignUp users hasher ids limiter audit log email password ip)
     (SignUp_spec faults refusals matches sound hash_fails drawn_id email password ip)"
  unfolding SignUp_def rate_limited_def
  apply (rule engine_opI, (intro wp_engine_op [OF signup_checked_meets] wp_intros; simp))
    apply (simp_all add: SignUp_spec_def) [2]
  apply (unfold SignUp_spec_def, rule disjI2, erule signup_checked_spec_mono; simp)
  done

lemma SignUp_limited:
  assumes "run_state (lm_Allow limiter (''signup:'' @ ip)) w = (Inr False, w1)"
  shows "wp (SignUp users hasher ids limiter audit log email password ip)
    (\<lambda>r w'. r = Inl ErrRateLimited \<and> w_db w' = w_db w) w"
  unfolding SignUp_def rate_limited_def
  by (intro wp_intros; use assms in simp)

end

end
