(* ===== verification/Sha256.thy ===== *)
theory Sha256
  imports Prelude
begin

unbundle bit_operations_syntax

text \<open>
  \<open>crypto/sha256\<close>, as \<open>sha256.Sum256\<close> computes it: FIPS 180-4 over 32-bit words with wrap-around
  addition. The message schedule is kept as a window of the last sixteen words, the way a rolling
  implementation does. The lemmas show that padding fills whole blocks, that every digest has 32
  bytes, and the published digest of ''abc''.
\<close>

type_synonym u32 = "32 word"
type_synonym sha_state = "u32 \<times> u32 \<times> u32 \<times> u32 \<times> u32 \<times> u32 \<times> u32 \<times> u32"

section \<open>Functions and constants\<close>

definition sha_rotr :: "nat \<Rightarrow> u32 \<Rightarrow> u32" where
  "sha_rotr n x = drop_bit n x OR push_bit (32 - n) x"

definition sha_ch :: "u32 \<Rightarrow> u32 \<Rightarrow> u32 \<Rightarrow> u32" where
  "sha_ch x y z = (x AND y) XOR (NOT x AND z)"

definition sha_maj :: "u32 \<Rightarrow> u32 \<Rightarrow> u32 \<Rightarrow> u32" where
  "sha_maj x y z = (x AND y) XOR (x AND z) XOR (y AND z)"

definition sha_Sigma0 :: "u32 \<Rightarrow> u32" where
  "sha_Sigma0 x = sha_rotr 2 x XOR sha_rotr 13 x XOR sha_rotr 22 x"

definition sha_Sigma1 :: "u32 \<Rightarrow> u32" where
  "sha_Sigma1 x = sha_rotr 6 x XOR sha_rotr 11 x XOR sha_rotr 25 x"

definition sha_sigma0 :: "u32 \<Rightarrow> u32" where
  "sha_sigma0 x = sha_rotr 7 x XOR sha_rotr 18 x XOR drop_bit 3 x"

definition sha_sigma1 :: "u32 \<Rightarrow> u32" where
  "sha_sigma1 x = sha_rotr 17 x XOR sha_rotr 19 x XOR drop_bit 10 x"

definition sha_K_table :: "(nat \<times> nat) list" where
  "sha_K_table = [
   (2, 0x428a2f98), (3, 0x71374491), (5, 0xb5c0fbcf), (7, 0xe9b5dba5), (11, 0x3956c25b), (13, 0x59f111f1),
   (17, 0x923f82a4), (19, 0xab1c5ed5), (23, 0xd807aa98), (29, 0x12835b01), (31, 0x243185be), (37, 0x550c7dc3),
   (41, 0x72be5d74), (43, 0x80deb1fe), (47, 0x9bdc06a7), (53, 0xc19bf174), (59, 0xe49b69c1), (61, 0xefbe4786),
   (67, 0x0fc19dc6), (71, 0x240ca1cc), (73, 0x2de92c6f), (79, 0x4a7484aa), (83, 0x5cb0a9dc), (89, 0x76f988da),
   (97, 0x983e5152), (101, 0xa831c66d), (103, 0xb00327c8), (107, 0xbf597fc7), (109, 0xc6e00bf3), (113, 0xd5a79147),
   (127, 0x06ca6351), (131, 0x14292967), (137, 0x27b70a85), (139, 0x2e1b2138), (149, 0x4d2c6dfc), (151, 0x53380d13),
   (157, 0x650a7354), (163, 0x766a0abb), (167, 0x81c2c92e), (173, 0x92722c85), (179, 0xa2bfe8a1), (181, 0xa81a664b),
   (191, 0xc24b8b70), (193, 0xc76c51a3), (197, 0xd192e819), (199, 0xd6990624), (211, 0xf40e3585), (223, 0x106aa070),
   (227, 0x19a4c116), (229, 0x1e376c08), (233, 0x2748774c), (239, 0x34b0bcb5), (241, 0x391c0cb3), (251, 0x4ed8aa4a),
   (257, 0x5b9cca4f), (263, 0x682e6ff3), (269, 0x748f82ee), (271, 0x78a5636f), (277, 0x84c87814), (281, 0x8cc70208),
   (283, 0x90befffa), (293, 0xa4506ceb), (307, 0xbef9a3f7), (311, 0xc67178f2)]"

definition sha_K :: "u32 list" where
  "sha_K = map (\<lambda>(p, k). word_of_nat k) sha_K_table"

text \<open>
  Each entry is a prime with the first 32 bits of the fractional part of its cube root: \<open>k\<close> with the
  integer part \<open>n\<close> of the root in front is the root of \<open>p\<close> scaled by \<open>2 ^ 32\<close>, rounded down.
\<close>

fun cube_root_bits :: "nat \<times> nat \<Rightarrow> bool" where
  "cube_root_bits (p, k) \<longleftrightarrow> k < 2 ^ 32 \<and>
     (\<exists>n \<in> {1, 2, 3, 4, 5, 6}. (n * 2 ^ 32 + k) ^ 3 \<le> p * 2 ^ 96 \<and> p * 2 ^ 96 < (n * 2 ^ 32 + k + 1) ^ 3)"

lemma sha_K_cube_roots: "list_all cube_root_bits sha_K_table"
  by (simp add: sha_K_table_def)

lemma sha_K_length [simp]: "length sha_K = 64"
  by (simp add: sha_K_def sha_K_table_def)

definition sha_init :: sha_state where
  "sha_init = (0x6a09e667, 0xbb67ae85, 0x3c6ef372, 0xa54ff53a, 0x510e527f, 0x9b05688c, 0x1f83d9ab, 0x5be0cd19)"

section \<open>Padding and parsing\<close>

definition bytes_be32 :: "u32 \<Rightarrow> byte list" where
  "bytes_be32 x = map (\<lambda>k. ucast (drop_bit k x)) [24, 16, 8, 0]"

definition bytes_be64 :: "64 word \<Rightarrow> byte list" where
  "bytes_be64 x = map (\<lambda>k. ucast (drop_bit k x)) [56, 48, 40, 32, 24, 16, 8, 0]"

definition word_be :: "byte \<Rightarrow> byte \<Rightarrow> byte \<Rightarrow> byte \<Rightarrow> u32" where
  "word_be a b c d = push_bit 24 (ucast a) OR push_bit 16 (ucast b) OR push_bit 8 (ucast c) OR ucast d"

definition sha_pad :: "byte list \<Rightarrow> byte list" where
  "sha_pad m = m @ [0x80] @ replicate ((119 - length m mod 64) mod 64) 0 @
     bytes_be64 (word_of_nat (8 * length m))"

fun words_be :: "byte list \<Rightarrow> u32 list" where
  "words_be (a # b # c # d # bs) = word_be a b c d # words_be bs"
| "words_be _ = []"

fun sha_blocks :: "u32 list \<Rightarrow> u32 list list" where
  "sha_blocks [] = []"
| "sha_blocks (x # xs) = take 16 (x # xs) # sha_blocks (drop 15 xs)"

section \<open>Compression\<close>

definition sha_next :: "u32 list \<Rightarrow> u32" where
  "sha_next w = sha_sigma1 (w ! 14) + w ! 9 + sha_sigma0 (w ! 1) + w ! 0"

fun sha_round :: "u32 \<Rightarrow> u32 \<Rightarrow> sha_state \<Rightarrow> sha_state" where
  "sha_round k w (a, b, c, d, e, f, g, h) =
     (let t1 = h + sha_Sigma1 e + sha_ch e f g + k + w; t2 = sha_Sigma0 a + sha_maj a b c
      in (t1 + t2, a, b, c, d + t1, e, f, g))"

fun sha_rounds :: "u32 list \<Rightarrow> u32 list \<Rightarrow> sha_state \<Rightarrow> sha_state" where
  "sha_rounds [] w s = s"
| "sha_rounds (k # ks) w s = sha_rounds ks (tl w @ [sha_next w]) (sha_round k (hd w) s)"

fun sha_add :: "sha_state \<Rightarrow> sha_state \<Rightarrow> sha_state" where
  "sha_add (a, b, c, d, e, f, g, h) (a', b', c', d', e', f', g', h') =
     (a + a', b + b', c + c', d + d', e + e', f + f', g + g', h + h')"

definition sha_compress :: "sha_state \<Rightarrow> u32 list \<Rightarrow> sha_state" where
  "sha_compress s block = sha_add s (sha_rounds sha_K block s)"

fun sha_digest :: "sha_state \<Rightarrow> byte list" where
  "sha_digest (a, b, c, d, e, f, g, h) = concat (map bytes_be32 [a, b, c, d, e, f, g, h])"

definition sha256_Sum256 :: "byte list \<Rightarrow> byte list" where
  "sha256_Sum256 m = sha_digest (foldl sha_compress sha_init (sha_blocks (words_be (sha_pad m))))"

section \<open>Shape\<close>

lemma length_sha_pad: "length (sha_pad m) mod 64 = 0"
proof -
  have "length (sha_pad m) = length m + 9 + (119 - length m mod 64) mod 64"
    by (simp add: sha_pad_def bytes_be64_def)
  moreover have "(length m + 9 + (119 - length m mod 64) mod 64) mod 64 = 0"
  proof -
    define q where "q = length m mod 64"
    have q: "q < 64" and n: "length m = 64 * (length m div 64) + q"
      by (simp_all add: q_def)
    have "(119 - q) mod 64 = (if q \<le> 55 then 55 - q else 119 - q)"
      using q by (auto simp: mod_if)
    then have "\<exists>j. length m + 9 + (119 - q) mod 64 = 64 * j"
      using q n by (intro exI [of _ "length m div 64 + (if q \<le> 55 then 1 else 2)"]) auto
    then show ?thesis by (auto simp: q_def)
  qed
  ultimately show ?thesis by simp
qed

lemma length_words_be: "length (words_be bs) = length bs div 4"
  by (induction bs rule: words_be.induct) simp_all

lemma sha_blocks_full: "length ws mod 16 = 0 \<Longrightarrow> \<forall>b \<in> set (sha_blocks ws). length b = 16"
proof (induction ws rule: sha_blocks.induct)
  case 1
  then show ?case by simp
next
  case (2 x xs)
  obtain j where j: "length (x # xs) = 16 * Suc j"
  proof -
    from "2.prems" obtain i where "length (x # xs) = 16 * i" by (auto elim: dvdE)
    then show ?thesis by (cases i) (auto intro: that)
  qed
  then have len: "length (take 16 (x # xs)) = 16" by (simp only: length_take) simp
  from j have "length (drop 15 xs) = 16 * j" by simp
  then have "length (drop 15 xs) mod 16 = 0" by (simp only: mod_mult_self1_is_0)
  then have "\<forall>b \<in> set (sha_blocks (drop 15 xs)). length b = 16" by (rule "2.IH")
  with len show ?case by (simp only: sha_blocks.simps list.set ball_simps simp_thms)
qed

text \<open>Every block the compression function sees has its sixteen words.\<close>

lemma sha_pad_blocks: "\<forall>b \<in> set (sha_blocks (words_be (sha_pad m))). length b = 16"
proof -
  have "length (words_be (sha_pad m)) mod 16 = 0"
    using length_sha_pad [of m] by (simp add: length_words_be) presburger
  then show ?thesis by (rule sha_blocks_full)
qed

lemma length_sha256_Sum256 [simp]: "length (sha256_Sum256 m) = 32"
proof -
  have "length (sha_digest s) = 32" for s
    by (cases s rule: sha_digest.cases) (simp add: bytes_be32_def)
  then show ?thesis by (simp add: sha256_Sum256_def)
qed

section \<open>A published digest\<close>

text \<open>
  The simplifier computes with numerals of any size, so the evaluation reduces the sums of every
  round to 32 bits before it goes on.
\<close>

definition reduce32 :: "u32 \<Rightarrow> u32" where
  "reduce32 x = x"

lemma word_of_nat_mod32: "(word_of_nat (n mod 2 ^ 32) :: u32) = word_of_nat n"
  by (simp add: word_of_nat_eq_iff take_bit_eq_mod)

lemma numeral_mod32: "(numeral n :: u32) = word_of_nat (numeral n mod 2 ^ 32)"
  by (simp only: word_of_nat_mod32 of_nat_numeral)

lemma reduce32_numeral: "reduce32 (numeral n) = word_of_nat (numeral n mod 2 ^ 32)"
    "reduce32 0 = 0" "reduce32 1 = 1"
  by (simp_all only: reduce32_def numeral_mod32 [symmetric])

lemma sha_round_reduce:
  "sha_round k w (a, b, c, d, e, f, g, h) =
     (let t1 = reduce32 (h + sha_Sigma1 e + sha_ch e f g + k + w); t2 = sha_Sigma0 a + sha_maj a b c
      in (reduce32 (t1 + t2), a, b, c, reduce32 (d + t1), e, f, g))"
  by (simp add: reduce32_def)

lemma sha_next_reduce: "sha_next w = reduce32 (sha_sigma1 (w ! 14) + w ! 9 + sha_sigma0 (w ! 1) + w ! 0)"
  by (simp add: sha_next_def reduce32_def)

lemmas sha_eval = sha_round_reduce sha_next_reduce reduce32_numeral Let_def sha_Sigma0_def sha_Sigma1_def sha_ch_def sha_maj_def
  sha_rotr_def sha_sigma0_def sha_sigma1_def

lemma sha_abc_block:
  "words_be (sha_pad [0x61, 0x62, 0x63]) = [0x61626380, 0, 0, 0, 0, 0, 0, 0, 0, 0, 0, 0, 0, 0, 0, 0x18]"
  by code_simp

lemma sha_abc_rounds:
  "sha_rounds sha_K [0x61626380, 0, 0, 0, 0, 0, 0, 0, 0, 0, 0, 0, 0, 0, 0, 0x18] sha_init =
    (0x506e3058, 0xd39a2165, 0x04d24d6c, 0xb85e2ce9, 0x5ef50f24, 0xfb121210, 0x948d25b6, 0x961f4894)"
  by (simp add: sha_K_def sha_K_table_def sha_init_def sha_eval del: sha_round.simps)

lemma sha256_abc:
  "hex_EncodeToString (sha256_Sum256 [0x61, 0x62, 0x63]) =
     ''ba7816bf8f01cfea414140de5dae2223b00361a396177a9cb410ff61f20015ad''"
proof -
  have "sha256_Sum256 [0x61, 0x62, 0x63] =
    sha_digest (sha_compress sha_init [0x61626380, 0, 0, 0, 0, 0, 0, 0, 0, 0, 0, 0, 0, 0, 0, 0x18])"
    by (simp add: sha256_Sum256_def sha_abc_block)
  also have "\<dots> = [0xba, 0x78, 0x16, 0xbf, 0x8f, 0x01, 0xcf, 0xea, 0x41, 0x41, 0x40, 0xde, 0x5d, 0xae, 0x22,
     0x23, 0xb0, 0x03, 0x61, 0xa3, 0x96, 0x17, 0x7a, 0x9c, 0xb4, 0x10, 0xff, 0x61, 0xf2, 0x00, 0x15, 0xad]"
    by (simp add: sha_compress_def sha_abc_rounds [unfolded sha_init_def] sha_init_def bytes_be32_def)
  finally show ?thesis by (simp add: hex_EncodeToString_def hex_byte_def hextable_def)
qed

end
