(* ===== verification/Token.thy ===== *)
theory Token
  imports Sha256 Security
begin

text \<open>
  \<open>token\<close>: the source of refresh tokens, the hash under which they are stored, and the signed
  access tokens. Rotation, which works on the session store, is in \<open>Rotation\<close>.
\<close>

section \<open>Refresh tokens\<close>

record 'w TokenGenerator =
  tg_New :: "('w, error + string) state"

record CryptoRandTokenGenerator =
  cr_ByteLength :: int

definition NewCryptoRandTokenGenerator :: "int \<Rightarrow> error + CryptoRandTokenGenerator" where
  "NewCryptoRandTokenGenerator byteLength =
     (if byteLength < 16 then Inl ErrTokenByteLengthTooShort
      else Inr \<lparr>cr_ByteLength = byteLength\<rparr>)"

text \<open>\<open>rand.Read(buf)\<close> fills a buffer of \<open>n\<close> bytes or fails.\<close>

definition rand_Read :: "nat \<Rightarrow> ('db world, error + byte list) state" where
  "rand_Read n = draw (\<lambda>x k. map_sum id (\<lambda>f. map f [0..<n]) (ext_rand x k))"

definition CryptoRandTokenGenerator_New ::
  "CryptoRandTokenGenerator \<Rightarrow> ('db world, error + string) state" where
  "CryptoRandTokenGenerator_New g = do {
     r \<leftarrow> rand_Read (nat (cr_ByteLength g));
     case r of
       Inl err \<Rightarrow> State_Monad.return (Inl err)
     | Inr buf \<Rightarrow> State_Monad.return (Inr (hex_EncodeToString buf))
   }"

definition CryptoRandTokenGenerator_TokenGenerator ::
  "CryptoRandTokenGenerator \<Rightarrow> 'db world TokenGenerator" where
  "CryptoRandTokenGenerator_TokenGenerator g = \<lparr>tg_New = CryptoRandTokenGenerator_New g\<rparr>"

definition token_drawn :: "CryptoRandTokenGenerator \<Rightarrow> externals \<Rightarrow> nat \<Rightarrow> error + string" where
  "token_drawn g x k =
     map_sum id (\<lambda>f. hex_EncodeToString (map f [0..<nat (cr_ByteLength g)])) (ext_rand x k)"

lemma run_CryptoRandTokenGenerator_New:
  "run_state (CryptoRandTokenGenerator_New g) w =
     (token_drawn g (w_ext w) (w_tick w), w\<lparr>w_tick := Suc (w_tick w)\<rparr>)"
  by (cases "ext_rand (w_ext w) (w_tick w)")
    (simp_all add: CryptoRandTokenGenerator_New_def rand_Read_def token_drawn_def run_simps)

interpretation tokens: string_source "tg_New (CryptoRandTokenGenerator_TokenGenerator g)" "token_drawn g"
  by unfold_locales
    (auto simp: CryptoRandTokenGenerator_TokenGenerator_def run_CryptoRandTokenGenerator_New
      quiet_def drawn_between_def failed_between_def)

lemma CryptoRandTokenGenerator_New_shape:
  assumes "run_state (CryptoRandTokenGenerator_New g) w = (Inr tok, w')" and "0 \<le> cr_ByteLength g"
  shows "int (length tok) = 2 * cr_ByteLength g \<and> set tok \<subseteq> set hextable"
  using assms hex_EncodeToString_digits
  by (auto simp: run_CryptoRandTokenGenerator_New token_drawn_def map_sum_eq_Inr)

section \<open>Hashing refresh tokens\<close>

text \<open>\<open>[]byte(raw)\<close> are the bytes of the string.\<close>

definition string_bytes :: "string \<Rightarrow> byte list" where
  "string_bytes s = map of_char s"

definition HashToken :: "string \<Rightarrow> string" where
  "HashToken raw = hex_EncodeToString (sha256_Sum256 (string_bytes raw))"

lemma length_HashToken [simp]: "length (HashToken raw) = 64"
  by (simp add: HashToken_def)

lemma HashToken_digits: "set (HashToken raw) \<subseteq> set hextable"
  unfolding HashToken_def by (rule hex_EncodeToString_digits)

lemma HashToken_eq_iff:
  "HashToken a = HashToken b \<longleftrightarrow> sha256_Sum256 (string_bytes a) = sha256_Sum256 (string_bytes b)"
  by (auto simp: HashToken_def dest: hex_EncodeToString_inj)

section \<open>Access tokens\<close>

record JWTIssuer =
  ji_secret :: string
  ji_ttl :: Duration

definition NewJWTIssuer :: "string \<Rightarrow> Duration \<Rightarrow> error + JWTIssuer" where
  "NewJWTIssuer secret ttl =
     (if secret = '''' then Inl ErrMissingJWTSecret_token
      else if ttl \<le> 0 then Inl ErrInvalidTTL
      else Inr \<lparr>ji_secret = secret, ji_ttl = ttl\<rparr>)"

abbreviation SigningMethodHS256 :: SigningMethod where
  "SigningMethodHS256 \<equiv> SigningMethodHMAC 256"

definition access_claims :: "externals \<Rightarrow> JWTIssuer \<Rightarrow> string \<Rightarrow> Time \<Rightarrow> RegisteredClaims" where
  "access_claims x j userID now =
     \<lparr>jc_Subject = userID,
      jc_IssuedAt = Some (ext_jwt_NewNumericDate x now),
      jc_ExpiresAt = Some (ext_jwt_NewNumericDate x (now + ji_ttl j))\<rparr>"

definition JWTIssuer_Issue :: "JWTIssuer \<Rightarrow> string \<Rightarrow> ('db world, error + string) state" where
  "JWTIssuer_Issue j userID = do {
     now \<leftarrow> time_Now;
     asks (\<lambda>x. ext_jwt_SignedString x SigningMethodHS256 (access_claims x j userID now) (ji_secret j))
   }"

text \<open>The function handed to the parser: it yields the secret for the HMAC family only.\<close>

definition JWTIssuer_keyfunc :: "JWTIssuer \<Rightarrow> jwt_Token \<Rightarrow> error + string" where
  "JWTIssuer_keyfunc j t =
     (case jt_Method t of
        SigningMethodHMAC _ \<Rightarrow> Inr (ji_secret j)
      | SigningMethodOther _ \<Rightarrow> Inl ErrInvalidAccessToken)"

text \<open>The clock reading is the one the parser takes to validate the expiry.\<close>

definition JWTIssuer_Verify :: "JWTIssuer \<Rightarrow> string \<Rightarrow> ('db world, error + string) state" where
  "JWTIssuer_Verify j tokenStr = do {
     now \<leftarrow> time_Now;
     parsed \<leftarrow> asks (\<lambda>x. ext_jwt_ParseWithClaims x now tokenStr (JWTIssuer_keyfunc j));
     case parsed of
       Inl err \<Rightarrow> State_Monad.return (Inl ErrInvalidAccessToken)
     | Inr t \<Rightarrow>
         if \<not> jt_Valid t then State_Monad.return (Inl ErrInvalidAccessToken)
         else State_Monad.return (Inr (jc_Subject (jt_Claims t)))
   }"

text \<open>
  Documented behaviour of the jwt package, for the theorems that need it. A token signed with a key
  parses back to its claims when the key function yields that key for its method and it has not
  expired, provided that its dates are whole seconds and its subject is ASCII text, which JSON carries as it is; it is refused once it has expired, and under any other key; and a token is valid only
  if the key function accepted it.
\<close>

definition not_expired :: "RegisteredClaims \<Rightarrow> Time \<Rightarrow> bool" where
  "not_expired c now \<longleftrightarrow> (case jc_ExpiresAt c of None \<Rightarrow> True | Some e \<Rightarrow> now < e)"

definition ascii :: "string \<Rightarrow> bool" where
  "ascii s \<longleftrightarrow> (\<forall>c \<in> set s. of_char c < (128 :: nat))"

definition whole_seconds :: "Time option \<Rightarrow> bool" where
  "whole_seconds t \<longleftrightarrow> (case t of None \<Rightarrow> True | Some t \<Rightarrow> time_Second dvd t)"

definition json_exact :: "RegisteredClaims \<Rightarrow> bool" where
  "json_exact c \<longleftrightarrow> ascii (jc_Subject c) \<and> whole_seconds (jc_IssuedAt c) \<and> whole_seconds (jc_ExpiresAt c)"

definition jwt_roundtrip :: "externals \<Rightarrow> bool" where
  "jwt_roundtrip x \<longleftrightarrow> (\<forall>m c key tok now kf. json_exact c \<longrightarrow>
     ext_jwt_SignedString x m c key = Inr tok \<longrightarrow> not_expired c now \<longrightarrow>
     kf \<lparr>jt_Method = m, jt_Claims = c, jt_Valid = False\<rparr> = Inr key \<longrightarrow>
     ext_jwt_ParseWithClaims x now tok kf = Inr \<lparr>jt_Method = m, jt_Claims = c, jt_Valid = True\<rparr>)"

definition jwt_checks_expiry :: "externals \<Rightarrow> bool" where
  "jwt_checks_expiry x \<longleftrightarrow> (\<forall>m c key tok now kf.
     ext_jwt_SignedString x m c key = Inr tok \<longrightarrow> \<not> not_expired c now \<longrightarrow>
     (\<exists>e. ext_jwt_ParseWithClaims x now tok kf = Inl e))"

definition jwt_asks_key :: "externals \<Rightarrow> bool" where
  "jwt_asks_key x \<longleftrightarrow> (\<forall>now tok kf t.
     ext_jwt_ParseWithClaims x now tok kf = Inr t \<longrightarrow> jt_Valid t \<longrightarrow>
     (\<exists>key. kf (t\<lparr>jt_Valid := False\<rparr>) = Inr key))"

text \<open>\<open>jwt.NewNumericDate\<close> drops the fraction of a second.\<close>

definition jwt_truncates :: "externals \<Rightarrow> bool" where
  "jwt_truncates x \<longleftrightarrow> (\<forall>t. ext_jwt_NewNumericDate x t = (t div time_Second) * time_Second)"

lemma access_claims_exact: "jwt_truncates x \<Longrightarrow> ascii userID \<Longrightarrow> json_exact (access_claims x j userID now)"
  by (simp add: json_exact_def whole_seconds_def access_claims_def jwt_truncates_def)

lemma expiry_truncated:
  assumes "jwt_truncates x" and "t \<le> e - time_Second"
  shows "t < ext_jwt_NewNumericDate x e"
proof -
  have "e - time_Second < e div time_Second * time_Second"
    using div_mult_mod_eq [of e time_Second] pos_mod_bound [of time_Second e] by (simp add: time_Second_def)
  with assms show ?thesis by (simp add: jwt_truncates_def)
qed

section \<open>Behaviour of access tokens\<close>

lemma run_JWTIssuer_Issue:
  "run_state (JWTIssuer_Issue j userID) w =
     (ext_jwt_SignedString (w_ext w) SigningMethodHS256
        (access_claims (w_ext w) j userID (ext_now (w_ext w) (w_tick w))) (ji_secret j),
      w\<lparr>w_tick := Suc (w_tick w)\<rparr>)"
  by (simp add: JWTIssuer_Issue_def)

lemma JWTIssuer_Issue_quiet: "run_state (JWTIssuer_Issue j userID) w = (r, w') \<Longrightarrow> quiet w w'"
  by (auto simp: run_JWTIssuer_Issue quiet_def)

lemma wp_Issue [wp_intros]:
  assumes "\<And>r w'. w_db w' = w_db w \<Longrightarrow> w_limiter w' = w_limiter w \<Longrightarrow> w_outbox w' = w_outbox w \<Longrightarrow>
    w_ext w' = w_ext w \<Longrightarrow> w_tick w < w_tick w' \<Longrightarrow>
    r = ext_jwt_SignedString (w_ext w) SigningMethodHS256
          (access_claims (w_ext w) j userID (ext_now (w_ext w) (w_tick w))) (ji_secret j) \<Longrightarrow> Q r w'"
  shows "wp (JWTIssuer_Issue j userID) Q w"
  by (rule wpI, rule assms) (auto simp: run_JWTIssuer_Issue)

lemma run_JWTIssuer_Verify:
  "run_state (JWTIssuer_Verify j tok) w =
     ((case ext_jwt_ParseWithClaims (w_ext w) (ext_now (w_ext w) (w_tick w)) tok (JWTIssuer_keyfunc j) of
         Inl _ \<Rightarrow> Inl ErrInvalidAccessToken
       | Inr t \<Rightarrow> if jt_Valid t then Inr (jc_Subject (jt_Claims t)) else Inl ErrInvalidAccessToken),
      w\<lparr>w_tick := Suc (w_tick w)\<rparr>)"
  by (simp add: JWTIssuer_Verify_def run_simps split: sum.splits)

lemma JWTIssuer_Verify_issued:
  assumes "run_state (JWTIssuer_Issue j userID) w = (Inr tok, w1)" and "w_ext w2 = w_ext w"
    and "jwt_roundtrip (w_ext w)" and "jwt_truncates (w_ext w)" and "ascii userID"
    and "ext_now (w_ext w) (w_tick w2) < ext_jwt_NewNumericDate (w_ext w) (ext_now (w_ext w) (w_tick w) + ji_ttl j)"
  shows "fst (run_state (JWTIssuer_Verify j tok) w2) = Inr userID"
proof -
  let ?c = "access_claims (w_ext w) j userID (ext_now (w_ext w) (w_tick w))"
  have "ext_jwt_ParseWithClaims (w_ext w) (ext_now (w_ext w) (w_tick w2)) tok (JWTIssuer_keyfunc j) =
    Inr \<lparr>jt_Method = SigningMethodHS256, jt_Claims = ?c, jt_Valid = True\<rparr>"
  proof (rule assms(3) [unfolded jwt_roundtrip_def, rule_format])
    show "json_exact ?c" by (rule access_claims_exact [OF assms(4,5)])
    show "ext_jwt_SignedString (w_ext w) SigningMethodHS256 ?c (ji_secret j) = Inr tok"
      using assms(1) by (simp add: run_JWTIssuer_Issue)
    show "not_expired ?c (ext_now (w_ext w) (w_tick w2))"
      using assms(6) by (simp add: not_expired_def access_claims_def)
    show "JWTIssuer_keyfunc j \<lparr>jt_Method = SigningMethodHS256, jt_Claims = ?c, jt_Valid = False\<rparr> =
        Inr (ji_secret j)"
      by (simp add: JWTIssuer_keyfunc_def)
  qed
  with assms(2) show ?thesis by (simp add: run_JWTIssuer_Verify access_claims_def)
qed

lemma JWTIssuer_Verify_expired:
  assumes "run_state (JWTIssuer_Issue j userID) w = (Inr tok, w1)" and "w_ext w2 = w_ext w"
    and "jwt_checks_expiry (w_ext w)"
    and "ext_jwt_NewNumericDate (w_ext w) (ext_now (w_ext w) (w_tick w) + ji_ttl j) \<le> ext_now (w_ext w) (w_tick w2)"
  shows "fst (run_state (JWTIssuer_Verify j tok) w2) = Inl ErrInvalidAccessToken"
proof -
  let ?c = "access_claims (w_ext w) j userID (ext_now (w_ext w) (w_tick w))"
  have "\<not> not_expired ?c (ext_now (w_ext w) (w_tick w2))"
    using assms(4) by (simp add: not_expired_def access_claims_def)
  moreover have "ext_jwt_SignedString (w_ext w) SigningMethodHS256 ?c (ji_secret j) = Inr tok"
    using assms(1) by (simp add: run_JWTIssuer_Issue)
  ultimately obtain e where
    "ext_jwt_ParseWithClaims (w_ext w) (ext_now (w_ext w) (w_tick w2)) tok (JWTIssuer_keyfunc j) = Inl e"
    using assms(3) unfolding jwt_checks_expiry_def by blast
  with assms(2) show ?thesis by (simp add: run_JWTIssuer_Verify)
qed

lemma JWTIssuer_Verify_hmac_only:
  assumes "jwt_asks_key (w_ext w)" and "fst (run_state (JWTIssuer_Verify j tok) w) = Inr userID"
  shows "\<exists>t n. ext_jwt_ParseWithClaims (w_ext w) (ext_now (w_ext w) (w_tick w)) tok (JWTIssuer_keyfunc j) = Inr t \<and>
    jt_Method t = SigningMethodHMAC n \<and> jc_Subject (jt_Claims t) = userID"
proof -
  from assms(2) obtain t where t:
    "ext_jwt_ParseWithClaims (w_ext w) (ext_now (w_ext w) (w_tick w)) tok (JWTIssuer_keyfunc j) = Inr t"
    "jt_Valid t" "jc_Subject (jt_Claims t) = userID"
    by (auto simp: run_JWTIssuer_Verify split: sum.splits if_splits)
  with assms(1) have "\<exists>key. JWTIssuer_keyfunc j (t\<lparr>jt_Valid := False\<rparr>) = Inr key"
    unfolding jwt_asks_key_def by blast
  then have "\<exists>n. jt_Method t = SigningMethodHMAC n"
    by (auto simp: JWTIssuer_keyfunc_def split: SigningMethod.splits)
  with t show ?thesis by blast
qed

end
