(* ===== verification/Rotation.thy ===== *)
theory Rotation
  imports Token Store
begin

text \<open>
  \<open>token/refresh.go\<close>: rotation of refresh tokens with reuse detection. \<open>Rotate_spec\<close> is what a call
  promises in terms of the view of the backend, and the locale \<open>rotation\<close> shows that the program
  keeps the promise over any backend, token generator and identifier generator that meet their
  contracts.
\<close>

section \<open>The program\<close>

record RefreshResult =
  rr_RawToken :: string
  rr_Session :: Session

definition zero_Session :: Session where
  "zero_Session = \<lparr>s_ID = [], s_FamilyID = [], s_UserID = [], s_TokenHash = [], s_IP = [],
     s_UserAgent = [], s_CreatedAt = time_zero, s_RevokedAt = None\<rparr>"

definition zero_RefreshResult :: RefreshResult where
  "zero_RefreshResult = \<lparr>rr_RawToken = [], rr_Session = zero_Session\<rparr>"

text \<open>
  The result is used together with the error (the reuse branch returns both), so both are returned.
\<close>

text \<open>What follows the lookup of the session, and the whole function.\<close>

definition rotate_found ::
  "'db world SessionStore \<Rightarrow> 'db world TokenGenerator \<Rightarrow> 'db world IDGenerator \<Rightarrow> error + Session \<Rightarrow>
   ('db world, RefreshResult \<times> error option) state" where
  "rotate_found sessions gen ids found =
     (case found of
       Inl err \<Rightarrow> State_Monad.return (zero_RefreshResult, Some ErrInvalidToken)
     | Inr existing \<Rightarrow>
         if s_RevokedAt existing \<noteq> None then do {
           revokeErr \<leftarrow> ss_RevokeFamily sessions (s_FamilyID existing);
           case revokeErr of
             Some e \<Rightarrow> State_Monad.return (zero_RefreshResult\<lparr>rr_Session := existing\<rparr>, Some e)
           | None \<Rightarrow> State_Monad.return (zero_RefreshResult\<lparr>rr_Session := existing\<rparr>, Some ErrTokenReused)
         } else do {
           newRaw \<leftarrow> tg_New gen;
           case newRaw of
             Inl err \<Rightarrow> State_Monad.return (zero_RefreshResult, Some err)
           | Inr newRaw \<Rightarrow> do {
               newID \<leftarrow> ig_New ids;
               case newID of
                 Inl err \<Rightarrow> State_Monad.return (zero_RefreshResult, Some err)
               | Inr newID \<Rightarrow> do {
                   let newSession = zero_Session\<lparr>s_ID := newID, s_FamilyID := s_FamilyID existing,
                         s_UserID := s_UserID existing, s_TokenHash := HashToken newRaw,
                         s_IP := s_IP existing, s_UserAgent := s_UserAgent existing\<rparr>;
                   err \<leftarrow> ss_RotateToken sessions (s_ID existing) newSession;
                   case err of
                     Some e \<Rightarrow> State_Monad.return (zero_RefreshResult, Some e)
                   | None \<Rightarrow> State_Monad.return (\<lparr>rr_RawToken = newRaw, rr_Session = newSession\<rparr>, None)
                 }
             }
         })"

definition Rotate ::
  "'db world SessionStore \<Rightarrow> 'db world TokenGenerator \<Rightarrow> 'db world IDGenerator \<Rightarrow> string \<Rightarrow>
   ('db world, RefreshResult \<times> error option) state" where
  "Rotate sessions gen ids rawToken = do {
     let hash = HashToken rawToken;
     found \<leftarrow> ss_GetByTokenHash sessions hash;
     rotate_found sessions gen ids found
   }"

section \<open>What a call promises\<close>

definition stored_token :: "dbview \<Rightarrow> string \<Rightarrow> Session \<Rightarrow> bool" where
  "stored_token v raw s \<longleftrightarrow> v_sessions v (s_ID s) = Some s \<and> s_TokenHash s = HashToken raw"

definition successor :: "Session \<Rightarrow> string \<Rightarrow> string \<Rightarrow> Session" where
  "successor s newID newRaw =
     s\<lparr>s_ID := newID, s_TokenHash := HashToken newRaw, s_CreatedAt := time_zero, s_RevokedAt := None\<rparr>"

lemma successor_simps [simp]:
  "s_ID (successor s i r) = i" "s_FamilyID (successor s i r) = s_FamilyID s"
  "s_UserID (successor s i r) = s_UserID s" "s_TokenHash (successor s i r) = HashToken r"
  "s_RevokedAt (successor s i r) = None"
  by (simp_all add: successor_def)

text \<open>
  The four outcomes: an unknown token, a revoked token (its whole family is revoked), a rotation,
  and a failure of a generator or of the backend, which leaves everything as it was.
\<close>

definition rotate_unknown ::
  "error set \<Rightarrow> string \<Rightarrow> dbview \<Rightarrow> RefreshResult \<Rightarrow> error option \<Rightarrow> dbview \<Rightarrow> bool" where
  "rotate_unknown F raw v res err v' \<longleftrightarrow>
     res = zero_RefreshResult \<and> err = Some ErrInvalidToken \<and> v' = v \<and>
     (F \<noteq> {} \<or> (\<forall>i s. v_sessions v i = Some s \<longrightarrow> s_TokenHash s \<noteq> HashToken raw))"

definition rotate_reused ::
  "error set \<Rightarrow> string \<Rightarrow> dbview \<Rightarrow> RefreshResult \<Rightarrow> error option \<Rightarrow> dbview \<Rightarrow> bool" where
  "rotate_reused F raw v res err v' \<longleftrightarrow>
     (\<exists>s. stored_token v raw s \<and> s_RevokedAt s \<noteq> None \<and> res = \<lparr>rr_RawToken = [], rr_Session = s\<rparr> \<and>
        (err = Some ErrTokenReused \<and>
           (\<exists>t. v' = v\<lparr>v_sessions := revoke_where (\<lambda>s'. s_FamilyID s' = s_FamilyID s) t (v_sessions v)\<rparr>) \<or>
         (\<exists>e \<in> F. err = Some e \<and> v' = v)))"

definition rotate_ok ::
  "(externals \<Rightarrow> nat \<Rightarrow> error + string) \<Rightarrow> (externals \<Rightarrow> nat \<Rightarrow> error + string) \<Rightarrow> externals \<Rightarrow> nat \<Rightarrow> nat \<Rightarrow>
   string \<Rightarrow> dbview \<Rightarrow> RefreshResult \<Rightarrow> error option \<Rightarrow> dbview \<Rightarrow> bool" where
  "rotate_ok d_id d_tok x k k' raw v res err v' \<longleftrightarrow>
     (\<exists>s newID t t'. stored_token v raw s \<and> s_RevokedAt s = None \<and> err = None \<and>
        rr_Session res = successor s newID (rr_RawToken res) \<and>
        drawn_between d_tok x k k' (rr_RawToken res) \<and> drawn_between d_id x k k' newID \<and>
        v' = v\<lparr>v_sessions := (v_sessions v)(s_ID s \<mapsto> s\<lparr>s_RevokedAt := Some t\<rparr>,
                newID \<mapsto> (rr_Session res)\<lparr>s_CreatedAt := t'\<rparr>)\<rparr>)"

definition rotate_failed ::
  "error set \<Rightarrow> (externals \<Rightarrow> nat \<Rightarrow> error + string) \<Rightarrow> (externals \<Rightarrow> nat \<Rightarrow> error + string) \<Rightarrow> externals \<Rightarrow> nat \<Rightarrow>
   nat \<Rightarrow> string \<Rightarrow> dbview \<Rightarrow> RefreshResult \<Rightarrow> error option \<Rightarrow> dbview \<Rightarrow> bool" where
  "rotate_failed F d_id d_tok x k k' raw v res err v' \<longleftrightarrow>
     (\<exists>s e. stored_token v raw s \<and> s_RevokedAt s = None \<and> err = Some e \<and> res = zero_RefreshResult \<and> v' = v \<and>
        (failed_between d_tok x k k' e \<or> failed_between d_id x k k' e \<or> e \<in> F))"

lemma successor_literal:
  "zero_Session\<lparr>s_ID := i, s_FamilyID := s_FamilyID s, s_UserID := s_UserID s, s_TokenHash := HashToken r,
     s_IP := s_IP s, s_UserAgent := s_UserAgent s\<rparr> = successor s i r"
  by (cases s) (simp add: zero_Session_def successor_def)

lemma rotate_okI:
  assumes "stored_token v raw s" and "s_RevokedAt s = None"
    and "drawn_between d_tok x k k' r" and "drawn_between d_id x k k' i"
    and "v' = v\<lparr>v_sessions := (v_sessions v)(s_ID s \<mapsto> s\<lparr>s_RevokedAt := Some t\<rparr>,
           i \<mapsto> (successor s i r)\<lparr>s_CreatedAt := t'\<rparr>)\<rparr>"
  shows "rotate_ok d_id d_tok x k k' raw v \<lparr>rr_RawToken = r, rr_Session = successor s i r\<rparr> None v'"
  unfolding rotate_ok_def using assms by (intro exI [of _ s] exI [of _ i] exI [of _ t] exI [of _ t']) simp

lemmas rotate_defs = rotate_unknown_def rotate_reused_def rotate_ok_def rotate_failed_def

definition Rotate_spec where
  "Rotate_spec F d_id d_tok x k k' raw v r v' \<longleftrightarrow>
     rotate_unknown F raw v (fst r) (snd r) v' \<or> rotate_reused F raw v (fst r) (snd r) v' \<or>
     rotate_ok d_id d_tok x k k' raw v (fst r) (snd r) v' \<or>
     rotate_failed F d_id d_tok x k k' raw v (fst r) (snd r) v'"

lemma Rotate_specI:
  assumes "stored_token v raw s"
  shows "s_RevokedAt s \<noteq> None \<Longrightarrow>
      session_RevokeWhere_spec F (\<lambda>s'. s_FamilyID s' = s_FamilyID s) v None v' \<Longrightarrow>
      Rotate_spec F d_id d_tok x k k' raw v (zero_RefreshResult\<lparr>rr_Session := s\<rparr>, Some ErrTokenReused) v'"
    and "s_RevokedAt s \<noteq> None \<Longrightarrow>
      session_RevokeWhere_spec F (\<lambda>s'. s_FamilyID s' = s_FamilyID s) v (Some e) v' \<Longrightarrow>
      Rotate_spec F d_id d_tok x k k' raw v (zero_RefreshResult\<lparr>rr_Session := s\<rparr>, Some e) v'"
    and "s_RevokedAt s = None \<Longrightarrow> failed_between d_tok x k k' e \<Longrightarrow>
      Rotate_spec F d_id d_tok x k k' raw v (zero_RefreshResult, Some e) v"
    and "s_RevokedAt s = None \<Longrightarrow> failed_between d_id x k k' e \<Longrightarrow>
      Rotate_spec F d_id d_tok x k k' raw v (zero_RefreshResult, Some e) v"
    and "s_RevokedAt s = None \<Longrightarrow> session_RotateToken_spec F (s_ID s) n v (Some e) v' \<Longrightarrow>
      Rotate_spec F d_id d_tok x k k' raw v (zero_RefreshResult, Some e) v'"
  using assms
  by (auto simp: Rotate_spec_def rotate_reused_def rotate_failed_def session_RevokeWhere_spec_def
      session_RotateToken_spec_def stored_token_def fault_option_def zero_RefreshResult_def)

lemma Rotate_spec_okI:
  assumes "stored_token v raw s" and "s_RevokedAt s = None"
    and "session_RotateToken_spec F (s_ID s) (successor s i r) v None v'"
    and "drawn_between d_tok x k k' r" and "drawn_between d_id x k k' i"
  shows "Rotate_spec F d_id d_tok x k k' raw v (\<lparr>rr_RawToken = r, rr_Session = successor s i r\<rparr>, None) v'"
proof -
  from assms(1,3) obtain t t' where "v' = v\<lparr>v_sessions := (v_sessions v)(s_ID s \<mapsto> s\<lparr>s_RevokedAt := Some t\<rparr>,
      i \<mapsto> (successor s i r)\<lparr>s_CreatedAt := t'\<rparr>)\<rparr>"
    by (auto simp: session_RotateToken_spec_def stored_token_def fault_option_def)
  from rotate_okI [OF assms(1,2,4,5) this] show ?thesis by (simp add: Rotate_spec_def)
qed

lemma token_found:
  "session_GetByTokenHash_spec F (HashToken raw) v (Inr s) v' \<Longrightarrow> v' = v \<and> stored_token v raw s"
  by (simp add: session_GetByTokenHash_spec_def stored_token_def)

locale rotation =
  session_store invar view faults sessions + ids: string_source "ig_New ids" drawn_id +
  gen: string_source "tg_New gen" drawn_tok
  for invar :: "'db \<Rightarrow> bool" and view :: "'db \<Rightarrow> dbview" and faults :: "error set"
    and sessions :: "'db world SessionStore" and ids :: "'db world IDGenerator" and drawn_id
    and gen :: "'db world TokenGenerator" and drawn_tok
begin

lemma Rotate_meets:
  "engine_op invar view (Rotate sessions gen ids raw)
     (\<lambda>x k k'. Rotate_spec faults drawn_id drawn_tok x k k' raw)"
  unfolding Rotate_def rotate_found_def Let_def successor_literal
  apply (rule engine_opI, (intro wp_intros; simp))
        apply (auto simp: Rotate_spec_def rotate_unknown_def session_GetByTokenHash_spec_def) [1]
       apply (auto dest!: token_found elim: Rotate_specI) [2]
     apply (clarsimp dest!: token_found; erule Rotate_specI(3); auto elim!: failed_between_mono)
    apply (clarsimp dest!: token_found; erule Rotate_specI(4); auto elim!: failed_between_mono)
   apply (clarsimp dest!: token_found; erule Rotate_spec_okI; auto elim!: drawn_between_mono)
  apply (auto dest!: token_found elim: Rotate_specI(5))
  done

lemmas wp_Rotate [wp_intros] = wp_engine_op [OF Rotate_meets]

end

end
