(* ===== verification/Auth_Login.thy ===== *)
theory Auth_Login
  imports Auth_Signup Rotation
begin

text \<open>
  \<open>auth/login.go\<close> and \<open>auth/tokens.go\<close>: the login with its rate limit, the lockout after repeated
  failures, and the issue of a session. \<open>Login_spec\<close> lists the ways a call can end.
\<close>

section \<open>The program\<close>

record Tokens =
  tk_AccessToken :: string
  tk_RefreshToken :: string

definition recordLoginFailure ::
  "'db world AuditStore \<Rightarrow> 'db world Logger \<Rightarrow> string \<Rightarrow> string \<Rightarrow> string \<Rightarrow> ('db world, unit) state" where
  "recordLoginFailure audit log userID callerIP reason = do {
     err \<leftarrow> as_Record audit (new_AuditEvent EventLoginFailed userID callerIP (Some [(''reason'', reason)]));
     _ \<leftarrow> (case err of
            None \<Rightarrow> State_Monad.return ()
          | Some err \<Rightarrow> lg_Error log ''login: audit record failed'' [(''error'', error_Error err)]);
     lg_Warn log ''login: failed attempt'' [(''ip'', callerIP), (''reason'', reason)]
   }"

text \<open>The test \<open>user.LockedUntil != nil && time.Now().Before(*user.LockedUntil)\<close>.\<close>

definition locked_now :: "User \<Rightarrow> ('db world, bool) state" where
  "locked_now user =
     (case u_LockedUntil user of
        None \<Rightarrow> State_Monad.return False
      | Some until \<Rightarrow> do { now \<leftarrow> time_Now; State_Monad.return (now < until) })"

text \<open>The body of the branch for a password that does not match, up to its return.\<close>

definition login_mismatch ::
  "'db world UserStore \<Rightarrow> 'db world AuditStore \<Rightarrow> 'db world Logger \<Rightarrow> User \<Rightarrow> string \<Rightarrow> int \<Rightarrow> Duration \<Rightarrow>
   ('db world, unit) state" where
  "login_mismatch users audit log user callerIP lockoutThreshold lockoutDuration = do {
     _ \<leftarrow> recordLoginFailure audit log (u_ID user) callerIP ''wrong_password'';
     attempts \<leftarrow> us_IncrementFailedAttempts users (u_ID user);
     case attempts of
       Inl incErr \<Rightarrow> lg_Error log ''login: failed-attempt increment error''
         [(''error'', error_Error incErr), (''user_id'', u_ID user)]
     | Inr attempts \<Rightarrow>
         if lockoutThreshold \<le> attempts then do {
           now \<leftarrow> time_Now;
           let until = now + lockoutDuration;
           lockErr \<leftarrow> us_LockAccount users (u_ID user) until;
           case lockErr of
             Some lockErr \<Rightarrow> lg_Error log ''login: lock account error''
               [(''error'', error_Error lockErr), (''user_id'', u_ID user)]
           | None \<Rightarrow> do {
               auditErr \<leftarrow> as_Record audit (new_AuditEvent EventAccountLocked (u_ID user) callerIP None);
               _ \<leftarrow> (case auditErr of
                      None \<Rightarrow> State_Monad.return ()
                    | Some auditErr \<Rightarrow> lg_Error log ''login: audit record failed''
                        [(''error'', error_Error auditErr)]);
               lg_Warn log ''login: account locked after repeated failures''
                 [(''user_id'', u_ID user), (''attempts'', strconv_Itoa attempts)]
             }
         } else State_Monad.return ()
   }"

text \<open>The rest of the function once the password has matched.\<close>

definition login_session ::
  "'db world UserStore \<Rightarrow> 'db world SessionStore \<Rightarrow> 'db world IDGenerator \<Rightarrow> 'db world TokenGenerator \<Rightarrow>
   JWTIssuer \<Rightarrow> 'db world AuditStore \<Rightarrow> 'db world Logger \<Rightarrow> User \<Rightarrow> string \<Rightarrow> string \<Rightarrow>
   ('db world, error + Tokens) state" where
  "login_session users sessions ids refreshGen jwtIssuer audit log user callerIP userAgent = do {
     err \<leftarrow> us_ResetFailedAttempts users (u_ID user);
     _ \<leftarrow> (case err of
            None \<Rightarrow> State_Monad.return ()
          | Some err \<Rightarrow> lg_Error log ''login: reset failed-attempts error''
              [(''error'', error_Error err), (''user_id'', u_ID user)]);
     sessionID \<leftarrow> ig_New ids;
     case sessionID of
       Inl err \<Rightarrow> State_Monad.return (Inl err)
     | Inr sessionID \<Rightarrow> do {
         rawRefresh \<leftarrow> tg_New refreshGen;
         case rawRefresh of
           Inl err \<Rightarrow> State_Monad.return (Inl err)
         | Inr rawRefresh \<Rightarrow> do {
             let session = zero_Session\<lparr>s_ID := sessionID, s_FamilyID := sessionID, s_UserID := u_ID user,
                   s_TokenHash := HashToken rawRefresh, s_IP := callerIP, s_UserAgent := userAgent\<rparr>;
             err \<leftarrow> ss_Create sessions session;
             case err of
               Some err \<Rightarrow> State_Monad.return (Inl err)
             | None \<Rightarrow> do {
                 accessToken \<leftarrow> JWTIssuer_Issue jwtIssuer (u_ID user);
                 case accessToken of
                   Inl err \<Rightarrow> State_Monad.return (Inl err)
                 | Inr accessToken \<Rightarrow> do {
                     err \<leftarrow> as_Record audit (new_AuditEvent EventLoginSuccess (u_ID user) callerIP None);
                     _ \<leftarrow> (case err of
                            None \<Rightarrow> State_Monad.return ()
                          | Some err \<Rightarrow> lg_Error log ''login: audit record failed''
                              [(''error'', error_Error err), (''user_id'', u_ID user)]);
                     _ \<leftarrow> lg_Info log ''login: completed'' [(''user_id'', u_ID user)];
                     State_Monad.return (Inr \<lparr>tk_AccessToken = accessToken, tk_RefreshToken = rawRefresh\<rparr>)
                   }
               }
           }
       }
   }"

definition login_key :: "string \<Rightarrow> string \<Rightarrow> string" where
  "login_key callerIP email = ''login:'' @ callerIP @ '':'' @ email"

text \<open>The lookup of the account, the lock test and the password check.\<close>

definition login_verify ::
  "'db world UserStore \<Rightarrow> 'db world Hasher \<Rightarrow> 'db world AuditStore \<Rightarrow> 'db world Logger \<Rightarrow>
   string \<Rightarrow> string \<Rightarrow> string \<Rightarrow> int \<Rightarrow> Duration \<Rightarrow> ('db world, error + User) state" where
  "login_verify users hasher audit log email password callerIP lockoutThreshold lockoutDuration = do {
     user \<leftarrow> us_GetByEmail users email;
     case user of
       Inl _ \<Rightarrow> do {
         _ \<leftarrow> recordLoginFailure audit log [] callerIP ''no_such_user'';
         State_Monad.return (Inl ErrInvalidCredentials)
       }
     | Inr user \<Rightarrow> do {
         locked \<leftarrow> locked_now user;
         if locked then do {
           _ \<leftarrow> lg_Warn log ''login: attempt on locked account'' [(''user_id'', u_ID user)];
           State_Monad.return (Inl ErrAccountLocked)
         } else do {
           err \<leftarrow> hs_Compare hasher (u_PasswordHash user) password;
           case err of
             Some _ \<Rightarrow> do {
               _ \<leftarrow> login_mismatch users audit log user callerIP lockoutThreshold lockoutDuration;
               State_Monad.return (Inl ErrInvalidCredentials)
             }
           | None \<Rightarrow> State_Monad.return (Inr user)
         }
       }
   }"

text \<open>The body of the function below the rate-limit check, and the function.\<close>

definition login_checked ::
  "'db world UserStore \<Rightarrow> 'db world SessionStore \<Rightarrow> 'db world Hasher \<Rightarrow> 'db world IDGenerator \<Rightarrow>
   'db world TokenGenerator \<Rightarrow> JWTIssuer \<Rightarrow> 'db world AuditStore \<Rightarrow>
   'db world Logger \<Rightarrow> string \<Rightarrow> string \<Rightarrow> string \<Rightarrow> string \<Rightarrow> int \<Rightarrow> Duration \<Rightarrow>
   ('db world, error + Tokens) state" where
  "login_checked users sessions hasher ids refreshGen jwtIssuer audit log email password callerIP
     userAgent lockoutThreshold lockoutDuration = do {
     user \<leftarrow> login_verify users hasher audit log email password callerIP lockoutThreshold lockoutDuration;
     case user of
       Inl err \<Rightarrow> State_Monad.return (Inl err)
     | Inr user \<Rightarrow> login_session users sessions ids refreshGen jwtIssuer audit log user callerIP userAgent
   }"

definition Login ::
  "'db world UserStore \<Rightarrow> 'db world SessionStore \<Rightarrow> 'db world Hasher \<Rightarrow> 'db world IDGenerator \<Rightarrow>
   'db world TokenGenerator \<Rightarrow> JWTIssuer \<Rightarrow> 'db world RateLimiter \<Rightarrow> 'db world AuditStore \<Rightarrow>
   'db world Logger \<Rightarrow> string \<Rightarrow> string \<Rightarrow> string \<Rightarrow> string \<Rightarrow> int \<Rightarrow> Duration \<Rightarrow>
   ('db world, error + Tokens) state" where
  "Login users sessions hasher ids refreshGen jwtIssuer limiter audit log email password callerIP
     userAgent lockoutThreshold lockoutDuration =
     rate_limited limiter log (login_key callerIP email) ''login: rate limiter error'' ''login: rate limited'' callerIP
       (login_checked users sessions hasher ids refreshGen jwtIssuer audit log email password callerIP
          userAgent lockoutThreshold lockoutDuration)"

lemmas login_unfold = login_checked_def login_verify_def bind_simps

lemma run_Login_allowed:
  "run_state (lm_Allow limiter (login_key ip email)) w = (Inr True, w1) \<Longrightarrow>
   run_state (Login users sessions hasher ids gen j limiter audit log email password ip agent th du) w =
   run_state (login_checked users sessions hasher ids gen j audit log email password ip agent th du) w1"
  by (simp add: Login_def rate_limited_def)

section \<open>What a call promises\<close>

definition found_user :: "dbview \<Rightarrow> string \<Rightarrow> User \<Rightarrow> bool" where
  "found_user v email u \<longleftrightarrow> v_users v (u_ID u) = Some u \<and> u_Email u = email"

text \<open>A failed attempt is counted, and at the threshold the account is locked from then on.\<close>

definition counted :: "User \<Rightarrow> User" where
  "counted u = u\<lparr>u_FailedAttempts := wrap64 (u_FailedAttempts u + 1)\<rparr>"

definition lockout_spec ::
  "error set \<Rightarrow> (Time \<Rightarrow> Time) \<Rightarrow> int \<Rightarrow> Duration \<Rightarrow> externals \<Rightarrow> nat \<Rightarrow> nat \<Rightarrow> User \<Rightarrow> string \<Rightarrow> dbview \<Rightarrow> dbview \<Rightarrow> bool" where
  "lockout_spec F st threshold duration x k k' u ip v v' \<longleftrightarrow>
     F \<noteq> {} \<and> v' = v \<or>
     u_FailedAttempts (counted u) < threshold \<and> v' = put_user (counted u) v \<or>
     threshold \<le> u_FailedAttempts (counted u) \<and>
       (F \<noteq> {} \<and> v' = put_user (counted u) v \<or>
        (\<exists>i. k \<le> i \<and> i < k' \<and>
           audited F (new_AuditEvent EventAccountLocked (u_ID u) ip None)
             (put_user ((counted u)\<lparr>u_LockedUntil := Some (st (ext_now x i + duration))\<rparr>) v) v'))"

definition login_failure_event :: "string \<Rightarrow> string \<Rightarrow> string \<Rightarrow> AuditEvent" where
  "login_failure_event userID ip reason = new_AuditEvent EventLoginFailed userID ip (Some [(''reason'', reason)])"

definition unlocked :: "User \<Rightarrow> User" where
  "unlocked u = u\<lparr>u_FailedAttempts := 0, u_LockedUntil := None\<rparr>"

definition login_reset :: "error set \<Rightarrow> User \<Rightarrow> dbview \<Rightarrow> dbview \<Rightarrow> bool" where
  "login_reset F u v v' \<longleftrightarrow> v' = put_user (unlocked u) v \<or> F \<noteq> {} \<and> v' = v"

definition fresh_session :: "string \<Rightarrow> User \<Rightarrow> string \<Rightarrow> string \<Rightarrow> string \<Rightarrow> Time \<Rightarrow> Session" where
  "fresh_session i u raw ip agent t =
     \<lparr>s_ID = i, s_FamilyID = i, s_UserID = u_ID u, s_TokenHash = HashToken raw, s_IP = ip,
      s_UserAgent = agent, s_CreatedAt = t, s_RevokedAt = None\<rparr>"

definition put_session :: "Session \<Rightarrow> dbview \<Rightarrow> dbview" where
  "put_session s v = v\<lparr>v_sessions := (v_sessions v)(s_ID s \<mapsto> s)\<rparr>"

text \<open>
  After the password matched: the counters are reset; then either a session is created under fresh
  draws, or a source failed. A failure to sign the access token leaves the new session behind.
\<close>

definition login_session_spec ::
  "error set \<Rightarrow> (externals \<Rightarrow> nat \<Rightarrow> error + string) \<Rightarrow> (externals \<Rightarrow> nat \<Rightarrow> error + string) \<Rightarrow> JWTIssuer \<Rightarrow>
   string \<Rightarrow> string \<Rightarrow> externals \<Rightarrow> nat \<Rightarrow> nat \<Rightarrow> User \<Rightarrow> dbview \<Rightarrow> error + Tokens \<Rightarrow> dbview \<Rightarrow> bool" where
  "login_session_spec F d_id d_tok j ip agent x k k' u v r v' \<longleftrightarrow>
     (\<exists>v1. login_reset F u v v1 \<and>
       (case r of
          Inr tk \<Rightarrow> (\<exists>i t n. drawn_between d_id x k k' i \<and> drawn_between d_tok x k k' (tk_RefreshToken tk) \<and>
            k \<le> n \<and> n < k' \<and>
            ext_jwt_SignedString x SigningMethodHS256 (access_claims x j (u_ID u) (ext_now x n)) (ji_secret j) =
              Inr (tk_AccessToken tk) \<and>
            audited F (new_AuditEvent EventLoginSuccess (u_ID u) ip None)
              (put_session (fresh_session i u (tk_RefreshToken tk) ip agent t) v1) v')
        | Inl e \<Rightarrow>
            v' = v1 \<and> (failed_between d_id x k k' e \<or> failed_between d_tok x k k' e \<or> e \<in> F) \<or>
            (\<exists>i raw t n. drawn_between d_id x k k' i \<and> drawn_between d_tok x k k' raw \<and>
               ext_jwt_SignedString x SigningMethodHS256 (access_claims x j (u_ID u) (ext_now x n)) (ji_secret j) =
                 Inl e \<and>
               v' = put_session (fresh_session i u raw ip agent t) v1)))"

lemma fresh_session_literal:
  "zero_Session\<lparr>s_ID := i, s_FamilyID := i, s_UserID := u_ID u, s_TokenHash := HashToken raw, s_IP := ip,
     s_UserAgent := agent\<rparr> = fresh_session i u raw ip agent time_zero"
  by (simp add: zero_Session_def fresh_session_def)

lemma fresh_session_simps [simp]:
  "s_ID (fresh_session i u raw ip agent t) = i" "s_FamilyID (fresh_session i u raw ip agent t) = i"
  "s_UserID (fresh_session i u raw ip agent t) = u_ID u" "s_RevokedAt (fresh_session i u raw ip agent t) = None"
  "s_TokenHash (fresh_session i u raw ip agent t) = HashToken raw"
  "(fresh_session i u raw ip agent t)\<lparr>s_CreatedAt := t'\<rparr> = fresh_session i u raw ip agent t'"
  by (simp_all add: fresh_session_def)

lemma session_Create_fresh:
  "session_Create_spec F (fresh_session i u raw ip agent t0) v r v' \<Longrightarrow>
     (r = None \<and> (\<exists>t. v' = put_session (fresh_session i u raw ip agent t) v)) \<or> (\<exists>e \<in> F. r = Some e \<and> v' = v)"
  by (auto simp: session_Create_spec_def fault_option_def put_session_def)

lemma login_session_okI:
  assumes "login_reset F u v v1" and "drawn_between d_id x k k' i" and "drawn_between d_tok x k k' raw"
    and "k \<le> n" and "n < k'"
    and "ext_jwt_SignedString x SigningMethodHS256 (access_claims x j (u_ID u) (ext_now x n)) (ji_secret j) = Inr acc"
    and "audited F (new_AuditEvent EventLoginSuccess (u_ID u) ip None)
      (put_session (fresh_session i u raw ip agent t) v1) v'"
  shows "login_session_spec F d_id d_tok j ip agent x k k' u v
    (Inr \<lparr>tk_AccessToken = acc, tk_RefreshToken = raw\<rparr>) v'"
  unfolding login_session_spec_def
  using assms by (intro exI [of _ v1] conjI) auto

lemma login_session_failI:
  assumes "login_reset F u v v1"
  shows "failed_between d_id x k k' e \<Longrightarrow> login_session_spec F d_id d_tok j ip agent x k k' u v (Inl e) v1"
    and "failed_between d_tok x k k' e \<Longrightarrow> login_session_spec F d_id d_tok j ip agent x k k' u v (Inl e) v1"
    and "e \<in> F \<Longrightarrow> login_session_spec F d_id d_tok j ip agent x k k' u v (Inl e) v1"
    and "drawn_between d_id x k k' i \<Longrightarrow> drawn_between d_tok x k k' raw \<Longrightarrow>
      Inl e = ext_jwt_SignedString x SigningMethodHS256 (access_claims x j (u_ID u) (ext_now x n)) (ji_secret j) \<Longrightarrow>
      login_session_spec F d_id d_tok j ip agent x k k' u v (Inl e)
        (put_session (fresh_session i u raw ip agent t) v1)"
  unfolding login_session_spec_def
  using assms by (auto intro!: exI [of _ v1])

lemma lockout_spec_mono:
  "lockout_spec F st threshold duration x k k' u ip v v' \<Longrightarrow> j \<le> k \<Longrightarrow> k' \<le> j' \<Longrightarrow>
   lockout_spec F st threshold duration x j j' u ip v v'"
  unfolding lockout_spec_def by (meson le_trans less_le_trans)

lemma login_session_spec_mono:
  assumes "login_session_spec F d_id d_tok j ip agent x k k' u v r v'" and "i \<le> k" and "k' \<le> i'"
  shows "login_session_spec F d_id d_tok j ip agent x i i' u v r v'"
proof -
  note mono = drawn_between_mono [OF _ assms(2,3)] failed_between_mono [OF _ assms(2,3)] le_trans [OF assms(2)] less_le_trans [OF _ assms(3)]
  from assms(1) show ?thesis
    unfolding login_session_spec_def by (cases r) (simp_all, (blast intro: mono)+)
qed

text \<open>
  The ways a login ends: refused by the limiter; no such user; the account is locked; a wrong
  password, which is counted; or a matching password on an account that is not locked.
\<close>

definition login_unknown ::
  "error set \<Rightarrow> string \<Rightarrow> string \<Rightarrow> dbview \<Rightarrow> error + Tokens \<Rightarrow> dbview \<Rightarrow> bool" where
  "login_unknown F email ip v r v' \<longleftrightarrow> r = Inl ErrInvalidCredentials \<and> (F \<noteq> {} \<or> \<not> email_taken v email) \<and>
     audited F (login_failure_event [] ip ''no_such_user'') v v'"

definition login_locked ::
  "externals \<Rightarrow> nat \<Rightarrow> nat \<Rightarrow> User \<Rightarrow> dbview \<Rightarrow> error + Tokens \<Rightarrow> dbview \<Rightarrow> bool" where
  "login_locked x k k' u v r v' \<longleftrightarrow> r = Inl ErrAccountLocked \<and> v' = v \<and>
     (\<exists>i until. k \<le> i \<and> i < k' \<and> u_LockedUntil u = Some until \<and> ext_now x i < until)"

definition lock_open :: "externals \<Rightarrow> nat \<Rightarrow> nat \<Rightarrow> User \<Rightarrow> bool" where
  "lock_open x k k' u \<longleftrightarrow>
     (case u_LockedUntil u of None \<Rightarrow> True | Some until \<Rightarrow> \<exists>i. k \<le> i \<and> i < k' \<and> until \<le> ext_now x i)"

definition login_wrong ::
  "error set \<Rightarrow> (Time \<Rightarrow> Time) \<Rightarrow> int \<Rightarrow> Duration \<Rightarrow> string \<Rightarrow> externals \<Rightarrow> nat \<Rightarrow> nat \<Rightarrow> User \<Rightarrow> dbview \<Rightarrow> error + Tokens \<Rightarrow>
   dbview \<Rightarrow> bool" where
  "login_wrong F st threshold duration ip x k k' u v r v' \<longleftrightarrow> r = Inl ErrInvalidCredentials \<and>
     (\<exists>v1. audited F (login_failure_event (u_ID u) ip ''wrong_password'') v v1 \<and>
        lockout_spec F st threshold duration x k k' u ip v1 v')"

definition login_checked_spec ::
  "error set \<Rightarrow> (Time \<Rightarrow> Time) \<Rightarrow> (externals \<Rightarrow> string \<Rightarrow> string \<Rightarrow> bool) \<Rightarrow> (externals \<Rightarrow> nat \<Rightarrow> error + string) \<Rightarrow>
   (externals \<Rightarrow> nat \<Rightarrow> error + string) \<Rightarrow> JWTIssuer \<Rightarrow> string \<Rightarrow> string \<Rightarrow> string \<Rightarrow> string \<Rightarrow> int \<Rightarrow> Duration \<Rightarrow>
   externals \<Rightarrow> nat \<Rightarrow> nat \<Rightarrow> dbview \<Rightarrow> error + Tokens \<Rightarrow> dbview \<Rightarrow> bool" where
  "login_checked_spec F st matches d_id d_tok j email password ip agent threshold duration x k k' v r v' \<longleftrightarrow>
     login_unknown F email ip v r v' \<or>
     (\<exists>u. found_user v email u \<and>
        (login_locked x k k' u v r v' \<or>
         lock_open x k k' u \<and> \<not> matches x (u_PasswordHash u) password \<and>
           login_wrong F st threshold duration ip x k k' u v r v' \<or>
         lock_open x k k' u \<and> matches x (u_PasswordHash u) password \<and>
           login_session_spec F d_id d_tok j ip agent x k k' u v r v'))"

definition Login_spec where
  "Login_spec F st refusals matches d_id d_tok j email password ip agent threshold duration x k k' v r v' \<longleftrightarrow>
     (\<exists>e. r = Inl e \<and> v' = v \<and> (e = ErrRateLimited \<or> e \<in> refusals)) \<or>
     login_checked_spec F st matches d_id d_tok j email password ip agent threshold duration x k k' v r v'"

lemma login_checked_specI:
  assumes "found_user v email u"
  shows "login_locked x k k' u v r v' \<Longrightarrow>
      login_checked_spec F st matches d_id d_tok j email password ip agent threshold duration x k k' v r v'"
    and "lock_open x k k' u \<Longrightarrow> \<not> matches x (u_PasswordHash u) password \<Longrightarrow>
      login_wrong F st threshold duration ip x k k' u v r v' \<Longrightarrow>
      login_checked_spec F st matches d_id d_tok j email password ip agent threshold duration x k k' v r v'"
    and "lock_open x k k' u \<Longrightarrow> matches x (u_PasswordHash u) password \<Longrightarrow>
      login_session_spec F d_id d_tok j ip agent x k k' u v r v' \<Longrightarrow>
      login_checked_spec F st matches d_id d_tok j email password ip agent threshold duration x k k' v r v'"
  using assms unfolding login_checked_spec_def by blast+

lemma login_lockedI:
  "u_LockedUntil u = Some until \<Longrightarrow> ext_now x i < until \<Longrightarrow> k \<le> i \<Longrightarrow> i < k' \<Longrightarrow>
   login_locked x k k' u v (Inl ErrAccountLocked) v"
  unfolding login_locked_def by blast

lemma login_wrongI:
  assumes "audited F (login_failure_event (u_ID u) ip ''wrong_password'') v v1"
    and "lockout_spec F st threshold duration x k k' u ip v1 v'" and "j \<le> k" and "k' \<le> j'"
  shows "login_wrong F st threshold duration ip x j j' u v (Inl ErrInvalidCredentials) v'"
  unfolding login_wrong_def using assms by (blast intro: lockout_spec_mono)

lemma lock_open_mono: "lock_open x k k' u \<Longrightarrow> j \<le> k \<Longrightarrow> k' \<le> j' \<Longrightarrow> lock_open x j j' u"
  unfolding lock_open_def by (auto split: option.splits) (meson le_trans less_le_trans)

lemma GetByEmail_found:
  "user_GetByEmail_spec F email v (Inr u) v' \<Longrightarrow> v' = v \<and> found_user v email u"
  "user_GetByEmail_spec F email v (Inl e) v' \<Longrightarrow> v' = v \<and> (F \<noteq> {} \<or> \<not> email_taken v email)"
  by (auto simp: user_GetByEmail_spec_def found_user_def email_taken_def)

lemma login_checked_spec_mono:
  assumes "login_checked_spec F st matches d_id d_tok j email password ip agent threshold duration x k k' v r v'"
    and i: "i \<le> k" "k' \<le> i'"
  shows "login_checked_spec F st matches d_id d_tok j email password ip agent threshold duration x i i' v r v'"
proof -
  have "login_locked x i i' u v r v'" if "login_locked x k k' u v r v'" for u
    using that i unfolding login_locked_def by (meson le_trans less_le_trans)
  moreover have "login_wrong F st threshold duration ip x i i' u v r v'"
    if "login_wrong F st threshold duration ip x k k' u v r v'" for u
    using that lockout_spec_mono [OF _ i] unfolding login_wrong_def by blast
  ultimately show ?thesis
    using assms(1) lock_open_mono [OF _ i] login_session_spec_mono [OF _ i]
    unfolding login_checked_spec_def by blast
qed

section \<open>The program keeps its promise\<close>

locale login =
  signup invar view faults users stamp audit log hasher matches sound hash_fails ids drawn_id limiter refusals +
  session_store invar view faults sessions + gen: string_source "tg_New gen" drawn_tok
  for invar :: "'db \<Rightarrow> bool" and view :: "'db \<Rightarrow> dbview" and faults :: "error set"
    and users :: "'db world UserStore" and stamp :: "Time \<Rightarrow> Time" and audit :: "'db world AuditStore" and log :: "'db world Logger"
    and hasher :: "'db world Hasher" and matches and sound and hash_fails
    and ids :: "'db world IDGenerator" and drawn_id and limiter :: "'db world RateLimiter" and refusals
    and sessions :: "'db world SessionStore" and gen :: "'db world TokenGenerator" and drawn_tok
begin

lemma login_mismatch_meets:
  "engine_op invar view (login_mismatch users audit log u ip threshold duration)
     (\<lambda>x k k' v r v'. v_users v (u_ID u) = Some u \<longrightarrow>
        (\<exists>v1. audited faults (login_failure_event (u_ID u) ip ''wrong_password'') v v1 \<and>
           lockout_spec faults stamp threshold duration x k k' u ip v1 v'))"
  unfolding login_mismatch_def recordLoginFailure_def login_failure_event_def Let_def
  by (rule engine_opI, (intro wp_audited wp_intros; simp))
    (auto simp: lockout_spec_def counted_def put_user_def spec_defs)

lemma wp_reset:
  assumes "invar (w_db w)"
    and "\<And>w'. invar (w_db w') \<Longrightarrow> w_limiter w' = w_limiter w \<Longrightarrow> w_outbox w' = w_outbox w \<Longrightarrow>
      w_ext w' = w_ext w \<Longrightarrow> w_tick w \<le> w_tick w' \<Longrightarrow>
      v_users (view (w_db w)) (u_ID u) = Some u \<longrightarrow> login_reset faults u (view (w_db w)) (view (w_db w')) \<Longrightarrow> wp k Q w'"
  shows "wp (State_Monad.bind (us_ResetFailedAttempts users (u_ID u)) (\<lambda>r.
      State_Monad.bind (case r of None \<Rightarrow> State_Monad.return () | Some err \<Rightarrow> lg_Error log msg (f err))
        (\<lambda>_. k))) Q w"
  by (intro wp_bind wp_users wp_case_option wp_return wp_log assms)
    (auto simp: assms(1) login_reset_def unlocked_def put_user_def user_update_spec_def fault_option_def)

lemma login_session_meets:
  "engine_op invar view (login_session users sessions ids gen j audit log u ip agent)
     (\<lambda>x k k' v r v'. v_users v (u_ID u) = Some u \<longrightarrow>
        login_session_spec faults drawn_id drawn_tok j ip agent x k k' u v r v')"
  unfolding login_session_def Let_def fresh_session_literal
  apply (rule engine_opI, (intro wp_audited wp_reset wp_intros; simp))
      apply (clarsimp; erule login_session_failI(1); auto elim!: failed_between_mono)
     apply (clarsimp; erule login_session_failI(2); auto elim!: failed_between_mono)
    apply (clarsimp dest!: session_Create_fresh; erule login_session_failI(4); auto elim!: drawn_between_mono)
   apply (clarsimp dest!: session_Create_fresh; erule login_session_okI; auto elim!: drawn_between_mono)
  apply (clarsimp dest!: session_Create_fresh; erule login_session_failI(3); auto)
  done

lemma wp_locked_now:
  assumes "\<And>r w'. w_db w' = w_db w \<Longrightarrow> w_limiter w' = w_limiter w \<Longrightarrow> w_outbox w' = w_outbox w \<Longrightarrow>
    w_ext w' = w_ext w \<Longrightarrow> w_tick w \<le> w_tick w' \<Longrightarrow>
    (if r then \<exists>until. w_tick w < w_tick w' \<and> u_LockedUntil u = Some until \<and> ext_now (w_ext w) (w_tick w) < until
     else lock_open (w_ext w) (w_tick w) (w_tick w') u) \<Longrightarrow> Q r w'"
  shows "wp (locked_now u) Q w"
  unfolding locked_now_def
  by (intro wp_intros assms) (auto simp: lock_open_def split: if_splits)

lemma login_checked_meets:
  "engine_op invar view (login_checked users sessions hasher ids gen j audit log email password ip agent
       threshold duration)
     (login_checked_spec faults stamp matches drawn_id drawn_tok j email password ip agent threshold duration)"
  unfolding login_unfold
  unfolding recordLoginFailure_def login_failure_event_def [symmetric]
  apply (rule engine_opI, (intro wp_audited wp_locked_now wp_engine_op [OF login_mismatch_meets]
      wp_engine_op [OF login_session_meets] wp_intros; simp))
     apply (auto simp: login_checked_spec_def login_unknown_def dest!: GetByEmail_found) [1]
    apply (auto dest!: GetByEmail_found(1) intro!: login_checked_specI(1) elim!: login_lockedI) [1]
   apply (auto dest!: GetByEmail_found(1) intro!: login_checked_specI(3) simp: found_user_def
      elim!: lock_open_mono login_session_spec_mono) [1]
  apply (auto dest!: GetByEmail_found(1) intro!: login_checked_specI(2) simp: found_user_def
      elim!: lock_open_mono login_wrongI) [1]
  done

lemma Login_meets:
  "engine_op invar view (Login users sessions hasher ids gen j limiter audit log email password ip agent
       threshold duration)
     (Login_spec faults stamp refusals matches drawn_id drawn_tok j email password ip agent threshold duration)"
  unfolding Login_def rate_limited_def
  apply (rule engine_opI, (intro wp_engine_op [OF login_checked_meets] wp_intros; simp))
    apply (simp_all add: Login_spec_def) [2]
  apply (unfold Login_spec_def, rule disjI2, erule login_checked_spec_mono; simp)
  done

lemma Login_limited:
  assumes "run_state (lm_Allow limiter (login_key ip email)) w = (Inr False, w1)"
  shows "wp (Login users sessions hasher ids gen j limiter audit log email password ip agent threshold duration)
    (\<lambda>r w'. r = Inl ErrRateLimited \<and> w_db w' = w_db w) w"
  unfolding Login_def rate_limited_def
  by (intro wp_intros; use assms in simp)

end

end
