(* ===== verification/Auth_Account.thy ===== *)
theory Auth_Account
  imports Auth_Signup
begin

text \<open>
  \<open>auth/password.go\<close> and \<open>auth/account.go\<close>: the two operations that ask for the current password
  again. Their promises share the revocation of every session of the user.
\<close>

section \<open>The programs\<close>

text \<open>The question for the current password, with the message for one that does not match.\<close>

definition reconfirm ::
  "'db world UserStore \<Rightarrow> 'db world Hasher \<Rightarrow> 'db world Logger \<Rightarrow> string \<Rightarrow> string \<Rightarrow> string \<Rightarrow>
   ('db world, error option) state" where
  "reconfirm users hasher log mismatch userID currentPassword = do {
     user \<leftarrow> us_GetByID users userID;
     case user of
       Inl err \<Rightarrow> State_Monad.return (Some err)
     | Inr user \<Rightarrow> do {
         err \<leftarrow> hs_Compare hasher (u_PasswordHash user) currentPassword;
         case err of
           Some _ \<Rightarrow> do {
             _ \<leftarrow> lg_Warn log mismatch [(''user_id'', userID)];
             State_Monad.return (Some ErrInvalidCredentials)
           }
         | None \<Rightarrow> State_Monad.return None
       }
   }"

text \<open>A change of the password: the checks and the new hash, what is done with it, and the function.\<close>

definition password_hash ::
  "'db world UserStore \<Rightarrow> 'db world Hasher \<Rightarrow> 'db world Logger \<Rightarrow> string \<Rightarrow> string \<Rightarrow> string \<Rightarrow>
   ('db world, error + string) state" where
  "password_hash users hasher log userID currentPassword newPassword = do {
     err \<leftarrow> reconfirm users hasher log ''change password: current password mismatch'' userID currentPassword;
     case err of
       Some err \<Rightarrow> State_Monad.return (Inl err)
     | None \<Rightarrow> hs_Hash hasher newPassword
   }"

definition password_update ::
  "'db world UserStore \<Rightarrow> 'db world SessionStore \<Rightarrow> 'db world AuditStore \<Rightarrow> 'db world Logger \<Rightarrow> string \<Rightarrow> string \<Rightarrow>
   ('db world, error option) state" where
  "password_update users sessions audit log userID newHash = do {
     err \<leftarrow> us_UpdatePasswordHash users userID newHash;
     case err of
       Some err \<Rightarrow> State_Monad.return (Some err)
     | None \<Rightarrow> do {
         err \<leftarrow> ss_RevokeAllForUser sessions userID;
         _ \<leftarrow> (case err of
                None \<Rightarrow> State_Monad.return ()
              | Some err \<Rightarrow> lg_Error log ''change password: session revocation failed''
                  [(''error'', error_Error err), (''user_id'', userID)]);
         err \<leftarrow> as_Record audit (new_AuditEvent EventPasswordChanged userID [] None);
         _ \<leftarrow> (case err of
                None \<Rightarrow> State_Monad.return ()
              | Some err \<Rightarrow> lg_Error log ''change password: audit record failed''
                  [(''error'', error_Error err), (''user_id'', userID)]);
         _ \<leftarrow> lg_Info log ''change password: completed'' [(''user_id'', userID)];
         State_Monad.return None
       }
   }"

definition ChangePassword ::
  "'db world UserStore \<Rightarrow> 'db world SessionStore \<Rightarrow> 'db world Hasher \<Rightarrow> 'db world AuditStore \<Rightarrow>
   'db world Logger \<Rightarrow> string \<Rightarrow> string \<Rightarrow> string \<Rightarrow> ('db world, error option) state" where
  "ChangePassword users sessions hasher audit log userID currentPassword newPassword = do {
     newHash \<leftarrow> password_hash users hasher log userID currentPassword newPassword;
     case newHash of
       Inl err \<Rightarrow> State_Monad.return (Some err)
     | Inr newHash \<Rightarrow> password_update users sessions audit log userID newHash
   }"

text \<open>The deletion of an account, below the check and with it.\<close>

definition delete_confirmed ::
  "'db world UserStore \<Rightarrow> 'db world SessionStore \<Rightarrow> 'db world AuditStore \<Rightarrow> 'db world Logger \<Rightarrow> string \<Rightarrow>
   ('db world, error option) state" where
  "delete_confirmed users sessions audit log userID = do {
     err \<leftarrow> ss_RevokeAllForUser sessions userID;
     _ \<leftarrow> (case err of
            None \<Rightarrow> State_Monad.return ()
          | Some err \<Rightarrow> lg_Error log ''delete account: session revocation failed''
              [(''error'', error_Error err), (''user_id'', userID)]);
     err \<leftarrow> as_Record audit (new_AuditEvent EventAccountDeleted userID [] None);
     _ \<leftarrow> (case err of
            None \<Rightarrow> State_Monad.return ()
          | Some err \<Rightarrow> lg_Error log ''delete account: audit record failed''
              [(''error'', error_Error err), (''user_id'', userID)]);
     err \<leftarrow> us_Delete users userID;
     case err of
       Some err \<Rightarrow> State_Monad.return (Some err)
     | None \<Rightarrow> do {
         _ \<leftarrow> lg_Info log ''account deleted'' [(''user_id'', userID)];
         State_Monad.return None
       }
   }"

definition DeleteAccount ::
  "'db world UserStore \<Rightarrow> 'db world SessionStore \<Rightarrow> 'db world Hasher \<Rightarrow> 'db world AuditStore \<Rightarrow>
   'db world Logger \<Rightarrow> string \<Rightarrow> string \<Rightarrow> ('db world, error option) state" where
  "DeleteAccount users sessions hasher audit log userID currentPassword = do {
     err \<leftarrow> reconfirm users hasher log ''delete account: password mismatch'' userID currentPassword;
     case err of
       Some err \<Rightarrow> State_Monad.return (Some err)
     | None \<Rightarrow> delete_confirmed users sessions audit log userID
   }"

lemmas account_unfold = ChangePassword_def password_hash_def DeleteAccount_def reconfirm_def bind_simps

section \<open>What the calls promise\<close>

definition all_revoked :: "error set \<Rightarrow> string \<Rightarrow> dbview \<Rightarrow> dbview \<Rightarrow> bool" where
  "all_revoked F userID v v' \<longleftrightarrow>
     (\<exists>t. v' = v\<lparr>v_sessions := revoke_where (\<lambda>s. s_UserID s = userID) t (v_sessions v)\<rparr>) \<or> F \<noteq> {} \<and> v' = v"

text \<open>
  The guard the two operations share: an unknown user or a wrong password ends the call with the
  backend as it was.
\<close>

definition reconfirm_refused ::
  "error set \<Rightarrow> (externals \<Rightarrow> string \<Rightarrow> string \<Rightarrow> bool) \<Rightarrow> string \<Rightarrow> string \<Rightarrow> externals \<Rightarrow> dbview \<Rightarrow>
   error option \<Rightarrow> dbview \<Rightarrow> bool" where
  "reconfirm_refused F matches userID password x v r v' \<longleftrightarrow> v' = v \<and>
     ((\<exists>e \<in> insert ErrNotFound F. r = Some e \<and> (F \<noteq> {} \<or> v_users v userID = None)) \<or>
      (\<exists>u. v_users v userID = Some u \<and> \<not> matches x (u_PasswordHash u) password \<and> r = Some ErrInvalidCredentials))"

definition ChangePassword_spec where
  "ChangePassword_spec F matches sound hash_fails userID current new x v r v' \<longleftrightarrow>
     reconfirm_refused F matches userID current x v r v' \<or>
     (\<exists>u. v_users v userID = Some u \<and> u_ID u = userID \<and> matches x (u_PasswordHash u) current \<and>
        ((\<exists>e. r = Some e \<and> v' = v \<and> (hash_fails x new e \<or> e \<in> F)) \<or>
         (\<exists>hash t v1. r = None \<and> (sound x \<longrightarrow> matches x hash new) \<and>
            all_revoked F userID (put_user (u\<lparr>u_PasswordHash := hash, u_UpdatedAt := t\<rparr>) v) v1 \<and>
            audited F (new_AuditEvent EventPasswordChanged userID [] None) v1 v')))"

definition DeleteAccount_spec where
  "DeleteAccount_spec F matches userID current x v r v' \<longleftrightarrow>
     reconfirm_refused F matches userID current x v r v' \<or>
     (\<exists>u v1 v2. v_users v userID = Some u \<and> matches x (u_PasswordHash u) current \<and>
        all_revoked F userID v v1 \<and> audited F (new_AuditEvent EventAccountDeleted userID [] None) v1 v2 \<and>
        (r = None \<and> user_Delete_spec F userID v2 None v' \<or> (\<exists>e \<in> F. r = Some e \<and> v' = v2)))"

lemma ChangePassword_specI:
  assumes "all_revoked F userID vp v1" and "audited F (new_AuditEvent EventPasswordChanged userID [] None) v1 v'"
    and "v_users v userID = Some u" and "u_ID u = userID" and "matches x (u_PasswordHash u) current"
    and "sound x \<longrightarrow> matches x hash new"
    and "user_update_spec F userID (\<lambda>u u'. \<exists>t. u' = u\<lparr>u_PasswordHash := hash, u_UpdatedAt := t\<rparr>) v None vp"
  shows "ChangePassword_spec F matches sound hash_fails userID current new x v None v'"
proof -
  from assms(3,4,7) obtain t where "vp = put_user (u\<lparr>u_PasswordHash := hash, u_UpdatedAt := t\<rparr>) v"
    by (auto simp: user_update_spec_def fault_option_def put_user_def)
  with assms(1-6) show ?thesis unfolding ChangePassword_spec_def by blast
qed

lemma ChangePassword_failI:
  assumes "v_users v userID = Some u" and "u_ID u = userID" and "matches x (u_PasswordHash u) current"
    and "v' = v \<and> hash_fails x new e \<or> user_update_spec F userID P v (Some e) v'"
  shows "ChangePassword_spec F matches sound hash_fails userID current new x v (Some e) v'"
  using assms by (auto simp: ChangePassword_spec_def user_update_spec_def fault_option_def)

lemma DeleteAccount_specI:
  assumes "all_revoked F userID v v1" and "audited F (new_AuditEvent EventAccountDeleted userID [] None) v1 v2"
    and "v_users v userID = Some u" and "matches x (u_PasswordHash u) current"
    and "user_Delete_spec F userID v2 r v'" and "v_users v2 = v_users v"
  shows "DeleteAccount_spec F matches userID current x v r v'"
  unfolding DeleteAccount_spec_def
  using assms by (intro disjI2 exI [of _ u] exI [of _ v1] exI [of _ v2])
    (auto simp: user_Delete_spec_def fault_option_def)

lemma GetByID_found:
  "user_GetByID_spec F i v (Inr u) v' \<Longrightarrow> v' = v \<and> v_users v i = Some u \<and> u_ID u = i"
  by (simp add: user_GetByID_spec_def)

locale accounts =
  user_store invar view faults users stamp + session_store invar view faults sessions +
  audit_log invar view faults audit log + password_hasher hasher matches sound hash_fails
  for invar :: "'db \<Rightarrow> bool" and view :: "'db \<Rightarrow> dbview" and faults :: "error set"
    and users :: "'db world UserStore" and stamp :: "Time \<Rightarrow> Time" and sessions :: "'db world SessionStore"
    and audit :: "'db world AuditStore" and log :: "'db world Logger"
    and hasher :: "'db world Hasher" and matches and sound and hash_fails
begin

lemma wp_revoke_all:
  assumes "invar (w_db w)"
    and "\<And>w'. invar (w_db w') \<Longrightarrow> w_limiter w' = w_limiter w \<Longrightarrow> w_outbox w' = w_outbox w \<Longrightarrow>
      w_ext w' = w_ext w \<Longrightarrow> w_tick w \<le> w_tick w' \<Longrightarrow>
      all_revoked faults uid (view (w_db w)) (view (w_db w')) \<Longrightarrow>
      v_users (view (w_db w')) = v_users (view (w_db w)) \<Longrightarrow> wp k Q w'"
  shows "wp (State_Monad.bind (ss_RevokeAllForUser sessions uid) (\<lambda>r.
      State_Monad.bind (case r of None \<Rightarrow> State_Monad.return () | Some err \<Rightarrow> lg_Error log msg (f err))
        (\<lambda>_. k))) Q w"
  by (intro wp_bind wp_sessions wp_case_option wp_return wp_log assms)
    (auto simp: assms(1) all_revoked_def session_RevokeWhere_spec_def fault_option_def)

lemma ChangePassword_meets:
  "engine_op invar view (ChangePassword users sessions hasher audit log uid current new)
     (\<lambda>x k k'. ChangePassword_spec faults matches sound hash_fails uid current new x)"
  unfolding account_unfold
  unfolding password_update_def
  apply (rule engine_opI, (intro wp_audited wp_revoke_all wp_intros; simp))
      apply (auto simp: ChangePassword_spec_def reconfirm_refused_def user_GetByID_spec_def) [1]
     apply (auto dest!: GetByID_found intro: ChangePassword_failI) [1]
    apply (auto dest!: GetByID_found elim: ChangePassword_specI) [1]
   apply (auto dest!: GetByID_found intro: ChangePassword_failI) [1]
  apply (auto simp: ChangePassword_spec_def reconfirm_refused_def user_GetByID_spec_def) [1]
  done

lemma DeleteAccount_meets:
  "engine_op invar view (DeleteAccount users sessions hasher audit log uid current)
     (\<lambda>x k k'. DeleteAccount_spec faults matches uid current x)"
  unfolding account_unfold
  unfolding delete_confirmed_def
  apply (rule engine_opI, (intro wp_audited wp_revoke_all wp_intros; simp))
     apply (auto simp: DeleteAccount_spec_def reconfirm_refused_def user_GetByID_spec_def) [1]
    apply (auto dest!: GetByID_found elim!: DeleteAccount_specI) [2]
  apply (auto simp: DeleteAccount_spec_def reconfirm_refused_def user_GetByID_spec_def) [1]
  done

end

end
