(* ===== verification/Auth_Logout.thy ===== *)
theory Auth_Logout
  imports Store
begin

text \<open>
  \<open>auth/logout.go\<close> and \<open>session/session.go\<close>: ending sessions and listing them. \<open>Logout\<close> and \<open>Revoke\<close>
  share their promise up to the event they record.
\<close>

section \<open>The programs\<close>

text \<open>
  The check that a session belongs to the user, and its end. The two functions differ in their
  messages and in the event they record.
\<close>

definition owned_session ::
  "'db world SessionStore \<Rightarrow> 'db world Logger \<Rightarrow> string \<Rightarrow> string \<Rightarrow> string \<Rightarrow> ('db world, error option) state" where
  "owned_session sessions log mismatch sessionID userID = do {
     session \<leftarrow> ss_GetByID sessions sessionID;
     case session of
       Inl err \<Rightarrow> State_Monad.return (Some err)
     | Inr session \<Rightarrow>
         if s_UserID session \<noteq> userID then do {
           _ \<leftarrow> lg_Warn log mismatch [(''session_id'', sessionID), (''requesting_user'', userID)];
           State_Monad.return (Some ErrSessionNotOwned)
         } else State_Monad.return None
   }"

definition end_session ::
  "'db world SessionStore \<Rightarrow> 'db world AuditStore \<Rightarrow> 'db world Logger \<Rightarrow> AuditEvent \<Rightarrow> string \<Rightarrow> string \<Rightarrow>
   string \<Rightarrow> string \<Rightarrow> ('db world, error option) state" where
  "end_session sessions audit log event unrecorded completed sessionID userID = do {
     err \<leftarrow> ss_Revoke sessions sessionID;
     case err of
       Some err \<Rightarrow> State_Monad.return (Some err)
     | None \<Rightarrow> do {
         err \<leftarrow> as_Record audit event;
         _ \<leftarrow> (case err of
                None \<Rightarrow> State_Monad.return ()
              | Some err \<Rightarrow> lg_Error log unrecorded [(''error'', error_Error err), (''user_id'', userID)]);
         _ \<leftarrow> lg_Info log completed [(''user_id'', userID), (''session_id'', sessionID)];
         State_Monad.return None
       }
   }"

definition logout_end ::
  "'db world SessionStore \<Rightarrow> 'db world AuditStore \<Rightarrow> 'db world Logger \<Rightarrow> string \<Rightarrow> string \<Rightarrow>
   ('db world, error option) state" where
  "logout_end sessions audit log sessionID userID =
     end_session sessions audit log (new_AuditEvent EventLogout userID [] None)
       ''logout: audit record failed'' ''logout: completed'' sessionID userID"

definition Logout ::
  "'db world SessionStore \<Rightarrow> 'db world AuditStore \<Rightarrow> 'db world Logger \<Rightarrow> string \<Rightarrow> string \<Rightarrow>
   ('db world, error option) state" where
  "Logout sessions audit log sessionID userID = do {
     err \<leftarrow> owned_session sessions log ''logout: ownership mismatch attempt'' sessionID userID;
     case err of
       Some err \<Rightarrow> State_Monad.return (Some err)
     | None \<Rightarrow> logout_end sessions audit log sessionID userID
   }"

definition LogoutAll ::
  "'db world SessionStore \<Rightarrow> 'db world AuditStore \<Rightarrow> 'db world Logger \<Rightarrow> string \<Rightarrow>
   ('db world, error option) state" where
  "LogoutAll sessions audit log userID = do {
     err \<leftarrow> ss_RevokeAllForUser sessions userID;
     case err of
       Some err \<Rightarrow> State_Monad.return (Some err)
     | None \<Rightarrow> do {
         err \<leftarrow> as_Record audit (new_AuditEvent EventLogoutAll userID [] None);
         _ \<leftarrow> (case err of
                None \<Rightarrow> State_Monad.return ()
              | Some err \<Rightarrow> lg_Error log ''logout_all: audit record failed''
                  [(''error'', error_Error err), (''user_id'', userID)]);
         _ \<leftarrow> lg_Info log ''logout_all: completed'' [(''user_id'', userID)];
         State_Monad.return None
       }
   }"

definition session_List ::
  "'db world SessionStore \<Rightarrow> string \<Rightarrow> ('db world, error + Session list) state" where
  "session_List sessions userID = ss_ListByUser sessions userID"

definition revoke_end ::
  "'db world SessionStore \<Rightarrow> 'db world AuditStore \<Rightarrow> 'db world Logger \<Rightarrow> string \<Rightarrow> string \<Rightarrow>
   ('db world, error option) state" where
  "revoke_end sessions audit log sessionID userID =
     end_session sessions audit log (new_AuditEvent EventSessionRevoked userID [] (Some [(''session_id'', sessionID)]))
       ''session revoke: audit record failed'' ''session revoke: completed'' sessionID userID"

definition session_Revoke ::
  "'db world SessionStore \<Rightarrow> 'db world AuditStore \<Rightarrow> 'db world Logger \<Rightarrow> string \<Rightarrow> string \<Rightarrow>
   ('db world, error option) state" where
  "session_Revoke sessions audit log sessionID userID = do {
     err \<leftarrow> owned_session sessions log ''session revoke: ownership mismatch attempt'' sessionID userID;
     case err of
       Some err \<Rightarrow> State_Monad.return (Some err)
     | None \<Rightarrow> revoke_end sessions audit log sessionID userID
   }"

lemmas logout_unfold = Logout_def session_Revoke_def owned_session_def bind_simps

section \<open>What the calls promise\<close>

text \<open>
  The session is stamped only when it belongs to the caller; in every other case the call returns an
  error and the backend is as before.
\<close>

definition end_session_spec ::
  "error set \<Rightarrow> AuditEvent \<Rightarrow> string \<Rightarrow> string \<Rightarrow> dbview \<Rightarrow> error option \<Rightarrow> dbview \<Rightarrow> bool" where
  "end_session_spec F event sessionID userID v r v' \<longleftrightarrow>
     (case r of
        Some e \<Rightarrow> v' = v \<and>
          (e \<in> F \<or>
           e = ErrNotFound \<and> (\<forall>s. v_sessions v sessionID = Some s \<longrightarrow> s_UserID s = userID \<and> s_RevokedAt s \<noteq> None) \<or>
           e = ErrSessionNotOwned \<and> (\<exists>s. v_sessions v sessionID = Some s \<and> s_UserID s \<noteq> userID))
      | None \<Rightarrow> (\<exists>s t. v_sessions v sessionID = Some s \<and> s_UserID s = userID \<and>
          audited F event (v\<lparr>v_sessions := (v_sessions v)(sessionID \<mapsto> s\<lparr>s_RevokedAt := Some t\<rparr>)\<rparr>) v'))"

definition LogoutAll_spec :: "error set \<Rightarrow> string \<Rightarrow> dbview \<Rightarrow> error option \<Rightarrow> dbview \<Rightarrow> bool" where
  "LogoutAll_spec F userID v r v' \<longleftrightarrow>
     (case r of
        Some e \<Rightarrow> e \<in> F \<and> v' = v
      | None \<Rightarrow> (\<exists>t. audited F (new_AuditEvent EventLogoutAll userID [] None)
          (v\<lparr>v_sessions := revoke_where (\<lambda>s. s_UserID s = userID) t (v_sessions v)\<rparr>) v'))"

locale session_control =
  session_store invar view faults sessions + audit_log invar view faults audit log
  for invar :: "'db \<Rightarrow> bool" and view :: "'db \<Rightarrow> dbview" and faults :: "error set"
    and sessions :: "'db world SessionStore" and audit :: "'db world AuditStore"
    and log :: "'db world Logger"
begin

lemma Logout_meets:
  "engine_op invar view (Logout sessions audit log i uid)
     (\<lambda>x k k'. end_session_spec faults (new_AuditEvent EventLogout uid [] None) i uid)"
  unfolding logout_unfold
  unfolding logout_end_def revoke_end_def end_session_def
  by (rule engine_opI, (intro wp_audited wp_intros; simp))
    (auto simp: end_session_spec_def spec_defs)

lemma session_Revoke_meets:
  "engine_op invar view (Auth_Logout.session_Revoke sessions audit log i uid)
     (\<lambda>x k k'. end_session_spec faults
        (new_AuditEvent EventSessionRevoked uid [] (Some [(''session_id'', i)])) i uid)"
  unfolding logout_unfold
  unfolding logout_end_def revoke_end_def end_session_def
  by (rule engine_opI, (intro wp_audited wp_intros; simp))
    (auto simp: end_session_spec_def spec_defs)

lemma LogoutAll_meets:
  "engine_op invar view (LogoutAll sessions audit log uid) (\<lambda>x k k'. LogoutAll_spec faults uid)"
  unfolding LogoutAll_def
  by (rule engine_opI, (intro wp_audited wp_intros; simp))
    (auto simp: LogoutAll_spec_def spec_defs)

lemma session_List_meets:
  "engine_op invar view (session_List sessions uid) (\<lambda>x k k'. session_ListByUser_spec faults uid)"
  unfolding session_List_def by (rule engine_opI, intro wp_intros) auto

end

end
