(* ===== verification/Auth_Email.thy ===== *)
theory Auth_Email
  imports Auth_Signup Token
begin

text \<open>
  \<open>notify/email_sender.go\<close> and \<open>auth/email.go\<close>: the two halves of an email change. The sender is
  code of the application, so it is an interface with a contract: a delivery goes to the outbox, a
  failed one does not, and the engine's own state is not touched either way.
\<close>

section \<open>The email sender\<close>

record 'w EmailSender =
  es_SendVerification :: "string \<Rightarrow> string \<Rightarrow> ('w, error option) state"

definition delivered :: "error option \<Rightarrow> string \<Rightarrow> string \<Rightarrow> (string \<times> string) list" where
  "delivered r to tok = (if r = None then [(to, tok)] else [])"

locale email_sender =
  fixes sender :: "'db world EmailSender" and rejections :: "error set"
  assumes Send_frame: "run_state (es_SendVerification sender to tok) w = (r, w') \<Longrightarrow>
      w_db w' = w_db w \<and> w_limiter w' = w_limiter w \<and> w_ext w' = w_ext w \<and> w_tick w \<le> w_tick w'"
    and Send_outbox: "run_state (es_SendVerification sender to tok) w = (r, w') \<Longrightarrow>
      w_outbox w' = w_outbox w @ delivered r to tok"
    and Send_error: "run_state (es_SendVerification sender to tok) w = (Some e, w') \<Longrightarrow> e \<in> rejections"
begin

lemma wp_Send [wp_intros]:
  assumes "\<And>r w'. w_db w' = w_db w \<Longrightarrow> w_limiter w' = w_limiter w \<Longrightarrow>
    w_outbox w' = w_outbox w @ delivered r to tok \<Longrightarrow> w_ext w' = w_ext w \<Longrightarrow> w_tick w \<le> w_tick w' \<Longrightarrow>
    (\<forall>e. r = Some e \<longrightarrow> e \<in> rejections) \<Longrightarrow> Q r w'"
  shows "wp (es_SendVerification sender to tok) Q w"
  by (rule wpI, rule assms) (auto dest: Send_frame Send_outbox Send_error)

end

text \<open>
  The senders of applications: a mail provider whose answers the program does not determine
  (\<open>provider\<close>, by draw), and which keeps what it accepted.
\<close>

definition app_EmailSender :: "(nat \<Rightarrow> string \<Rightarrow> string \<Rightarrow> error option) \<Rightarrow> 'db world EmailSender" where
  "app_EmailSender provider = \<lparr>es_SendVerification = (\<lambda>to tok. State (\<lambda>w.
     let r = provider (w_tick w) to tok
     in (r, w\<lparr>w_tick := Suc (w_tick w), w_outbox := w_outbox w @ delivered r to tok\<rparr>)))\<rparr>"

definition provider_rejections :: "(nat \<Rightarrow> string \<Rightarrow> string \<Rightarrow> error option) \<Rightarrow> error set" where
  "provider_rejections provider = {e. \<exists>k to tok. provider k to tok = Some e}"

interpretation app_sender: email_sender "app_EmailSender provider" "provider_rejections provider"
  by unfold_locales (auto simp: app_EmailSender_def Let_def provider_rejections_def)

section \<open>The programs\<close>

definition changeEmailTokenTTL :: Duration where
  "changeEmailTokenTTL = 1 * time_Hour"

text \<open>A request: what follows when the address is free, and the function.\<close>

definition email_request ::
  "'db world VerificationStore \<Rightarrow> 'db world EmailSender \<Rightarrow> 'db world TokenGenerator \<Rightarrow>
   'db world IDGenerator \<Rightarrow> 'db world AuditStore \<Rightarrow> 'db world Logger \<Rightarrow> string \<Rightarrow> string \<Rightarrow>
   ('db world, error option) state" where
  "email_request verifications sender tokenGen ids audit log userID newEmail = do {
     rawToken \<leftarrow> tg_New tokenGen;
     case rawToken of
       Inl err \<Rightarrow> State_Monad.return (Some err)
     | Inr rawToken \<Rightarrow> do {
         vtID \<leftarrow> ig_New ids;
         case vtID of
           Inl err \<Rightarrow> State_Monad.return (Some err)
         | Inr vtID \<Rightarrow> do {
             now \<leftarrow> time_Now;
             let vt = \<lparr>vt_ID = vtID, vt_UserID = userID, vt_Purpose = PurposeEmailChange,
                   vt_TokenHash = HashToken rawToken, vt_NewEmail = newEmail,
                   vt_ExpiresAt = now + changeEmailTokenTTL, vt_UsedAt = None,
                   vt_CreatedAt = time_zero\<rparr>;
             err \<leftarrow> vs_Create verifications vt;
             case err of
               Some err \<Rightarrow> State_Monad.return (Some err)
             | None \<Rightarrow> do {
                 err \<leftarrow> es_SendVerification sender newEmail rawToken;
                 case err of
                   Some err \<Rightarrow> State_Monad.return (Some err)
                 | None \<Rightarrow> do {
                     err \<leftarrow> as_Record audit (new_AuditEvent EventEmailChangeRequested userID [] None);
                     _ \<leftarrow> (case err of
                            None \<Rightarrow> State_Monad.return ()
                          | Some err \<Rightarrow> lg_Error log ''email change request: audit record failed''
                              [(''error'', error_Error err), (''user_id'', userID)]);
                     _ \<leftarrow> lg_Info log ''email change requested'' [(''user_id'', userID)];
                     State_Monad.return None
                   }
               }
           }
       }
   }"

definition RequestEmailChange ::
  "'db world UserStore \<Rightarrow> 'db world VerificationStore \<Rightarrow> 'db world EmailSender \<Rightarrow> 'db world TokenGenerator \<Rightarrow>
   'db world IDGenerator \<Rightarrow> 'db world AuditStore \<Rightarrow> 'db world Logger \<Rightarrow> string \<Rightarrow> string \<Rightarrow>
   ('db world, error option) state" where
  "RequestEmailChange users verifications sender tokenGen ids audit log userID newEmail = do {
     existing \<leftarrow> us_GetByEmail users newEmail;
     case existing of
       Inr _ \<Rightarrow> State_Monad.return (Some ErrUserExists)
     | Inl _ \<Rightarrow> email_request verifications sender tokenGen ids audit log userID newEmail
   }"

text \<open>A confirmation: the checks of the token, what a valid token does, and the function.\<close>

definition email_token ::
  "'db world VerificationStore \<Rightarrow> string \<Rightarrow> ('db world, error + VerificationToken) state" where
  "email_token verifications rawToken = do {
     found \<leftarrow> vs_GetByTokenHash verifications (HashToken rawToken);
     case found of
       Inl _ \<Rightarrow> State_Monad.return (Inl ErrVerificationTokenInvalid)
     | Inr vt \<Rightarrow>
         if vt_Purpose vt \<noteq> PurposeEmailChange then State_Monad.return (Inl ErrVerificationTokenInvalid)
         else if vt_UsedAt vt \<noteq> None then State_Monad.return (Inl ErrVerificationTokenInvalid)
         else do {
           now \<leftarrow> time_Now;
           if vt_ExpiresAt vt < now then State_Monad.return (Inl ErrVerificationTokenExpired)
           else State_Monad.return (Inr vt)
         }
   }"

definition email_update ::
  "'db world UserStore \<Rightarrow> 'db world VerificationStore \<Rightarrow> 'db world AuditStore \<Rightarrow> 'db world Logger \<Rightarrow>
   VerificationToken \<Rightarrow> ('db world, error option) state" where
  "email_update users verifications audit log vt = do {
     err \<leftarrow> us_UpdateEmail users (vt_UserID vt) (vt_NewEmail vt);
     case err of
       Some err \<Rightarrow> State_Monad.return (Some err)
     | None \<Rightarrow> do {
         err \<leftarrow> vs_MarkUsed verifications (vt_ID vt);
         _ \<leftarrow> (case err of
                None \<Rightarrow> State_Monad.return ()
              | Some err \<Rightarrow> lg_Error log ''confirm email change: mark-used failed''
                  [(''error'', error_Error err), (''user_id'', vt_UserID vt)]);
         err \<leftarrow> as_Record audit (new_AuditEvent EventEmailChanged (vt_UserID vt) [] None);
         _ \<leftarrow> (case err of
                None \<Rightarrow> State_Monad.return ()
              | Some err \<Rightarrow> lg_Error log ''confirm email change: audit record failed''
                  [(''error'', error_Error err), (''user_id'', vt_UserID vt)]);
         _ \<leftarrow> lg_Info log ''email change confirmed'' [(''user_id'', vt_UserID vt)];
         State_Monad.return None
       }
   }"

definition ConfirmEmailChange ::
  "'db world UserStore \<Rightarrow> 'db world VerificationStore \<Rightarrow> 'db world AuditStore \<Rightarrow> 'db world Logger \<Rightarrow>
   string \<Rightarrow> ('db world, error option) state" where
  "ConfirmEmailChange users verifications audit log rawToken = do {
     vt \<leftarrow> email_token verifications rawToken;
     case vt of
       Inl err \<Rightarrow> State_Monad.return (Some err)
     | Inr vt \<Rightarrow> email_update users verifications audit log vt
   }"

lemmas email_unfold = ConfirmEmailChange_def email_token_def bind_simps

section \<open>What the calls promise\<close>

definition put_verif :: "VerificationToken \<Rightarrow> dbview \<Rightarrow> dbview" where
  "put_verif vt v = v\<lparr>v_verifs := (v_verifs v)(vt_ID vt \<mapsto> vt)\<rparr>"

definition email_change_token :: "string \<Rightarrow> string \<Rightarrow> string \<Rightarrow> string \<Rightarrow> Time \<Rightarrow> Time \<Rightarrow> VerificationToken" where
  "email_change_token i userID raw newEmail expires created =
     \<lparr>vt_ID = i, vt_UserID = userID, vt_Purpose = PurposeEmailChange, vt_TokenHash = HashToken raw,
      vt_NewEmail = newEmail, vt_ExpiresAt = expires, vt_UsedAt = None, vt_CreatedAt = created\<rparr>"

lemma email_change_token_unused [simp]: "vt_UsedAt (email_change_token i u raw e x c) = None"
  by (simp add: email_change_token_def)

text \<open>
  A request is refused for a taken address and when a source or the backend fails; otherwise it stores
  one verification token, drawn during the call, and hands exactly that token to the new address. It
  never touches users or sessions. \<open>mails\<close> are the messages sent; the token stays stored when the
  sender fails.
\<close>

definition RequestEmailChange_spec where
  "RequestEmailChange_spec F st R d_id d_tok userID newEmail x k k' v r v' mails \<longleftrightarrow>
     (v' = v \<and> mails = [] \<and>
        (r = Some ErrUserExists \<and> email_taken v newEmail \<or>
         (\<exists>e. r = Some e \<and> (e \<in> F \<or>
            (F \<noteq> {} \<or> \<not> email_taken v newEmail) \<and> (failed_between d_id x k k' e \<or> failed_between d_tok x k k' e))))) \<or>
     (F \<noteq> {} \<or> \<not> email_taken v newEmail) \<and>
     (\<exists>i raw n t. drawn_between d_id x k k' i \<and> drawn_between d_tok x k k' raw \<and> k \<le> n \<and> n < k' \<and>
        mails = delivered r newEmail raw \<and>
        (if r = None
         then audited F (new_AuditEvent EventEmailChangeRequested userID [] None)
           (put_verif (email_change_token i userID raw newEmail (st (ext_now x n + changeEmailTokenTTL)) t) v) v'
         else r \<in> Some ` R \<and>
           v' = put_verif (email_change_token i userID raw newEmail (st (ext_now x n + changeEmailTokenTTL)) t) v))"

text \<open>
  A confirmation that succeeds found an unused, unexpired email-change token with this hash; it sets
  the address of the token's user and marks the token used.
\<close>

definition stored_verif :: "dbview \<Rightarrow> string \<Rightarrow> VerificationToken \<Rightarrow> bool" where
  "stored_verif v raw vt \<longleftrightarrow> v_verifs v (vt_ID vt) = Some vt \<and> vt_TokenHash vt = HashToken raw"

definition confirm_refused ::
  "error set \<Rightarrow> string \<Rightarrow> externals \<Rightarrow> nat \<Rightarrow> nat \<Rightarrow> dbview \<Rightarrow> error option \<Rightarrow> dbview \<Rightarrow> bool" where
  "confirm_refused F raw x k k' v r v' \<longleftrightarrow> v' = v \<and>
     (r = Some ErrVerificationTokenInvalid \<and>
        (F \<noteq> {} \<or> (\<forall>i vt. v_verifs v i = Some vt \<longrightarrow> vt_TokenHash vt \<noteq> HashToken raw)) \<or>
      (\<exists>vt. stored_verif v raw vt \<and>
         (r = Some ErrVerificationTokenInvalid \<and> (vt_Purpose vt \<noteq> PurposeEmailChange \<or> vt_UsedAt vt \<noteq> None) \<or>
          vt_Purpose vt = PurposeEmailChange \<and> vt_UsedAt vt = None \<and>
            (\<exists>n. k \<le> n \<and> n < k' \<and>
               (r = Some ErrVerificationTokenExpired \<and> vt_ExpiresAt vt < ext_now x n \<or>
                ext_now x n \<le> vt_ExpiresAt vt \<and>
                  (r = Some ErrNotFound \<and> v_users v (vt_UserID vt) = None \<or> (\<exists>e \<in> F. r = Some e)))))))"

definition marked_used :: "error set \<Rightarrow> VerificationToken \<Rightarrow> dbview \<Rightarrow> dbview \<Rightarrow> bool" where
  "marked_used F vt v v' \<longleftrightarrow> (\<exists>t. v' = put_verif (vt\<lparr>vt_UsedAt := Some t\<rparr>) v) \<or> F \<noteq> {} \<and> v' = v"

definition ConfirmEmailChange_spec where
  "ConfirmEmailChange_spec F raw x k k' v r v' \<longleftrightarrow>
     confirm_refused F raw x k k' v r v' \<or>
     r = None \<and> (\<exists>vt u n t v1. stored_verif v raw vt \<and> vt_Purpose vt = PurposeEmailChange \<and> vt_UsedAt vt = None \<and>
        k \<le> n \<and> n < k' \<and> ext_now x n \<le> vt_ExpiresAt vt \<and> v_users v (vt_UserID vt) = Some u \<and>
        marked_used F vt
          (v\<lparr>v_users := (v_users v)(vt_UserID vt \<mapsto> u\<lparr>u_Email := vt_NewEmail vt, u_UpdatedAt := t\<rparr>)\<rparr>) v1 \<and>
        audited F (new_AuditEvent EventEmailChanged (vt_UserID vt) [] None) v1 v')"

lemma RequestEmailChange_okI:
  assumes "drawn_between d_id x k k' i" and "drawn_between d_tok x k k' raw" and "k \<le> n" and "n < k'"
    and "F \<noteq> {} \<or> \<not> email_taken v newEmail"
    and "verif_Create_spec F st (email_change_token i userID raw newEmail (ext_now x n + changeEmailTokenTTL) t0) v None v1"
    and "if r = None then audited F (new_AuditEvent EventEmailChangeRequested userID [] None) v1 v'
      else v' = v1 \<and> r \<in> Some ` R"
  shows "RequestEmailChange_spec F st R d_id d_tok userID newEmail x k k' v r v' (delivered r newEmail raw)"
proof -
  from assms(6) obtain t where
    v1: "v1 = put_verif (email_change_token i userID raw newEmail (st (ext_now x n + changeEmailTokenTTL)) t) v"
    by (auto simp: verif_Create_spec_def fault_option_def put_verif_def email_change_token_def)
  show ?thesis
    unfolding RequestEmailChange_spec_def
    by (rule disjI2, rule conjI [OF assms(5)], rule exI [of _ i], rule exI [of _ raw], rule exI [of _ n], rule exI [of _ t])
      (use assms v1 in \<open>auto split: if_splits\<close>)
qed

lemma RequestEmailChange_failI:
  assumes "F \<noteq> {} \<or> \<not> email_taken v newEmail" and "k \<le> j" and "j' \<le> k'"
  shows "failed_between d_id x j j' e \<Longrightarrow> RequestEmailChange_spec F st R d_id d_tok userID newEmail x k k' v (Some e) v []"
    and "failed_between d_tok x j j' e \<Longrightarrow> RequestEmailChange_spec F st R d_id d_tok userID newEmail x k k' v (Some e) v []"
  unfolding RequestEmailChange_spec_def using assms(1) failed_between_mono [OF _ assms(2,3)] by blast+

lemma GetByEmail_free:
  "user_GetByEmail_spec F email v (Inl e) v' \<Longrightarrow> v' = v \<and> (F \<noteq> {} \<or> \<not> email_taken v email)"
  "user_GetByEmail_spec F email v (Inr u) v' \<Longrightarrow> v' = v \<and> email_taken v email"
  by (auto simp: user_GetByEmail_spec_def email_taken_def)

lemma verif_found:
  "verif_GetByTokenHash_spec F (HashToken raw) v (Inr vt) v' \<Longrightarrow>
     v' = v \<and> stored_verif v raw vt \<and> v_verifs v (vt_ID vt) = Some vt"
  by (simp add: verif_GetByTokenHash_spec_def stored_verif_def)

lemma confirm_refusedI:
  assumes "stored_verif v raw vt"
  shows "vt_Purpose vt \<noteq> PurposeEmailChange \<Longrightarrow>
      ConfirmEmailChange_spec F raw x k k' v (Some ErrVerificationTokenInvalid) v"
    and "vt_UsedAt vt = Some t \<Longrightarrow>
      ConfirmEmailChange_spec F raw x k k' v (Some ErrVerificationTokenInvalid) v"
    and "vt_Purpose vt = PurposeEmailChange \<Longrightarrow> vt_UsedAt vt = None \<Longrightarrow> vt_ExpiresAt vt < ext_now x n \<Longrightarrow>
      k \<le> n \<Longrightarrow> n < k' \<Longrightarrow> ConfirmEmailChange_spec F raw x k k' v (Some ErrVerificationTokenExpired) v"
    and "vt_Purpose vt = PurposeEmailChange \<Longrightarrow> vt_UsedAt vt = None \<Longrightarrow> ext_now x n \<le> vt_ExpiresAt vt \<Longrightarrow>
      k \<le> n \<Longrightarrow> n < k' \<Longrightarrow> user_update_spec F (vt_UserID vt) P v (Some e) v' \<Longrightarrow>
      ConfirmEmailChange_spec F raw x k k' v (Some e) v'"
  using assms
  by (auto simp: ConfirmEmailChange_spec_def confirm_refused_def user_update_spec_def fault_option_def)

lemma ConfirmEmailChange_okI:
  assumes "stored_verif v raw vt" and "marked_used F vt v1 v2"
    and "audited F (new_AuditEvent EventEmailChanged (vt_UserID vt) [] None) v2 v'"
    and "user_update_spec F (vt_UserID vt) (\<lambda>u u'. \<exists>t. u' = u\<lparr>u_Email := vt_NewEmail vt, u_UpdatedAt := t\<rparr>) v None v1"
    and "vt_Purpose vt = PurposeEmailChange" and "vt_UsedAt vt = None"
    and "k \<le> n" and "n < k'" and "ext_now x n \<le> vt_ExpiresAt vt"
  shows "ConfirmEmailChange_spec F raw x k k' v None v'"
proof -
  from assms(4) obtain u t where u: "v_users v (vt_UserID vt) = Some u" and v1:
    "v1 = v\<lparr>v_users := (v_users v)(vt_UserID vt \<mapsto> u\<lparr>u_Email := vt_NewEmail vt, u_UpdatedAt := t\<rparr>)\<rparr>"
    by (auto simp: user_update_spec_def fault_option_def)
  show ?thesis
    unfolding ConfirmEmailChange_spec_def
    using assms u v1 by (intro disjI2 conjI refl exI [of _ vt] exI [of _ u] exI [of _ n] exI [of _ t] exI [of _ v2]) simp_all
qed

locale email_change =
  user_store invar view faults users stamp + verification_store invar view faults verifications stamp +
  audit_log invar view faults audit log + email_sender sender rejections +
  ids: string_source "ig_New ids" drawn_id + gen: string_source "tg_New gen" drawn_tok
  for invar :: "'db \<Rightarrow> bool" and view :: "'db \<Rightarrow> dbview" and faults :: "error set"
    and users :: "'db world UserStore" and stamp :: "Time \<Rightarrow> Time" and verifications :: "'db world VerificationStore"
    and audit :: "'db world AuditStore" and log :: "'db world Logger" and sender :: "'db world EmailSender"
    and rejections :: "error set" and ids :: "'db world IDGenerator" and drawn_id and gen :: "'db world TokenGenerator" and drawn_tok
begin

lemma RequestEmailChange_meets:
  assumes "invar (w_db w)"
  shows "wp (RequestEmailChange users verifications sender gen ids audit log uid newEmail)
    (\<lambda>r w'. invar (w_db w') \<and> w_limiter w' = w_limiter w \<and> w_ext w' = w_ext w \<and> w_tick w \<le> w_tick w' \<and>
       (\<exists>mails. w_outbox w' = w_outbox w @ mails \<and>
          RequestEmailChange_spec faults stamp rejections drawn_id drawn_tok uid newEmail (w_ext w) (w_tick w) (w_tick w')
            (view (w_db w)) r (view (w_db w')) mails)) w"
  unfolding RequestEmailChange_def email_request_def Let_def email_change_token_def [symmetric]
  apply (intro wp_audited wp_intros; simp add: assms)
  apply (clarsimp dest!: GetByEmail_free; erule RequestEmailChange_failI(2) [rotated 3]; simp)
  apply (clarsimp dest!: GetByEmail_free; erule RequestEmailChange_failI(1) [rotated 3]; simp)
  apply (clarsimp dest!: GetByEmail_free; erule RequestEmailChange_okI [rotated 5]; auto elim!: drawn_between_mono)
  apply (clarsimp dest!: GetByEmail_free; erule RequestEmailChange_okI [rotated 5]; auto elim!: drawn_between_mono)
  apply (auto simp: RequestEmailChange_spec_def verif_Create_spec_def fault_option_def dest!: GetByEmail_free)
  done

lemma wp_mark_used:
  assumes "invar (w_db w)"
    and "\<And>w'. invar (w_db w') \<Longrightarrow> w_limiter w' = w_limiter w \<Longrightarrow> w_outbox w' = w_outbox w \<Longrightarrow>
      w_ext w' = w_ext w \<Longrightarrow> w_tick w \<le> w_tick w' \<Longrightarrow>
      v_verifs (view (w_db w)) (vt_ID vt) = Some vt \<and> vt_UsedAt vt = None \<longrightarrow>
        marked_used faults vt (view (w_db w)) (view (w_db w')) \<Longrightarrow> wp k Q w'"
  shows "wp (State_Monad.bind (vs_MarkUsed verifications (vt_ID vt)) (\<lambda>r.
      State_Monad.bind (case r of None \<Rightarrow> State_Monad.return () | Some err \<Rightarrow> lg_Error log msg (f err))
        (\<lambda>_. k))) Q w"
  by (intro wp_bind wp_verifications wp_case_option wp_return wp_log assms)
    (auto simp: assms(1) marked_used_def put_verif_def verif_MarkUsed_spec_def fault_option_def)

lemma UpdateEmail_verifs:
  "user_update_spec F i P v r v' \<Longrightarrow> v_verifs v' = v_verifs v"
  by (auto simp: user_update_spec_def fault_option_def)

lemma ConfirmEmailChange_meets:
  "engine_op invar view (ConfirmEmailChange users verifications audit log raw)
     (ConfirmEmailChange_spec faults raw)"
  unfolding email_unfold
  unfolding email_update_def
  apply (rule engine_opI, (intro wp_audited wp_mark_used wp_intros; simp))
       apply (auto simp: ConfirmEmailChange_spec_def confirm_refused_def verif_GetByTokenHash_spec_def) [1]
      apply (auto dest!: verif_found elim: confirm_refusedI) [3]
   subgoal for w r w'
     by (frule UpdateEmail_verifs, clarsimp dest!: verif_found,
        erule ConfirmEmailChange_okI [where n = "w_tick w'"]) auto
  subgoal for w r w'
    by (clarsimp dest!: verif_found, erule confirm_refusedI(4) [where n = "w_tick w'"]) auto
  done

end

end
