(* ===== verification/Console_Logger.thy ===== *)
theory Console_Logger
  imports World "HOL-Library.Char_ord" "HOL-Library.List_Lexorder"
begin

text \<open>
  \<open>logger/console.go\<close>: one JSON object per line on standard output. The parts of the standard
  library that the logger uses are written out: the string encoding of \<open>encoding/json\<close> (with its
  treatment of control characters, of the characters that matter in HTML and of ill-formed UTF-8),
  the sorted keys of an encoded map, and the RFC 3339 layout of a time in UTC.
\<close>

section \<open>JSON strings\<close>

abbreviation byte_of :: "char \<Rightarrow> nat" where
  "byte_of \<equiv> of_char"

text \<open>One ASCII character: it stands for itself, or for its escape.\<close>

definition json_ascii :: "char \<Rightarrow> string" where
  "json_ascii c =
     (if c = CHR 0x5C \<or> c = CHR 0x22 then [CHR 0x5C, c]
      else if byte_of c = 8 then [CHR 0x5C, CHR ''b'']
      else if byte_of c = 12 then [CHR 0x5C, CHR ''f'']
      else if byte_of c = 10 then [CHR 0x5C, CHR ''n'']
      else if byte_of c = 13 then [CHR 0x5C, CHR ''r'']
      else if byte_of c = 9 then [CHR 0x5C, CHR ''t'']
      else if byte_of c < 32 \<or> c = CHR ''<'' \<or> c = CHR ''>'' \<or> c = CHR ''&'' then
        CHR 0x5C # ''u00'' @ hex_byte (of_char c)
      else [c])"

text \<open>
  \<open>utf8.DecodeRuneInString\<close>: the length of the well-formed sequence at the front, or \<open>0\<close> where the
  decoder reports an error of width one.
\<close>

definition utf8_cont :: "nat \<Rightarrow> nat \<Rightarrow> string \<Rightarrow> nat \<Rightarrow> bool" where
  "utf8_cont lo hi s i \<longleftrightarrow> i < length s \<and> lo \<le> byte_of (s ! i) \<and> byte_of (s ! i) \<le> hi"

definition utf8_len :: "string \<Rightarrow> nat" where
  "utf8_len s =
     (let b = byte_of (s ! 0) in
      if 0xC2 \<le> b \<and> b \<le> 0xDF then (if utf8_cont 0x80 0xBF s 1 then 2 else 0)
      else if 0xE0 \<le> b \<and> b \<le> 0xEF then
        (if utf8_cont (if b = 0xE0 then 0xA0 else 0x80) (if b = 0xED then 0x9F else 0xBF) s 1 \<and>
            utf8_cont 0x80 0xBF s 2 then 3 else 0)
      else if 0xF0 \<le> b \<and> b \<le> 0xF4 then
        (if utf8_cont (if b = 0xF0 then 0x90 else 0x80) (if b = 0xF4 then 0x8F else 0xBF) s 1 \<and>
            utf8_cont 0x80 0xBF s 2 \<and> utf8_cont 0x80 0xBF s 3 then 4 else 0)
      else 0)"

text \<open>A well-formed sequence is copied, except for the two line separators of JavaScript.\<close>

definition json_rune :: "string \<Rightarrow> string" where
  "json_rune r =
     (if r = [CHR 0xE2, CHR 0x80, CHR 0xA8] then CHR 0x5C # ''u2028''
      else if r = [CHR 0xE2, CHR 0x80, CHR 0xA9] then CHR 0x5C # ''u2029''
      else r)"

function json_chars :: "string \<Rightarrow> string" where
  "json_chars [] = []"
| "json_chars (c # cs) =
     (if byte_of c < 128 then json_ascii c @ json_chars cs
      else if utf8_len (c # cs) = 0 then CHR 0x5C # ''ufffd'' @ json_chars cs
      else json_rune (take (utf8_len (c # cs)) (c # cs)) @ json_chars (drop (utf8_len (c # cs) - 1) cs))"
  by pat_completeness auto
termination
  by (relation "measure length") auto

definition json_string :: "string \<Rightarrow> string" where
  "json_string s = CHR 0x22 # json_chars s @ [CHR 0x22]"

section \<open>JSON objects\<close>

definition json_member :: "string \<Rightarrow> string \<Rightarrow> string" where
  "json_member k encoded = json_string k @ '':'' @ encoded"

fun json_join :: "string list \<Rightarrow> string" where
  "json_join [] = []"
| "json_join [m] = m"
| "json_join (m # ms) = m @ '','' @ json_join ms"

definition json_object :: "string list \<Rightarrow> string" where
  "json_object ms = ''{'' @ json_join ms @ ''}''"

text \<open>A map is encoded with its keys in byte order.\<close>

definition json_map :: "fields \<Rightarrow> string" where
  "json_map f = json_object (map (\<lambda>(k, v). json_member k (json_string v)) (sort_key fst f))"

section \<open>Time stamps\<close>

text \<open>The calendar date of a day, counted from 1970-01-01.\<close>

definition civil_from_days :: "int \<Rightarrow> int \<times> int \<times> int" where
  "civil_from_days days =
     (let z = days + 719468;
          era = z div 146097;
          doe = z mod 146097;
          yoe = (doe - doe div 1460 + doe div 36524 - doe div 146096) div 365;
          doy = doe - (365 * yoe + yoe div 4 - yoe div 100);
          mp = (5 * doy + 2) div 153;
          d = doy - (153 * mp + 2) div 5 + 1;
          m = (if mp < 10 then mp + 3 else mp - 9)
      in (yoe + era * 400 + (if m \<le> 2 then 1 else 0), m, d))"

definition pad_int :: "nat \<Rightarrow> int \<Rightarrow> string" where
  "pad_int width i =
     (let ds = dec_digits (nat \<bar>i\<bar>)
      in (if i < 0 then ''-'' else []) @ replicate (width - length ds) (CHR ''0'') @ ds)"

definition format_RFC3339 :: "Time \<Rightarrow> string" where
  "format_RFC3339 t =
     (let secs = t div time_Second;
          sod = secs mod 86400;
          (y, m, d) = civil_from_days (secs div 86400)
      in pad_int 4 y @ ''-'' @ pad_int 2 m @ ''-'' @ pad_int 2 d @ ''T'' @
         pad_int 2 (sod div 3600) @ '':'' @ pad_int 2 (sod div 60 mod 60) @ '':'' @ pad_int 2 (sod mod 60) @ ''Z'')"

section \<open>The logger\<close>

record logLine =
  ll_Level :: string
  ll_Message :: string
  ll_Fields :: fields
  ll_Timestamp :: string

text \<open>\<open>json.Marshal\<close> of a log line; an empty map of fields is left out.\<close>

definition json_Marshal_logLine :: "logLine \<Rightarrow> error + string" where
  "json_Marshal_logLine line = Inr (json_object
     ([json_member ''level'' (json_string (ll_Level line)),
       json_member ''message'' (json_string (ll_Message line))] @
      (if ll_Fields line = [] then [] else [json_member ''fields'' (json_map (ll_Fields line))]) @
      [json_member ''timestamp'' (json_string (ll_Timestamp line))]))"

definition os_Stdout_Write :: "string \<Rightarrow> ('db world, unit) state" where
  "os_Stdout_Write s = State (\<lambda>w. ((), w\<lparr>w_stdout := w_stdout w @ [s]\<rparr>))"

definition ConsoleJSONLogger_write :: "string \<Rightarrow> string \<Rightarrow> fields \<Rightarrow> ('db world, unit) state" where
  "ConsoleJSONLogger_write level msg flds = do {
     now \<leftarrow> time_Now;
     let line = \<lparr>ll_Level = level, ll_Message = msg, ll_Fields = flds, ll_Timestamp = format_RFC3339 now\<rparr>;
     case json_Marshal_logLine line of
       Inl err \<Rightarrow> os_Stdout_Write (level @ '': '' @ msg @ [CHR 0x0A])
     | Inr b \<Rightarrow> os_Stdout_Write (b @ [CHR 0x0A])
   }"

definition NewConsoleJSONLogger :: "'db world Logger" where
  "NewConsoleJSONLogger =
     \<lparr>lg_Debug = ConsoleJSONLogger_write ''debug'', lg_Info = ConsoleJSONLogger_write ''info'',
      lg_Warn = ConsoleJSONLogger_write ''warn'', lg_Error = ConsoleJSONLogger_write ''error''\<rparr>"

lemma run_ConsoleJSONLogger_write:
  "run_state (ConsoleJSONLogger_write level msg f) w =
     ((), w\<lparr>w_tick := Suc (w_tick w), w_stdout := w_stdout w @
        [projr (json_Marshal_logLine \<lparr>ll_Level = level, ll_Message = msg, ll_Fields = f,
           ll_Timestamp = format_RFC3339 (ext_now (w_ext w) (w_tick w))\<rparr>) @ [CHR 0x0A]]\<rparr>)"
  by (simp add: ConsoleJSONLogger_write_def json_Marshal_logLine_def os_Stdout_Write_def Let_def)

interpretation console: logger NewConsoleJSONLogger
  by unfold_locales (simp_all add: NewConsoleJSONLogger_def run_ConsoleJSONLogger_write quiet_def)

section \<open>A call writes one line\<close>

text \<open>
  No byte of an encoded text is a control character, whatever the text holds, so a caller cannot
  break a log line in two.
\<close>

definition printable :: "string \<Rightarrow> bool" where
  "printable s \<longleftrightarrow> (\<forall>c \<in> set s. 32 \<le> byte_of c)"

lemma printable_simps [simp]:
  "printable []" "printable (c # s) \<longleftrightarrow> 32 \<le> byte_of c \<and> printable s"
  "printable (s @ t) \<longleftrightarrow> printable s \<and> printable t"
  by (auto simp: printable_def)

lemma printable_hextable: "set s \<subseteq> set hextable \<Longrightarrow> printable s"
  by (auto simp: printable_def hextable_def)

lemma printable_json_ascii: "printable (json_ascii c)"
  using printable_hextable [OF hex_byte_digits] by (simp add: json_ascii_def)

lemma utf8_len_bytes:
  assumes "utf8_len s = n" and "128 \<le> byte_of (s ! 0)" and "i < n"
  shows "128 \<le> byte_of (s ! i)"
proof -
  have "i = 0 \<or> i = 1 \<or> i = 2 \<or> i = 3"
    using assms by (auto simp: utf8_len_def Let_def split: if_splits)
  then show ?thesis
    using assms by (auto simp: utf8_len_def Let_def utf8_cont_def split: if_splits)
qed

lemma printable_rune:
  assumes "128 \<le> byte_of c"
  shows "printable (json_rune (take (utf8_len (c # cs)) (c # cs)))"
proof -
  let ?s = "c # cs"
  have "\<forall>x \<in> set (take (utf8_len ?s) ?s). 128 \<le> byte_of x"
  proof
    fix x assume "x \<in> set (take (utf8_len ?s) ?s)"
    then obtain i where "i < utf8_len ?s" and "x = ?s ! i"
      by (auto simp: in_set_conv_nth)
    with utf8_len_bytes [of ?s _ i] assms show "128 \<le> byte_of x" by simp
  qed
  then show ?thesis by (auto simp: json_rune_def printable_def)
qed

lemma printable_json_chars: "printable (json_chars s)"
  by (induction s rule: json_chars.induct) (simp_all add: printable_json_ascii printable_rune)

lemma printable_json_string: "printable (json_string s)"
  by (simp add: json_string_def printable_json_chars)

lemma printable_join: "(\<And>m. m \<in> set ms \<Longrightarrow> printable m) \<Longrightarrow> printable (json_join ms)"
  by (induction ms rule: json_join.induct) auto

lemma printable_json_map: "printable (json_map f)"
  by (auto simp: json_map_def json_object_def json_member_def printable_json_string intro!: printable_join)

lemma printable_Marshal: "json_Marshal_logLine line = Inr b \<Longrightarrow> printable b"
  by (auto simp: json_Marshal_logLine_def json_object_def json_member_def printable_json_string printable_json_map
      intro!: printable_join)

end
