(* ===== verification/Memory_Store.thy ===== *)
theory Memory_Store
  imports Store
begin

text \<open>
  \<open>store/memory\<close>: the four in-memory stores. Each Go method holds its store's mutex from its first
  to its last statement, so a method is one atomic program. The state is the four stores together;
  the abstraction looks every association list up. The interpretations at the end discharge the
  contracts of \<open>Store\<close> with no faults at all.
\<close>

section \<open>State\<close>

record MemoryDB =
  md_users :: "(string, User) gomap"
  md_sessions :: "(string, Session) gomap"
  md_verifs :: "(string, VerificationToken) gomap"
  md_events :: "AuditEvent list"

type_synonym mem_world = "MemoryDB world"

definition NewMemoryDB :: MemoryDB where
  "NewMemoryDB = \<lparr>md_users = [], md_sessions = [], md_verifs = [], md_events = []\<rparr>"

section \<open>The user store\<close>

definition mem_UserStore_Create :: "User \<Rightarrow> (mem_world, error option) state" where
  "mem_UserStore_Create user = do {
     now \<leftarrow> time_Now;
     let user = user\<lparr>u_CreatedAt := now, u_UpdatedAt := now\<rparr>;
     _ \<leftarrow> update_db (\<lambda>d. d\<lparr>md_users := gomap_set (u_ID user) user (md_users d)\<rparr>);
     State_Monad.return None
   }"

definition mem_UserStore_GetByEmail :: "string \<Rightarrow> (mem_world, error + User) state" where
  "mem_UserStore_GetByEmail email = do {
     p \<leftarrow> range_perm;
     m \<leftarrow> read_db md_users;
     case range_find (\<lambda>u. u_Email u = email) p m of
       Some u \<Rightarrow> State_Monad.return (Inr u)
     | None \<Rightarrow> State_Monad.return (Inl ErrNotFound)
   }"

definition mem_UserStore_GetByID :: "string \<Rightarrow> (mem_world, error + User) state" where
  "mem_UserStore_GetByID i = do {
     m \<leftarrow> read_db md_users;
     case map_of m i of
       None \<Rightarrow> State_Monad.return (Inl ErrNotFound)
     | Some u \<Rightarrow> State_Monad.return (Inr u)
   }"

definition mem_UserStore_UpdateEmail :: "string \<Rightarrow> string \<Rightarrow> (mem_world, error option) state" where
  "mem_UserStore_UpdateEmail i newEmail = do {
     m \<leftarrow> read_db md_users;
     case map_of m i of
       None \<Rightarrow> State_Monad.return (Some ErrNotFound)
     | Some u \<Rightarrow> do {
         now \<leftarrow> time_Now;
         let u = u\<lparr>u_Email := newEmail, u_UpdatedAt := now\<rparr>;
         _ \<leftarrow> update_db (\<lambda>d. d\<lparr>md_users := gomap_set i u (md_users d)\<rparr>);
         State_Monad.return None
       }
   }"

definition mem_UserStore_UpdatePasswordHash :: "string \<Rightarrow> string \<Rightarrow> (mem_world, error option) state" where
  "mem_UserStore_UpdatePasswordHash i newHash = do {
     m \<leftarrow> read_db md_users;
     case map_of m i of
       None \<Rightarrow> State_Monad.return (Some ErrNotFound)
     | Some u \<Rightarrow> do {
         now \<leftarrow> time_Now;
         let u = u\<lparr>u_PasswordHash := newHash, u_UpdatedAt := now\<rparr>;
         _ \<leftarrow> update_db (\<lambda>d. d\<lparr>md_users := gomap_set i u (md_users d)\<rparr>);
         State_Monad.return None
       }
   }"

definition mem_UserStore_Delete :: "string \<Rightarrow> (mem_world, error option) state" where
  "mem_UserStore_Delete i = do {
     m \<leftarrow> read_db md_users;
     case map_of m i of
       None \<Rightarrow> State_Monad.return (Some ErrNotFound)
     | Some _ \<Rightarrow> do {
         _ \<leftarrow> update_db (\<lambda>d. d\<lparr>md_users := gomap_delete i (md_users d)\<rparr>);
         State_Monad.return None
       }
   }"

definition mem_UserStore_IncrementFailedAttempts :: "string \<Rightarrow> (mem_world, error + int) state" where
  "mem_UserStore_IncrementFailedAttempts i = do {
     m \<leftarrow> read_db md_users;
     case map_of m i of
       None \<Rightarrow> State_Monad.return (Inl ErrNotFound)
     | Some u \<Rightarrow> do {
         let u = u\<lparr>u_FailedAttempts := wrap64 (u_FailedAttempts u + 1)\<rparr>;
         _ \<leftarrow> update_db (\<lambda>d. d\<lparr>md_users := gomap_set i u (md_users d)\<rparr>);
         State_Monad.return (Inr (u_FailedAttempts u))
       }
   }"

definition mem_UserStore_ResetFailedAttempts :: "string \<Rightarrow> (mem_world, error option) state" where
  "mem_UserStore_ResetFailedAttempts i = do {
     m \<leftarrow> read_db md_users;
     case map_of m i of
       None \<Rightarrow> State_Monad.return (Some ErrNotFound)
     | Some u \<Rightarrow> do {
         let u = u\<lparr>u_FailedAttempts := 0, u_LockedUntil := None\<rparr>;
         _ \<leftarrow> update_db (\<lambda>d. d\<lparr>md_users := gomap_set i u (md_users d)\<rparr>);
         State_Monad.return None
       }
   }"

definition mem_UserStore_LockAccount :: "string \<Rightarrow> Time \<Rightarrow> (mem_world, error option) state" where
  "mem_UserStore_LockAccount i until = do {
     m \<leftarrow> read_db md_users;
     case map_of m i of
       None \<Rightarrow> State_Monad.return (Some ErrNotFound)
     | Some u \<Rightarrow> do {
         let u = u\<lparr>u_LockedUntil := Some until\<rparr>;
         _ \<leftarrow> update_db (\<lambda>d. d\<lparr>md_users := gomap_set i u (md_users d)\<rparr>);
         State_Monad.return None
       }
   }"

definition mem_UserStore :: "mem_world UserStore" where
  "mem_UserStore =
     \<lparr>us_Create = mem_UserStore_Create, us_GetByEmail = mem_UserStore_GetByEmail,
      us_GetByID = mem_UserStore_GetByID, us_UpdateEmail = mem_UserStore_UpdateEmail,
      us_UpdatePasswordHash = mem_UserStore_UpdatePasswordHash, us_Delete = mem_UserStore_Delete,
      us_IncrementFailedAttempts = mem_UserStore_IncrementFailedAttempts,
      us_ResetFailedAttempts = mem_UserStore_ResetFailedAttempts,
      us_LockAccount = mem_UserStore_LockAccount\<rparr>"

section \<open>The session store\<close>

definition mem_SessionStore_Create :: "Session \<Rightarrow> (mem_world, error option) state" where
  "mem_SessionStore_Create sess = do {
     now \<leftarrow> time_Now;
     let sess = sess\<lparr>s_CreatedAt := now\<rparr>;
     _ \<leftarrow> update_db (\<lambda>d. d\<lparr>md_sessions := gomap_set (s_ID sess) sess (md_sessions d)\<rparr>);
     State_Monad.return None
   }"

definition mem_SessionStore_GetByID :: "string \<Rightarrow> (mem_world, error + Session) state" where
  "mem_SessionStore_GetByID sessionID = do {
     m \<leftarrow> read_db md_sessions;
     case map_of m sessionID of
       None \<Rightarrow> State_Monad.return (Inl ErrNotFound)
     | Some sess \<Rightarrow> State_Monad.return (Inr sess)
   }"

definition mem_SessionStore_GetByTokenHash :: "string \<Rightarrow> (mem_world, error + Session) state" where
  "mem_SessionStore_GetByTokenHash tokenHash = do {
     p \<leftarrow> range_perm;
     m \<leftarrow> read_db md_sessions;
     case range_find (\<lambda>s. s_TokenHash s = tokenHash) p m of
       Some sess \<Rightarrow> State_Monad.return (Inr sess)
     | None \<Rightarrow> State_Monad.return (Inl ErrNotFound)
   }"

definition mem_SessionStore_ListByUser :: "string \<Rightarrow> (mem_world, error + Session list) state" where
  "mem_SessionStore_ListByUser userID = do {
     p \<leftarrow> range_perm;
     m \<leftarrow> read_db md_sessions;
     State_Monad.return (Inr (range_filter (\<lambda>s. s_UserID s = userID \<and> s_RevokedAt s = None) p m))
   }"

definition mem_SessionStore_Revoke :: "string \<Rightarrow> (mem_world, error option) state" where
  "mem_SessionStore_Revoke sessionID = do {
     m \<leftarrow> read_db md_sessions;
     case map_of m sessionID of
       None \<Rightarrow> State_Monad.return (Some ErrNotFound)
     | Some sess \<Rightarrow> do {
         now \<leftarrow> time_Now;
         let sess = sess\<lparr>s_RevokedAt := Some now\<rparr>;
         _ \<leftarrow> update_db (\<lambda>d. d\<lparr>md_sessions := gomap_set sessionID sess (md_sessions d)\<rparr>);
         State_Monad.return None
       }
   }"

definition mem_SessionStore_RevokeFamily :: "string \<Rightarrow> (mem_world, error option) state" where
  "mem_SessionStore_RevokeFamily familyID = do {
     now \<leftarrow> time_Now;
     p \<leftarrow> range_perm;
     _ \<leftarrow> update_db (\<lambda>d. d\<lparr>md_sessions :=
            range_assign (\<lambda>s. s_FamilyID s = familyID \<and> s_RevokedAt s = None)
              (\<lambda>s. s\<lparr>s_RevokedAt := Some now\<rparr>) p (md_sessions d)\<rparr>);
     State_Monad.return None
   }"

definition mem_SessionStore_RevokeAllForUser :: "string \<Rightarrow> (mem_world, error option) state" where
  "mem_SessionStore_RevokeAllForUser userID = do {
     now \<leftarrow> time_Now;
     p \<leftarrow> range_perm;
     _ \<leftarrow> update_db (\<lambda>d. d\<lparr>md_sessions :=
            range_assign (\<lambda>s. s_UserID s = userID \<and> s_RevokedAt s = None)
              (\<lambda>s. s\<lparr>s_RevokedAt := Some now\<rparr>) p (md_sessions d)\<rparr>);
     State_Monad.return None
   }"

definition mem_SessionStore_RotateToken :: "string \<Rightarrow> Session \<Rightarrow> (mem_world, error option) state" where
  "mem_SessionStore_RotateToken oldSessionID newSession = do {
     m \<leftarrow> read_db md_sessions;
     case map_of m oldSessionID of
       None \<Rightarrow> State_Monad.return (Some ErrNotFound)
     | Some old \<Rightarrow> do {
         now \<leftarrow> time_Now;
         let old = old\<lparr>s_RevokedAt := Some now\<rparr>;
         _ \<leftarrow> update_db (\<lambda>d. d\<lparr>md_sessions := gomap_set oldSessionID old (md_sessions d)\<rparr>);
         let newSession = newSession\<lparr>s_CreatedAt := now\<rparr>;
         _ \<leftarrow> update_db (\<lambda>d. d\<lparr>md_sessions := gomap_set (s_ID newSession) newSession (md_sessions d)\<rparr>);
         State_Monad.return None
       }
   }"

definition mem_SessionStore :: "mem_world SessionStore" where
  "mem_SessionStore =
     \<lparr>ss_Create = mem_SessionStore_Create, ss_GetByID = mem_SessionStore_GetByID,
      ss_GetByTokenHash = mem_SessionStore_GetByTokenHash, ss_ListByUser = mem_SessionStore_ListByUser,
      ss_Revoke = mem_SessionStore_Revoke, ss_RevokeFamily = mem_SessionStore_RevokeFamily,
      ss_RevokeAllForUser = mem_SessionStore_RevokeAllForUser,
      ss_RotateToken = mem_SessionStore_RotateToken\<rparr>"

section \<open>The audit store\<close>

definition mem_AuditStore_Record :: "AuditEvent \<Rightarrow> (mem_world, error option) state" where
  "mem_AuditStore_Record event = do {
     now \<leftarrow> time_Now;
     let event = event\<lparr>ev_CreatedAt := now\<rparr>;
     _ \<leftarrow> update_db (\<lambda>d. d\<lparr>md_events := md_events d @ [event]\<rparr>);
     State_Monad.return None
   }"

text \<open>
  The loop from the newest event down: \<open>out\<close> is what has been collected, the list what is still to
  be visited.
\<close>

fun audit_scan :: "string \<Rightarrow> int \<Rightarrow> AuditEvent list \<Rightarrow> AuditEvent list \<Rightarrow> AuditEvent list" where
  "audit_scan userID limit [] out = out"
| "audit_scan userID limit (e # es) out =
     (if int (length out) < limit then
        audit_scan userID limit es (if ev_UserID e = userID then out @ [e] else out)
      else out)"

definition mem_AuditStore_ListByUser :: "string \<Rightarrow> int \<Rightarrow> (mem_world, error + AuditEvent list) state" where
  "mem_AuditStore_ListByUser userID limit = do {
     events \<leftarrow> read_db md_events;
     State_Monad.return (Inr (audit_scan userID limit (rev events) []))
   }"

definition mem_AuditStore :: "mem_world AuditStore" where
  "mem_AuditStore = \<lparr>as_Record = mem_AuditStore_Record, as_ListByUser = mem_AuditStore_ListByUser\<rparr>"

section \<open>The verification store\<close>

definition mem_VerificationStore_Create :: "VerificationToken \<Rightarrow> (mem_world, error option) state" where
  "mem_VerificationStore_Create vt = do {
     now \<leftarrow> time_Now;
     let vt = vt\<lparr>vt_CreatedAt := now\<rparr>;
     _ \<leftarrow> update_db (\<lambda>d. d\<lparr>md_verifs := gomap_set (vt_ID vt) vt (md_verifs d)\<rparr>);
     State_Monad.return None
   }"

definition mem_VerificationStore_GetByTokenHash ::
  "string \<Rightarrow> (mem_world, error + VerificationToken) state" where
  "mem_VerificationStore_GetByTokenHash tokenHash = do {
     p \<leftarrow> range_perm;
     m \<leftarrow> read_db md_verifs;
     case range_find (\<lambda>vt. vt_TokenHash vt = tokenHash) p m of
       Some vt \<Rightarrow> State_Monad.return (Inr vt)
     | None \<Rightarrow> State_Monad.return (Inl ErrNotFound)
   }"

definition mem_VerificationStore_MarkUsed :: "string \<Rightarrow> (mem_world, error option) state" where
  "mem_VerificationStore_MarkUsed i = do {
     m \<leftarrow> read_db md_verifs;
     case map_of m i of
       None \<Rightarrow> State_Monad.return (Some ErrNotFound)
     | Some vt \<Rightarrow> do {
         now \<leftarrow> time_Now;
         let vt = vt\<lparr>vt_UsedAt := Some now\<rparr>;
         _ \<leftarrow> update_db (\<lambda>d. d\<lparr>md_verifs := gomap_set i vt (md_verifs d)\<rparr>);
         State_Monad.return None
       }
   }"

definition mem_VerificationStore :: "mem_world VerificationStore" where
  "mem_VerificationStore =
     \<lparr>vs_Create = mem_VerificationStore_Create,
      vs_GetByTokenHash = mem_VerificationStore_GetByTokenHash,
      vs_MarkUsed = mem_VerificationStore_MarkUsed\<rparr>"

lemmas mem_user_methods [method_defs] = mem_UserStore_def mem_UserStore_Create_def
  mem_UserStore_GetByEmail_def mem_UserStore_GetByID_def mem_UserStore_UpdateEmail_def
  mem_UserStore_UpdatePasswordHash_def mem_UserStore_Delete_def
  mem_UserStore_IncrementFailedAttempts_def mem_UserStore_ResetFailedAttempts_def
  mem_UserStore_LockAccount_def

lemmas mem_session_methods [method_defs] = mem_SessionStore_def mem_SessionStore_Create_def
  mem_SessionStore_GetByID_def mem_SessionStore_GetByTokenHash_def mem_SessionStore_ListByUser_def
  mem_SessionStore_Revoke_def mem_SessionStore_RevokeFamily_def
  mem_SessionStore_RevokeAllForUser_def mem_SessionStore_RotateToken_def

lemmas mem_other_methods [method_defs] = mem_AuditStore_def mem_AuditStore_Record_def
  mem_AuditStore_ListByUser_def mem_VerificationStore_def mem_VerificationStore_Create_def
  mem_VerificationStore_GetByTokenHash_def mem_VerificationStore_MarkUsed_def

section \<open>Invariant and abstraction\<close>

definition mem_inv :: "MemoryDB \<Rightarrow> bool" where
  "mem_inv d \<longleftrightarrow>
     gomap_wf (md_users d) \<and> (\<forall>i u. map_of (md_users d) i = Some u \<longrightarrow> u_ID u = i) \<and>
     gomap_wf (md_sessions d) \<and> (\<forall>i s. map_of (md_sessions d) i = Some s \<longrightarrow> s_ID s = i) \<and>
     gomap_wf (md_verifs d) \<and> (\<forall>i vt. map_of (md_verifs d) i = Some vt \<longrightarrow> vt_ID vt = i)"

definition mem_view :: "MemoryDB \<Rightarrow> dbview" where
  "mem_view d = \<lparr>v_users = map_of (md_users d), v_sessions = map_of (md_sessions d),
     v_verifs = map_of (md_verifs d), v_events = md_events d\<rparr>"

lemma mem_view_simps [simp]:
  "v_users (mem_view d) = map_of (md_users d)" "v_sessions (mem_view d) = map_of (md_sessions d)"
  "v_verifs (mem_view d) = map_of (md_verifs d)" "v_events (mem_view d) = md_events d"
  by (simp_all add: mem_view_def)

lemma mem_inv_new: "mem_inv NewMemoryDB"
  by (simp add: mem_inv_def NewMemoryDB_def)

section \<open>The stores meet their contracts\<close>

lemmas mem_op = db_opI [of mem_inv]

lemmas mem_simps = mem_user_methods mem_session_methods mem_other_methods user_spec_defs
  session_spec_defs other_spec_defs db_only_def run_simps mem_view_def

text \<open>Membership of one updated record in the invariant, for each of the three maps.\<close>

lemma mem_inv_users:
  "mem_inv d \<Longrightarrow> u_ID u = i \<Longrightarrow> mem_inv (d\<lparr>md_users := gomap_set i u (md_users d)\<rparr>)"
  by (simp add: mem_inv_def)

lemma mem_inv_users_delete:
  "mem_inv d \<Longrightarrow> mem_inv (d\<lparr>md_users := gomap_delete i (md_users d)\<rparr>)"
  by (simp add: mem_inv_def)

lemma mem_inv_sessions:
  "mem_inv d \<Longrightarrow> s_ID s = i \<Longrightarrow> mem_inv (d\<lparr>md_sessions := gomap_set i s (md_sessions d)\<rparr>)"
  by (simp add: mem_inv_def)

lemma mem_inv_verifs:
  "mem_inv d \<Longrightarrow> vt_ID vt = i \<Longrightarrow> mem_inv (d\<lparr>md_verifs := gomap_set i vt (md_verifs d)\<rparr>)"
  by (simp add: mem_inv_def)

lemma mem_inv_events: "mem_inv (d\<lparr>md_events := es\<rparr>) = mem_inv d"
  by (simp add: mem_inv_def)

lemma mem_inv_sessions_assign:
  "mem_inv d \<Longrightarrow> mem_inv (d\<lparr>md_sessions :=
     range_assign P (\<lambda>s. s\<lparr>s_RevokedAt := t\<rparr>) p (md_sessions d)\<rparr>)"
  by (auto simp: mem_inv_def map_of_range_assign split: if_splits)

lemma mem_invD:
  assumes "mem_inv d"
  shows "gomap_wf (md_users d)" "gomap_wf (md_sessions d)" "gomap_wf (md_verifs d)"
    "map_of (md_users d) i = Some u \<Longrightarrow> u_ID u = i"
    "map_of (md_sessions d) i = Some s \<Longrightarrow> s_ID s = i"
    "map_of (md_verifs d) i = Some vt \<Longrightarrow> vt_ID vt = i"
  using assms by (simp_all add: mem_inv_def)

lemmas mem_invs = mem_inv_users mem_inv_users_delete mem_inv_sessions mem_inv_verifs
  mem_inv_events mem_inv_sessions_assign

text \<open>The loops of the stores, read through the abstraction.\<close>

lemma mem_findD:
  assumes "mem_inv d"
  shows "range_find P p (md_users d) = Some u \<Longrightarrow> map_of (md_users d) (u_ID u) = Some u \<and> P u"
    and "range_find Q p (md_sessions d) = Some s \<Longrightarrow> map_of (md_sessions d) (s_ID s) = Some s \<and> Q s"
    and "range_find R p (md_verifs d) = Some vt \<Longrightarrow> map_of (md_verifs d) (vt_ID vt) = Some vt \<and> R vt"
  using mem_invD [OF assms] range_find_keyed [of "md_users d" u_ID P p u]
    range_find_keyed [of "md_sessions d" s_ID Q p s] range_find_keyed [of "md_verifs d" vt_ID R p vt]
  by blast+

lemma mem_list_sessions:
  assumes "mem_inv d"
  shows "set (range_filter P p (md_sessions d)) = {s. map_of (md_sessions d) (s_ID s) = Some s \<and> P s}"
    and "distinct (map s_ID (range_filter P p (md_sessions d)))"
  using mem_invD(2) [OF assms] mem_invD(5) [OF assms]
  by (auto simp: set_range_filter intro!: distinct_range_filter)

lemma mem_revoke_where:
  assumes "mem_inv d"
  shows "map_of (range_assign (\<lambda>s. P s \<and> s_RevokedAt s = None) (\<lambda>s. s\<lparr>s_RevokedAt := Some t\<rparr>) p (md_sessions d)) =
    revoke_where P t (map_of (md_sessions d))"
  using mem_invD(2) [OF assms] by (auto simp: revoke_where_def map_of_range_assign)

text \<open>The scan returns the newest events of the user, at most \<open>limit\<close> of them.\<close>

lemma audit_scan_eq:
  "audit_scan userID limit es out =
     out @ take (nat limit - length out) (filter (\<lambda>e. ev_UserID e = userID) es)"
proof (induction es arbitrary: out)
  case Nil
  then show ?case by simp
next
  case (Cons e es)
  show ?case
  proof (cases "int (length out) < limit")
    case True
    then have "nat limit - length out = Suc (nat limit - Suc (length out))"
      by linarith
    with True Cons.IH show ?thesis by simp
  next
    case False
    then show ?thesis by simp
  qed
qed

interpretation mem_us: user_store mem_inv mem_view "{}" mem_UserStore id
proof unfold_locales
  fix u :: User and i email newHash :: string and until :: Time
  show "db_op mem_inv mem_view (us_Create mem_UserStore u) (user_Create_spec {} u)"
    by (rule mem_op) (auto simp: mem_simps intro: mem_invs)
  show "db_op mem_inv mem_view (us_GetByEmail mem_UserStore email) (user_GetByEmail_spec {} email)"
    by (rule mem_op) (auto simp: mem_simps
        split: option.splits dest: mem_findD range_find_NoneD)
  show "db_op mem_inv mem_view (us_GetByID mem_UserStore i) (user_GetByID_spec {} i)"
    by (rule mem_op) (auto simp: mem_simps mem_invD split: option.splits)
  show "db_op mem_inv mem_view (us_UpdateEmail mem_UserStore i email)
      (user_update_spec {} i (\<lambda>u u'. \<exists>t. u' = u\<lparr>u_Email := email, u_UpdatedAt := t\<rparr>))"
    by (rule mem_op) (auto simp: mem_simps mem_invD split: option.splits intro: mem_invs)
  show "db_op mem_inv mem_view (us_UpdatePasswordHash mem_UserStore i newHash)
      (user_update_spec {} i (\<lambda>u u'. \<exists>t. u' = u\<lparr>u_PasswordHash := newHash, u_UpdatedAt := t\<rparr>))"
    by (rule mem_op) (auto simp: mem_simps mem_invD split: option.splits intro: mem_invs)
  show "db_op mem_inv mem_view (us_Delete mem_UserStore i) (user_Delete_spec {} i)"
    by (rule mem_op) (auto simp: mem_simps mem_invD split: option.splits intro: mem_invs)
  show "db_op mem_inv mem_view (us_IncrementFailedAttempts mem_UserStore i) (user_Increment_spec {} i)"
    by (rule mem_op) (auto simp: mem_simps mem_invD split: option.splits intro: mem_invs)
  show "db_op mem_inv mem_view (us_ResetFailedAttempts mem_UserStore i)
      (user_update_spec {} i (\<lambda>u u'. u' = u\<lparr>u_FailedAttempts := 0, u_LockedUntil := None\<rparr>))"
    by (rule mem_op) (auto simp: mem_simps mem_invD split: option.splits intro: mem_invs)
  show "db_op mem_inv mem_view (us_LockAccount mem_UserStore i until)
      (user_update_spec {} i (\<lambda>u u'. u' = u\<lparr>u_LockedUntil := Some (id until)\<rparr>))"
    by (rule mem_op) (auto simp: mem_simps mem_invD split: option.splits intro: mem_invs)
qed

interpretation mem_ss: session_store mem_inv mem_view "{}" mem_SessionStore
proof unfold_locales
  fix s n :: Session and i h f uid :: string
  show "db_op mem_inv mem_view (ss_Create mem_SessionStore s) (session_Create_spec {} s)"
    by (rule mem_op) (auto simp: mem_simps intro: mem_invs)
  show "db_op mem_inv mem_view (ss_GetByID mem_SessionStore i) (session_GetByID_spec {} i)"
    by (rule mem_op) (auto simp: mem_simps mem_invD split: option.splits)
  show "db_op mem_inv mem_view (ss_GetByTokenHash mem_SessionStore h) (session_GetByTokenHash_spec {} h)"
    by (rule mem_op) (auto simp: mem_simps
        split: option.splits dest: mem_findD range_find_NoneD)
  show "db_op mem_inv mem_view (ss_ListByUser mem_SessionStore uid) (session_ListByUser_spec {} uid)"
    by (rule mem_op) (auto simp: mem_simps mem_list_sessions)
  show "db_op mem_inv mem_view (ss_Revoke mem_SessionStore i) (session_Revoke_spec {} i)"
    by (rule mem_op) (auto simp: mem_simps mem_invD split: option.splits intro: mem_invs)
  show "db_op mem_inv mem_view (ss_RevokeFamily mem_SessionStore f)
      (session_RevokeWhere_spec {} (\<lambda>s. s_FamilyID s = f))"
    by (rule mem_op) (auto simp: mem_simps mem_revoke_where
        intro: mem_invs)
  show "db_op mem_inv mem_view (ss_RevokeAllForUser mem_SessionStore uid)
      (session_RevokeWhere_spec {} (\<lambda>s. s_UserID s = uid))"
    by (rule mem_op) (auto simp: mem_simps mem_revoke_where
        intro: mem_invs)
  show "db_op mem_inv mem_view (ss_RotateToken mem_SessionStore i n) (session_RotateToken_spec {} i n)"
    by (rule mem_op) (auto simp: mem_simps mem_inv_def
        split: option.splits)
qed

interpretation mem_as: audit_store mem_inv mem_view "{}" mem_AuditStore
proof unfold_locales
  fix e :: AuditEvent and uid :: string and n :: int
  show "db_op mem_inv mem_view (as_Record mem_AuditStore e) (audit_Record_spec {} e)"
    by (rule mem_op) (auto simp: mem_simps mem_inv_events
        intro!: exI [of _ "ev_ID e"])
  show "db_op mem_inv mem_view (as_ListByUser mem_AuditStore uid n) (audit_ListByUser_spec {} uid n)"
    by (rule mem_op) (auto simp: mem_simps audit_scan_eq dest!: in_set_takeD)
qed

interpretation mem_vs: verification_store mem_inv mem_view "{}" mem_VerificationStore id
proof unfold_locales
  fix vt :: VerificationToken and h i :: string
  show "db_op mem_inv mem_view (vs_Create mem_VerificationStore vt) (verif_Create_spec {} id vt)"
    by (rule mem_op) (auto simp: mem_simps intro: mem_invs)
  show "db_op mem_inv mem_view (vs_GetByTokenHash mem_VerificationStore h) (verif_GetByTokenHash_spec {} h)"
    by (rule mem_op) (auto simp: mem_simps
        split: option.splits dest: mem_findD range_find_NoneD)
  show "db_op mem_inv mem_view (vs_MarkUsed mem_VerificationStore i) (verif_MarkUsed_spec {} i)"
    by (rule mem_op) (auto simp: mem_simps mem_invD split: option.splits intro: mem_invs)
qed

end
