(* ===== verification/Engine.thy ===== *)
theory Engine
  imports Auth_Login Auth_Account Auth_Logout Auth_Email Console_Logger Memory_Store
begin

text \<open>
  \<open>config.go\<close>, \<open>engine.go\<close> and \<open>cryden.go\<close>: configuration, construction and the public functions.
  A nil interface of the configuration is \<open>None\<close>. The rate limiter that \<open>New\<close> creates is the one in
  the world.
\<close>

section \<open>Configuration\<close>

record 'w Config =
  cfg_JWTSecret :: string
  cfg_Users :: "'w UserStore option"
  cfg_Sessions :: "'w SessionStore option"
  cfg_Audit :: "'w AuditStore option"
  cfg_Verifications :: "'w VerificationStore option"
  cfg_EmailSender :: "'w EmailSender option"
  cfg_AccessTokenTTL :: Duration
  cfg_BcryptCost :: int
  cfg_RefreshTokenByteLength :: int
  cfg_RateLimitAttempts :: int
  cfg_RateLimitWindow :: Duration
  cfg_LockoutThreshold :: int
  cfg_LockoutDuration :: Duration
  cfg_Logger :: "'w Logger option"

definition Config_validate :: "'w Config \<Rightarrow> error option" where
  "Config_validate c =
     (if cfg_JWTSecret c = '''' then Some ErrMissingJWTSecret
      else if cfg_Users c = None then Some ErrMissingUserStore
      else if cfg_Sessions c = None then Some ErrMissingSessionStore
      else if cfg_Audit c = None then Some ErrMissingAuditStore
      else None)"

text \<open>\<open>if c.X == 0 { c.X = d }\<close>\<close>

definition or_default :: "int \<Rightarrow> int \<Rightarrow> int" where
  "or_default d n = (if n = 0 then d else n)"

definition Config_applyDefaults :: "'db world Config \<Rightarrow> 'db world Config" where
  "Config_applyDefaults c = c
     \<lparr>cfg_AccessTokenTTL := or_default (15 * time_Minute) (cfg_AccessTokenTTL c),
      cfg_BcryptCost := or_default 10 (cfg_BcryptCost c),
      cfg_RefreshTokenByteLength := or_default 32 (cfg_RefreshTokenByteLength c),
      cfg_RateLimitAttempts := or_default 10 (cfg_RateLimitAttempts c),
      cfg_RateLimitWindow := or_default time_Minute (cfg_RateLimitWindow c),
      cfg_LockoutThreshold := or_default 5 (cfg_LockoutThreshold c),
      cfg_LockoutDuration := or_default (15 * time_Minute) (cfg_LockoutDuration c),
      cfg_Logger := (case cfg_Logger c of None \<Rightarrow> Some NewConsoleJSONLogger | Some l \<Rightarrow> Some l)\<rparr>"

section \<open>The engine\<close>

record 'w Engine =
  en_users :: "'w UserStore"
  en_sessions :: "'w SessionStore"
  en_audit :: "'w AuditStore"
  en_verifications :: "'w VerificationStore option"
  en_emailSender :: "'w EmailSender option"
  en_hasher :: "'w Hasher"
  en_ids :: "'w IDGenerator"
  en_rateLimiter :: "'w RateLimiter"
  en_refreshGen :: "'w TokenGenerator"
  en_jwtIssuer :: JWTIssuer
  en_log :: "'w Logger"
  en_lockoutThreshold :: int
  en_lockoutDuration :: Duration

definition install_limiter :: "int \<Rightarrow> Duration \<Rightarrow> ('db world, 'db world RateLimiter) state" where
  "install_limiter attempts window =
     State (\<lambda>w. (InMemoryRateLimiter_RateLimiter, w\<lparr>w_limiter := NewInMemoryRateLimiter attempts window\<rparr>))"

definition New :: "'db world Config \<Rightarrow> ('db world, error + 'db world Engine) state" where
  "New cfg =
     (case Config_validate cfg of
        Some err \<Rightarrow> State_Monad.return (Inl err)
      | None \<Rightarrow> do {
          let cfg = Config_applyDefaults cfg;
          hasher \<leftarrow> asks (\<lambda>x. NewBcryptHasher x (cfg_BcryptCost cfg));
          case hasher of
            Inl err \<Rightarrow> State_Monad.return (Inl err)
          | Inr hasher \<Rightarrow>
              (case NewCryptoRandTokenGenerator (cfg_RefreshTokenByteLength cfg) of
                 Inl err \<Rightarrow> State_Monad.return (Inl err)
               | Inr refreshGen \<Rightarrow>
                   (case NewJWTIssuer (cfg_JWTSecret cfg) (cfg_AccessTokenTTL cfg) of
                      Inl err \<Rightarrow> State_Monad.return (Inl err)
                    | Inr jwtIssuer \<Rightarrow> do {
                        limiter \<leftarrow> install_limiter (cfg_RateLimitAttempts cfg) (cfg_RateLimitWindow cfg);
                        State_Monad.return (Inr
                          \<lparr>en_users = the (cfg_Users cfg), en_sessions = the (cfg_Sessions cfg),
                           en_audit = the (cfg_Audit cfg), en_verifications = cfg_Verifications cfg,
                           en_emailSender = cfg_EmailSender cfg, en_hasher = BcryptHasher_Hasher hasher,
                           en_ids = UUIDv7Generator, en_rateLimiter = limiter,
                           en_refreshGen = CryptoRandTokenGenerator_TokenGenerator refreshGen,
                           en_jwtIssuer = jwtIssuer, en_log = the (cfg_Logger cfg),
                           en_lockoutThreshold = cfg_LockoutThreshold cfg,
                           en_lockoutDuration = cfg_LockoutDuration cfg\<rparr>)
                      }))
        })"

section \<open>The public functions\<close>

definition cryden_SignUp ::
  "'db world Engine \<Rightarrow> string \<Rightarrow> string \<Rightarrow> string \<Rightarrow>
   ('db world, error + User) state" where
  "cryden_SignUp e email password callerIP =
     SignUp (en_users e) (en_hasher e) (en_ids e) (en_rateLimiter e) (en_audit e) (en_log e)
       email password callerIP"

definition cryden_Login ::
  "'db world Engine \<Rightarrow> string \<Rightarrow> string \<Rightarrow> string \<Rightarrow> string \<Rightarrow>
   ('db world, error + Tokens) state" where
  "cryden_Login e email password callerIP userAgent =
     Login (en_users e) (en_sessions e) (en_hasher e) (en_ids e) (en_refreshGen e) (en_jwtIssuer e)
       (en_rateLimiter e) (en_audit e) (en_log e) email password callerIP userAgent
       (en_lockoutThreshold e) (en_lockoutDuration e)"

definition cryden_ChangePassword ::
  "'db world Engine \<Rightarrow> string \<Rightarrow> string \<Rightarrow> string \<Rightarrow> ('db world, error option) state" where
  "cryden_ChangePassword e userID currentPassword newPassword =
     ChangePassword (en_users e) (en_sessions e) (en_hasher e) (en_audit e) (en_log e)
       userID currentPassword newPassword"

definition cryden_DeleteAccount ::
  "'db world Engine \<Rightarrow> string \<Rightarrow> string \<Rightarrow> ('db world, error option) state" where
  "cryden_DeleteAccount e userID currentPassword =
     DeleteAccount (en_users e) (en_sessions e) (en_hasher e) (en_audit e) (en_log e) userID currentPassword"

definition cryden_RequestEmailChange ::
  "'db world Engine \<Rightarrow> string \<Rightarrow> string \<Rightarrow> ('db world, error option) state" where
  "cryden_RequestEmailChange e userID newEmail =
     (case (en_verifications e, en_emailSender e) of
        (Some verifications, Some sender) \<Rightarrow>
          RequestEmailChange (en_users e) verifications sender (en_refreshGen e) (en_ids e) (en_audit e)
            (en_log e) userID newEmail
      | _ \<Rightarrow> State_Monad.return (Some ErrEmailChangeNotConfigured))"

definition cryden_ConfirmEmailChange ::
  "'db world Engine \<Rightarrow> string \<Rightarrow> ('db world, error option) state" where
  "cryden_ConfirmEmailChange e rawToken =
     (case en_verifications e of
        None \<Rightarrow> State_Monad.return (Some ErrEmailChangeNotConfigured)
      | Some verifications \<Rightarrow>
          ConfirmEmailChange (en_users e) verifications (en_audit e) (en_log e) rawToken)"

definition cryden_Logout ::
  "'db world Engine \<Rightarrow> string \<Rightarrow> string \<Rightarrow> ('db world, error option) state" where
  "cryden_Logout e sessionID userID = Logout (en_sessions e) (en_audit e) (en_log e) sessionID userID"

definition cryden_LogoutAll ::
  "'db world Engine \<Rightarrow> string \<Rightarrow> ('db world, error option) state" where
  "cryden_LogoutAll e userID = LogoutAll (en_sessions e) (en_audit e) (en_log e) userID"

definition refresh_answer ::
  "'db world Engine \<Rightarrow> RefreshResult \<times> error option \<Rightarrow> ('db world, error + Tokens) state" where
  "refresh_answer e rotated =
     (case rotated of (result, err) \<Rightarrow>
       (case err of
          Some err \<Rightarrow> do {
            _ \<leftarrow> (if err = ErrTokenReused then do {
                   auditErr \<leftarrow> as_Record (en_audit e)
                     (new_AuditEvent EventTokenReuseDetected (s_UserID (rr_Session result)) [] None);
                   case auditErr of
                     None \<Rightarrow> State_Monad.return ()
                   | Some auditErr \<Rightarrow> lg_Error (en_log e) ''refresh: audit record failed''
                       [(''error'', error_Error auditErr)]
                 } else State_Monad.return ());
            State_Monad.return (Inl err)
          }
        | None \<Rightarrow> do {
            accessToken \<leftarrow> JWTIssuer_Issue (en_jwtIssuer e) (s_UserID (rr_Session result));
            case accessToken of
              Inl err \<Rightarrow> State_Monad.return (Inl err)
            | Inr accessToken \<Rightarrow> do {
                auditErr \<leftarrow> as_Record (en_audit e)
                  (new_AuditEvent EventTokenRotated (s_UserID (rr_Session result)) [] None);
                _ \<leftarrow> (case auditErr of
                       None \<Rightarrow> State_Monad.return ()
                     | Some auditErr \<Rightarrow> lg_Error (en_log e) ''refresh: audit record failed''
                         [(''error'', error_Error auditErr)]);
                State_Monad.return (Inr \<lparr>tk_AccessToken = accessToken, tk_RefreshToken = rr_RawToken result\<rparr>)
              }
          }))"

definition RefreshToken :: "'db world Engine \<Rightarrow> string \<Rightarrow> ('db world, error + Tokens) state" where
  "RefreshToken e rawRefreshToken = do {
     rotated \<leftarrow> Rotate (en_sessions e) (en_refreshGen e) (en_ids e) rawRefreshToken;
     refresh_answer e rotated
   }"

definition VerifyToken :: "'db world Engine \<Rightarrow> string \<Rightarrow> ('db world, error + string) state" where
  "VerifyToken e accessToken = JWTIssuer_Verify (en_jwtIssuer e) accessToken"

definition ListSessions ::
  "'db world Engine \<Rightarrow> string \<Rightarrow> ('db world, error + Session list) state" where
  "ListSessions e userID = session_List (en_sessions e) userID"

definition RevokeSession ::
  "'db world Engine \<Rightarrow> string \<Rightarrow> string \<Rightarrow> ('db world, error option) state" where
  "RevokeSession e sessionID userID = session_Revoke (en_sessions e) (en_audit e) (en_log e) sessionID userID"

lemmas facade_defs = cryden_SignUp_def cryden_Login_def cryden_ChangePassword_def cryden_DeleteAccount_def
  cryden_RequestEmailChange_def cryden_ConfirmEmailChange_def cryden_Logout_def cryden_LogoutAll_def
  VerifyToken_def ListSessions_def RevokeSession_def

section \<open>What a refresh promises\<close>

text \<open>
  Beside the outcomes of the rotation: the reuse is recorded for the user of the reused session, a
  rotation is recorded and answered with an access token; when that token cannot be signed, the
  rotation has happened all the same.
\<close>

definition RefreshToken_spec ::
  "error set \<Rightarrow> (externals \<Rightarrow> nat \<Rightarrow> error + string) \<Rightarrow> (externals \<Rightarrow> nat \<Rightarrow> error + string) \<Rightarrow> JWTIssuer \<Rightarrow>
   string \<Rightarrow> externals \<Rightarrow> nat \<Rightarrow> nat \<Rightarrow> dbview \<Rightarrow> error + Tokens \<Rightarrow> dbview \<Rightarrow> bool" where
  "RefreshToken_spec F d_id d_tok j raw x k k' v r v' \<longleftrightarrow>
     (case r of
        Inr tk \<Rightarrow> (\<exists>res v1 n. rotate_ok d_id d_tok x k k' raw v res None v1 \<and>
          rr_RawToken res = tk_RefreshToken tk \<and> k \<le> n \<and> n < k' \<and>
          ext_jwt_SignedString x SigningMethodHS256
            (access_claims x j (s_UserID (rr_Session res)) (ext_now x n)) (ji_secret j) =
            Inr (tk_AccessToken tk) \<and>
          audited F (new_AuditEvent EventTokenRotated (s_UserID (rr_Session res)) [] None) v1 v')
      | Inl e \<Rightarrow>
          (\<exists>res n. rotate_ok d_id d_tok x k k' raw v res None v' \<and>
             ext_jwt_SignedString x SigningMethodHS256
               (access_claims x j (s_UserID (rr_Session res)) (ext_now x n)) (ji_secret j) = Inl e) \<or>
          (\<exists>res v1. Rotate_spec F d_id d_tok x k k' raw v (res, Some e) v1 \<and>
             (if e = ErrTokenReused
              then audited F (new_AuditEvent EventTokenReuseDetected (s_UserID (rr_Session res)) [] None) v1 v'
              else v' = v1)))"

lemma rotate_ok_mono:
  assumes "rotate_ok d_id d_tok x k k' raw v res err v'" and "j \<le> k" and "k' \<le> j'"
  shows "rotate_ok d_id d_tok x j j' raw v res err v'"
  using assms(1) drawn_between_mono [OF _ assms(2,3)] unfolding rotate_ok_def by blast

lemma Rotate_spec_mono:
  assumes "Rotate_spec F d_id d_tok x k k' raw v r v'" and "j \<le> k" and "k' \<le> j'"
  shows "Rotate_spec F d_id d_tok x j j' raw v r v'"
  using assms(1) rotate_ok_mono [OF _ assms(2,3)] failed_between_mono [OF _ assms(2,3)]
  unfolding Rotate_spec_def rotate_failed_def by blast

lemma Rotate_spec_ok: "Rotate_spec F d_id d_tok x k k' raw v (res, None) v' \<Longrightarrow>
    rotate_ok d_id d_tok x k k' raw v res None v'"
  by (auto simp: Rotate_spec_def rotate_unknown_def rotate_reused_def rotate_failed_def)

lemma audited_Record: "audit_Record_spec F ev v r v' \<Longrightarrow> audited F ev v v'"
  by (auto simp: audited_def audit_Record_spec_def fault_option_def)

lemma RefreshToken_specI:
  assumes "Rotate_spec F d_id d_tok x k i' raw v (res, err) v1" and "i' \<le> k'"
  shows "err = None \<Longrightarrow> k \<le> n \<Longrightarrow> n < k' \<Longrightarrow>
      Inr acc = ext_jwt_SignedString x SigningMethodHS256
        (access_claims x j (s_UserID (rr_Session res)) (ext_now x n)) (ji_secret j) \<Longrightarrow>
      audited F (new_AuditEvent EventTokenRotated (s_UserID (rr_Session res)) [] None) v1 v' \<Longrightarrow>
      RefreshToken_spec F d_id d_tok j raw x k k' v
        (Inr \<lparr>tk_AccessToken = acc, tk_RefreshToken = rr_RawToken res\<rparr>) v'"
    and "err = None \<Longrightarrow>
      Inl e = ext_jwt_SignedString x SigningMethodHS256
        (access_claims x j (s_UserID (rr_Session res)) (ext_now x n)) (ji_secret j) \<Longrightarrow>
      RefreshToken_spec F d_id d_tok j raw x k k' v (Inl e) v1"
    and "err = Some ErrTokenReused \<Longrightarrow>
      audited F (new_AuditEvent EventTokenReuseDetected (s_UserID (rr_Session res)) [] None) v1 v' \<Longrightarrow>
      RefreshToken_spec F d_id d_tok j raw x k k' v (Inl ErrTokenReused) v'"
    and "err = Some e \<Longrightarrow> e \<noteq> ErrTokenReused \<Longrightarrow> RefreshToken_spec F d_id d_tok j raw x k k' v (Inl e) v1"
proof -
  have spec: "Rotate_spec F d_id d_tok x k k' raw v (res, err) v1"
    using Rotate_spec_mono [OF assms(1)] assms(2) by simp
  have ok: "err = None \<Longrightarrow> rotate_ok d_id d_tok x k k' raw v res None v1"
    using spec Rotate_spec_ok by blast
  show "err = None \<Longrightarrow> k \<le> n \<Longrightarrow> n < k' \<Longrightarrow>
      Inr acc = ext_jwt_SignedString x SigningMethodHS256
        (access_claims x j (s_UserID (rr_Session res)) (ext_now x n)) (ji_secret j) \<Longrightarrow>
      audited F (new_AuditEvent EventTokenRotated (s_UserID (rr_Session res)) [] None) v1 v' \<Longrightarrow>
      RefreshToken_spec F d_id d_tok j raw x k k' v
        (Inr \<lparr>tk_AccessToken = acc, tk_RefreshToken = rr_RawToken res\<rparr>) v'"
    unfolding RefreshToken_spec_def using ok
    by (simp, intro exI [of _ res] exI [of _ v1] conjI exI [of _ n]) simp_all
  show "err = None \<Longrightarrow>
      Inl e = ext_jwt_SignedString x SigningMethodHS256
        (access_claims x j (s_UserID (rr_Session res)) (ext_now x n)) (ji_secret j) \<Longrightarrow>
      RefreshToken_spec F d_id d_tok j raw x k k' v (Inl e) v1"
    unfolding RefreshToken_spec_def using ok by (simp del: split_paired_Ex) metis
  show "err = Some ErrTokenReused \<Longrightarrow>
      audited F (new_AuditEvent EventTokenReuseDetected (s_UserID (rr_Session res)) [] None) v1 v' \<Longrightarrow>
      RefreshToken_spec F d_id d_tok j raw x k k' v (Inl ErrTokenReused) v'"
    unfolding RefreshToken_spec_def using spec by auto
  show "err = Some e \<Longrightarrow> e \<noteq> ErrTokenReused \<Longrightarrow> RefreshToken_spec F d_id d_tok j raw x k k' v (Inl e) v1"
    unfolding RefreshToken_spec_def using spec by auto
qed

section \<open>An engine over the contracts\<close>

locale engine =
  login invar view faults "en_users e" stamp "en_audit e" "en_log e" "en_hasher e" matches sound hash_fails "en_ids e"
    drawn_id "en_rateLimiter e" refusals "en_sessions e" "en_refreshGen e" drawn_tok +
  accounts invar view faults "en_users e" stamp "en_sessions e" "en_audit e" "en_log e" "en_hasher e" matches sound hash_fails +
  session_control invar view faults "en_sessions e" "en_audit e" "en_log e" +
  rotation invar view faults "en_sessions e" "en_ids e" drawn_id "en_refreshGen e" drawn_tok
  for invar :: "'db \<Rightarrow> bool" and view :: "'db \<Rightarrow> dbview" and faults :: "error set" and stamp :: "Time \<Rightarrow> Time"
    and e :: "'db world Engine" and matches and sound and hash_fails and drawn_id and drawn_tok and refusals
begin

lemma RefreshToken_meets:
  "engine_op invar view (RefreshToken e raw)
     (RefreshToken_spec faults drawn_id drawn_tok (en_jwtIssuer e) raw)"
  unfolding RefreshToken_def refresh_answer_def
  apply (rule engine_opI, (intro wp_audited wp_intros; simp))
      apply (auto elim: RefreshToken_specI(2)) [1]
     apply (erule RefreshToken_specI(1); simp)
    apply (erule RefreshToken_specI(3); simp add: audited_Record)
   apply (erule RefreshToken_specI(3); simp add: audited_Record)
  apply (erule RefreshToken_specI(4); simp)
  done

end

section \<open>Calls\<close>

text \<open>
  One call of a public function, with any arguments and any result: what an application can do with an
  engine is the reflexive transitive closure of \<open>call\<close>.
\<close>

inductive call :: "'db world Engine \<Rightarrow> 'db world \<Rightarrow> 'db world \<Rightarrow> bool" for e where
  step_SignUp: "run_state (cryden_SignUp e email pw ip) w = (r, w') \<Longrightarrow> call e w w'"
| step_Login: "run_state (cryden_Login e email pw ip ua) w = (r, w') \<Longrightarrow> call e w w'"
| step_ChangePassword: "run_state (cryden_ChangePassword e uid cur new) w = (r, w') \<Longrightarrow> call e w w'"
| step_DeleteAccount: "run_state (cryden_DeleteAccount e uid cur) w = (r, w') \<Longrightarrow> call e w w'"
| step_RequestEmailChange:
    "run_state (cryden_RequestEmailChange e uid email) w = (r, w') \<Longrightarrow> call e w w'"
| step_ConfirmEmailChange: "run_state (cryden_ConfirmEmailChange e raw) w = (r, w') \<Longrightarrow> call e w w'"
| step_Logout: "run_state (cryden_Logout e sid uid) w = (r, w') \<Longrightarrow> call e w w'"
| step_LogoutAll: "run_state (cryden_LogoutAll e uid) w = (r, w') \<Longrightarrow> call e w w'"
| step_RefreshToken: "run_state (RefreshToken e raw) w = (r, w') \<Longrightarrow> call e w w'"
| step_VerifyToken: "run_state (VerifyToken e acc) w = (r, w') \<Longrightarrow> call e w w'"
| step_ListSessions: "run_state (ListSessions e uid) w = (r, w') \<Longrightarrow> call e w w'"
| step_RevokeSession: "run_state (RevokeSession e sid uid) w = (r, w') \<Longrightarrow> call e w w'"

end
