(* ===== verification/Session_Invariants.thy ===== *)
theory Session_Invariants
  imports Engine
begin

text \<open>
  What the promises of the operations keep true of the stored sessions, over any backend without
  faults. \<open>session_inv\<close> is the invariant of the sessions of a whole engine: identifiers and families
  are earlier draws, a family has one owner and at most one active session, and an active session
  belongs to a user that exists. \<open>evolves\<close> is how an operation may change a session that exists: it
  may stamp it, and nothing else, and a stamp stays.
\<close>

section \<open>The invariant\<close>

definition active :: "Session \<Rightarrow> bool" where
  "active s \<longleftrightarrow> s_RevokedAt s = None"

type_synonym draws = "externals \<Rightarrow> nat \<Rightarrow> error + string"

definition unique_draws :: "draws \<Rightarrow> externals \<Rightarrow> bool" where
  "unique_draws d x \<longleftrightarrow> (\<forall>i j a. d x i = Inr a \<longrightarrow> d x j = Inr a \<longrightarrow> i = j)"

lemma fresh_draw:
  assumes "unique_draws d x" and "drawn_between d x k k' a" and "drawn_between d x 0 k b"
  shows "a \<noteq> b"
  using assms unfolding unique_draws_def drawn_between_def by (metis leD)

definition session_inv :: "draws \<Rightarrow> externals \<Rightarrow> nat \<Rightarrow> string set \<Rightarrow> (string \<rightharpoonup> Session) \<Rightarrow> bool" where
  "session_inv d x k U S \<longleftrightarrow>
     (\<forall>i s. S i = Some s \<longrightarrow> s_ID s = i \<and> drawn_between d x 0 k i \<and> drawn_between d x 0 k (s_FamilyID s)) \<and>
     (\<forall>i s j s'. S i = Some s \<longrightarrow> S j = Some s' \<longrightarrow> s_FamilyID s = s_FamilyID s' \<longrightarrow>
        s_UserID s = s_UserID s' \<and> (active s \<longrightarrow> active s' \<longrightarrow> i = j)) \<and>
     (\<forall>i s. S i = Some s \<longrightarrow> active s \<longrightarrow> s_UserID s \<in> U)"

definition evolves :: "draws \<Rightarrow> externals \<Rightarrow> nat \<Rightarrow> (string \<rightharpoonup> Session) \<Rightarrow> (string \<rightharpoonup> Session) \<Rightarrow> bool" where
  "evolves d x k S S' \<longleftrightarrow> (\<forall>i s'. drawn_between d x 0 k i \<longrightarrow> S' i = Some s' \<longrightarrow>
     (\<exists>s r. S i = Some s \<and> s' = s\<lparr>s_RevokedAt := r\<rparr> \<and> (active s' \<longrightarrow> active s)))"

lemma session_invI:
  assumes "\<And>i s. S i = Some s \<Longrightarrow> s_ID s = i \<and> drawn_between d x 0 k i \<and> drawn_between d x 0 k (s_FamilyID s)"
    and "\<And>i s j s'. S i = Some s \<Longrightarrow> S j = Some s' \<Longrightarrow> s_FamilyID s = s_FamilyID s' \<Longrightarrow> s_UserID s = s_UserID s'"
    and "\<And>i s j s'. S i = Some s \<Longrightarrow> S j = Some s' \<Longrightarrow> s_FamilyID s = s_FamilyID s' \<Longrightarrow>
      active s \<Longrightarrow> active s' \<Longrightarrow> i = j"
    and "\<And>i s. S i = Some s \<Longrightarrow> active s \<Longrightarrow> s_UserID s \<in> U"
  shows "session_inv d x k U S"
  unfolding session_inv_def using assms by blast

lemma session_invD:
  assumes "session_inv d x k U S"
  shows "S i = Some s \<Longrightarrow> s_ID s = i" "S i = Some s \<Longrightarrow> drawn_between d x 0 k i"
    "S i = Some s \<Longrightarrow> drawn_between d x 0 k (s_FamilyID s)"
    "S i = Some s \<Longrightarrow> S j = Some s' \<Longrightarrow> s_FamilyID s = s_FamilyID s' \<Longrightarrow> s_UserID s = s_UserID s'"
    "S i = Some s \<Longrightarrow> S j = Some s' \<Longrightarrow> s_FamilyID s = s_FamilyID s' \<Longrightarrow> active s \<Longrightarrow> active s' \<Longrightarrow> i = j"
    "S i = Some s \<Longrightarrow> active s \<Longrightarrow> s_UserID s \<in> U"
  using assms unfolding session_inv_def by blast+

lemma session_inv_mono:
  assumes "session_inv d x k U S" and "k \<le> k'" and "U \<subseteq> U'"
  shows "session_inv d x k' U' S"
proof (rule session_invI)
  fix i s assume i: "S i = Some s"
  show "s_ID s = i \<and> drawn_between d x 0 k' i \<and> drawn_between d x 0 k' (s_FamilyID s)"
    using session_invD(1-3) [OF assms(1) i] drawn_between_mono [OF _ order_refl assms(2)] by simp
  show "s_UserID s \<in> U'" if "active s"
    using session_invD(6) [OF assms(1) i that] assms(3) by blast
  fix j s' assume j: "S j = Some s'" "s_FamilyID s = s_FamilyID s'"
  show "s_UserID s = s_UserID s'" by (rule session_invD(4) [OF assms(1) i j])
  show "i = j" if "active s" "active s'" by (rule session_invD(5) [OF assms(1) i j that])
qed

lemma evolves_refl: "evolves d x k S S"
  unfolding evolves_def by (metis Session.surjective Session.update_convs(8))

lemma evolves_trans:
  assumes "evolves d x k S T" and "evolves d x k' T U" and "k \<le> k'"
  shows "evolves d x k S U"
  unfolding evolves_def
proof (intro allI impI)
  fix i u assume i: "drawn_between d x 0 k i" and u: "U i = Some u"
  have "drawn_between d x 0 k' i" by (rule drawn_between_mono [OF i order_refl assms(3)])
  with assms(2) u obtain t r where t: "T i = Some t" "u = t\<lparr>s_RevokedAt := r\<rparr>" "active u \<longrightarrow> active t"
    unfolding evolves_def by blast
  with assms(1) i obtain s q where s: "S i = Some s" "t = s\<lparr>s_RevokedAt := q\<rparr>" "active t \<longrightarrow> active s"
    unfolding evolves_def by blast
  with t show "\<exists>s r. S i = Some s \<and> u = s\<lparr>s_RevokedAt := r\<rparr> \<and> (active u \<longrightarrow> active s)"
    by (intro exI [of _ s] exI [of _ r]) simp
qed

section \<open>Changes of the sessions\<close>

text \<open>
  Four changes make up every operation: stamping some of the sessions (or dropping them, as a
  backend may when it deletes their user), starting a family, and continuing one.
\<close>

definition stamped :: "(string \<rightharpoonup> Session) \<Rightarrow> (string \<rightharpoonup> Session) \<Rightarrow> bool" where
  "stamped S S' \<longleftrightarrow> (\<forall>i s'. S' i = Some s' \<longrightarrow>
     (\<exists>s r. S i = Some s \<and> s' = s\<lparr>s_RevokedAt := r\<rparr> \<and> (active s' \<longrightarrow> active s)))"

lemma stamped_evolves: "stamped S S' \<Longrightarrow> evolves d x k S S'"
  unfolding stamped_def evolves_def by blast

lemma stamped_inv:
  assumes inv: "session_inv d x k U S" and st: "stamped S S'"
    and U': "\<And>i s'. S' i = Some s' \<Longrightarrow> active s' \<Longrightarrow> s_UserID s' \<in> U \<Longrightarrow> s_UserID s' \<in> U'"
  shows "session_inv d x k U' S'"
proof (rule session_invI)
  have old: "\<exists>s r. S i = Some s \<and> s' = s\<lparr>s_RevokedAt := r\<rparr> \<and> (active s' \<longrightarrow> active s)" if "S' i = Some s'" for i s'
    using st that unfolding stamped_def by blast
  fix i s assume i: "S' i = Some s"
  from old [OF i] obtain a r where a: "S i = Some a" "s = a\<lparr>s_RevokedAt := r\<rparr>" "active s \<longrightarrow> active a" by blast
  then show "s_ID s = i \<and> drawn_between d x 0 k i \<and> drawn_between d x 0 k (s_FamilyID s)"
    using session_invD(1-3) [OF inv a(1)] by simp
  show "s_UserID s \<in> U'" if "active s"
    using U' [OF i that] session_invD(6) [OF inv a(1)] a that by simp
  fix j s' assume j: "S' j = Some s'" and fam: "s_FamilyID s = s_FamilyID s'"
  from old [OF j] obtain b q where b: "S j = Some b" "s' = b\<lparr>s_RevokedAt := q\<rparr>" "active s' \<longrightarrow> active b" by blast
  show "s_UserID s = s_UserID s'"
    using session_invD(4) [OF inv a(1) b(1)] a b fam by simp
  show "i = j" if "active s" "active s'"
    using session_invD(5) [OF inv a(1) b(1)] a b fam that by simp
qed

lemma stamped_refl: "stamped S S"
  unfolding stamped_def by (metis Session.surjective Session.update_convs(8))

lemma stamped_trans: "stamped S T \<Longrightarrow> stamped T U \<Longrightarrow> stamped S U"
  using evolves_trans [of "\<lambda>_ _. Inr i" x 1 S T 1 U for i x]
  unfolding stamped_def evolves_def drawn_between_def by fastforce

lemma stamped_sub: "S' \<subseteq>\<^sub>m S \<Longrightarrow> stamped S S'"
  using stamped_refl [of S] unfolding stamped_def map_le_def by (metis domI)

lemma stamped_revoke_where: "stamped S (revoke_where P t S)"
  using stamped_refl [of S] unfolding stamped_def revoke_where_def active_def by (auto split: if_splits)

lemma stamped_one: "S i = Some s \<Longrightarrow> stamped S (S(i \<mapsto> s\<lparr>s_RevokedAt := Some t\<rparr>))"
  using stamped_refl [of S] unfolding stamped_def active_def by auto

text \<open>Putting a session under a fresh identifier next to sessions that satisfy the invariant.\<close>

lemma put_fresh_inv:
  assumes inv: "session_inv d x k U S" and uniq: "unique_draws d x" and i: "drawn_between d x k k' i"
    and n: "s_ID n = i" "drawn_between d x 0 k' (s_FamilyID n)" "s_UserID n \<in> U" and "k \<le> k'"
    and fam: "\<And>b s. S b = Some s \<Longrightarrow> s_FamilyID s = s_FamilyID n \<Longrightarrow> s_UserID s = s_UserID n \<and> \<not> active s"
  shows "session_inv d x k' U (S(i \<mapsto> n))" and "evolves d x k S (S(i \<mapsto> n))"
proof -
  have fresh: "\<not> drawn_between d x 0 k i"
    using fresh_draw [OF uniq i] by blast
  have i': "drawn_between d x 0 k' i"
    by (rule drawn_between_mono [OF i]) simp_all
  note old = session_invD [OF session_inv_mono [OF inv \<open>k \<le> k'\<close> order_refl]]
  show "session_inv d x k' U (S(i \<mapsto> n))"
  proof (rule session_invI)
    fix a u assume a: "(S(i \<mapsto> n)) a = Some u"
    show "s_ID u = a \<and> drawn_between d x 0 k' a \<and> drawn_between d x 0 k' (s_FamilyID u)"
      using a old(1-3) [of a u] n i' by (auto split: if_splits)
    show "s_UserID u \<in> U" if "active u"
      using a old(6) [of a u] n that by (auto split: if_splits)
    fix b u' assume b: "(S(i \<mapsto> n)) b = Some u'" and eq: "s_FamilyID u = s_FamilyID u'"
    show "s_UserID u = s_UserID u'"
      using a b eq old(4) [of a u b u'] fam [of a u] fam [of b u'] by (metis fun_upd_apply option.inject)
    show "a = b" if "active u" "active u'"
      using a b eq that old(5) [of a u b u'] fam [of a u] fam [of b u'] by (metis fun_upd_apply option.inject)
  qed
  show "evolves d x k S (S(i \<mapsto> n))"
    using evolves_refl [of d x k S] fresh unfolding evolves_def by auto
qed

lemma new_family_inv:
  assumes inv: "session_inv d x k U S" and uniq: "unique_draws d x" and i: "drawn_between d x k k' i"
    and n: "s_ID n = i" "s_FamilyID n = i" "s_UserID n \<in> U" and "k \<le> k'"
  shows "session_inv d x k' U (S(i \<mapsto> n))" and "evolves d x k S (S(i \<mapsto> n))"
proof -
  have "drawn_between d x 0 k' i"
    by (rule drawn_between_mono [OF i]) simp_all
  moreover have "s_FamilyID s \<noteq> i" if "S b = Some s" for b s
    using fresh_draw [OF uniq i session_invD(3) [OF inv that]] by simp
  ultimately show "session_inv d x k' U (S(i \<mapsto> n))" and "evolves d x k S (S(i \<mapsto> n))"
    using put_fresh_inv [OF inv uniq i] n \<open>k \<le> k'\<close> by metis+
qed

lemma continue_family_inv:
  assumes inv: "session_inv d x k U S" and uniq: "unique_draws d x" and i: "drawn_between d x k k' i"
    and s: "S j = Some s" "active s" and n: "s_ID n = i" "s_FamilyID n = s_FamilyID s" "s_UserID n = s_UserID s"
    and "k \<le> k'"
  shows "session_inv d x k' U (S(j \<mapsto> s\<lparr>s_RevokedAt := Some t\<rparr>, i \<mapsto> n))"
    and "evolves d x k S (S(j \<mapsto> s\<lparr>s_RevokedAt := Some t\<rparr>, i \<mapsto> n))"
proof -
  let ?T = "S(j \<mapsto> s\<lparr>s_RevokedAt := Some t\<rparr>)"
  have st: "stamped S ?T" using s(1) by (rule stamped_one)
  have T: "session_inv d x k U ?T" by (rule stamped_inv [OF inv st])
  have fam: "drawn_between d x 0 k' (s_FamilyID s)"
    using session_invD(3) [OF session_inv_mono [OF inv \<open>k \<le> k'\<close> order_refl] s(1)] .
  have others: "s_UserID s' = s_UserID s \<and> \<not> active s'" if "?T b = Some s'" "s_FamilyID s' = s_FamilyID s" for b s'
    using session_invD(4,5) [OF inv _ s(1) that(2)] s(2) that by (auto simp: active_def split: if_splits)
  have put: "session_inv d x k' U (?T(i \<mapsto> n)) \<and> evolves d x k ?T (?T(i \<mapsto> n))"
    using put_fresh_inv [OF T uniq i] n fam others session_invD(6) [OF inv s] \<open>k \<le> k'\<close> by metis
  then show "session_inv d x k' U (?T(i \<mapsto> n))" by blast
  show "evolves d x k S (?T(i \<mapsto> n))"
    using evolves_trans [OF stamped_evolves [OF st]] put by blast
qed

section \<open>Every operation keeps the invariant\<close>

text \<open>
  A call stamps some of the sessions and then adds at most one, which holds the hash of a token drawn
  during the call.
\<close>

definition adds_token :: "draws \<Rightarrow> externals \<Rightarrow> nat \<Rightarrow> nat \<Rightarrow> (string \<rightharpoonup> Session) \<Rightarrow> (string \<rightharpoonup> Session) \<Rightarrow> bool" where
  "adds_token dt x k k' S S' \<longleftrightarrow> (\<exists>T. stamped S T \<and>
     (S' = T \<or> (\<exists>i n raw. drawn_between dt x k k' raw \<and> s_TokenHash n = HashToken raw \<and> S' = T(i \<mapsto> n))))"

definition keeps_sessions :: "draws \<Rightarrow> draws \<Rightarrow> externals \<Rightarrow> nat \<Rightarrow> nat \<Rightarrow> dbview \<Rightarrow> dbview \<Rightarrow> bool" where
  "keeps_sessions d dt x k k' v v' \<longleftrightarrow>
     (unique_draws d x \<longrightarrow> session_inv d x k (dom (v_users v)) (v_sessions v) \<longrightarrow>
        session_inv d x k' (dom (v_users v')) (v_sessions v') \<and>
        evolves d x k (v_sessions v) (v_sessions v')) \<and>
     adds_token dt x k k' (v_sessions v) (v_sessions v')"

lemma keeps_stamped_active:
  assumes st: "stamped (v_sessions v) (v_sessions v')" and "k \<le> k'"
    and "\<And>i s. v_sessions v' i = Some s \<Longrightarrow> active s \<Longrightarrow> s_UserID s \<in> dom (v_users v) \<Longrightarrow> s_UserID s \<in> dom (v_users v')"
  shows "keeps_sessions d dt x k k' v v'"
  unfolding keeps_sessions_def
proof (intro conjI impI)
  assume "session_inv d x k (dom (v_users v)) (v_sessions v)"
  from stamped_inv [OF this st assms(3)] have "session_inv d x k (dom (v_users v')) (v_sessions v')" .
  then show "session_inv d x k' (dom (v_users v')) (v_sessions v')"
    by (rule session_inv_mono) (use assms(2) in simp_all)
  show "evolves d x k (v_sessions v) (v_sessions v')" using st by (rule stamped_evolves)
next
  show "adds_token dt x k k' (v_sessions v) (v_sessions v')" using st by (auto simp: adds_token_def)
qed

lemma keeps_stamped:
  assumes "stamped (v_sessions v) (v_sessions v')" and "dom (v_users v) \<subseteq> dom (v_users v')" and "k \<le> k'"
  shows "keeps_sessions d dt x k k' v v'"
  by (rule keeps_stamped_active [OF assms(1,3)]) (use assms(2) in blast)

lemma keeps_same:
  assumes "v_sessions v' = v_sessions v" and "dom (v_users v) \<subseteq> dom (v_users v')" and "k \<le> k'"
  shows "keeps_sessions d dt x k k' v v'"
  using assms keeps_stamped stamped_refl by metis

lemma keeps_new_family:
  assumes "drawn_between d x k k' i" and "s_ID n = i" and "s_FamilyID n = i" and "s_UserID n \<in> dom (v_users v)"
    and "v_sessions v' = (v_sessions v)(i \<mapsto> n)" and "dom (v_users v') = dom (v_users v)" and "k \<le> k'"
    and "drawn_between dt x k k' raw" and "s_TokenHash n = HashToken raw"
  shows "keeps_sessions d dt x k k' v v'"
proof -
  have "adds_token dt x k k' (v_sessions v) (v_sessions v')"
    unfolding adds_token_def using assms(5,8,9) stamped_refl by blast
  with assms(5,6) new_family_inv [OF _ _ assms(1-4,7)] show ?thesis by (simp add: keeps_sessions_def)
qed

lemma keeps_continue:
  assumes "drawn_between d x k k' i" and "v_sessions v j = Some s" and "active s"
    and "s_ID n = i" and "s_FamilyID n = s_FamilyID s" and "s_UserID n = s_UserID s"
    and "v_sessions v' = (v_sessions v)(j \<mapsto> s\<lparr>s_RevokedAt := Some t\<rparr>, i \<mapsto> n)"
    and "v_users v' = v_users v" and "k \<le> k'"
    and "drawn_between dt x k k' raw" and "s_TokenHash n = HashToken raw"
  shows "keeps_sessions d dt x k k' v v'"
proof -
  have "adds_token dt x k k' (v_sessions v) (v_sessions v')"
    unfolding adds_token_def using assms(7,10,11) stamped_one [where S = "v_sessions v", OF assms(2), of t] by blast
  with assms(7,8) continue_family_inv [where S = "v_sessions v", OF _ _ assms(1-6,9)] show ?thesis
    by (simp add: keeps_sessions_def)
qed

lemma audited_same: "audited F ev v v' \<Longrightarrow>
    v_users v' = v_users v \<and> v_sessions v' = v_sessions v \<and> v_verifs v' = v_verifs v"
  using audited_data by blast

lemma SignUp_keeps:
  assumes "SignUp_spec F refusals matches sound hash_fails d' email password ip x k k' v r v'" and "k \<le> k'"
  shows "keeps_sessions d dt x k k' v v'"
proof (rule keeps_same [OF _ _ assms(2)])
  show "v_sessions v' = v_sessions v" and "dom (v_users v) \<subseteq> dom (v_users v')"
    using assms(1) by (auto simp: SignUp_spec_def signup_checked_spec_def put_user_def dest!: audited_same split: sum.splits if_splits)
qed

lemma lockout_users:
  assumes "lockout_spec F st threshold duration x k k' u ip v v'"
  shows "v_sessions v' = v_sessions v" and "v_users v' = v_users v \<or> (\<exists>u'. v_users v' = (v_users v)(u_ID u \<mapsto> u'))"
  using assms by (auto simp: lockout_spec_def put_user_def counted_def dest!: audited_same)

lemma login_session_keeps:
  assumes "login_session_spec F d dt j ip agent x k k' u v r v'" and "v_users v (u_ID u) = Some u" and "k \<le> k'"
  shows "keeps_sessions d dt x k k' v v'"
proof -
  from assms(1) obtain v1 where reset: "login_reset F u v v1" and
    "v' = v1 \<or> (\<exists>i raw t. drawn_between d x k k' i \<and> drawn_between dt x k k' raw \<and>
       (v' = put_session (fresh_session i u raw ip agent t) v1 \<or>
        (\<exists>ev. audited F ev (put_session (fresh_session i u raw ip agent t) v1) v')))"
    unfolding login_session_spec_def by (cases r) (simp_all, blast+)
  then consider "v' = v1"
    | i raw t where "drawn_between d x k k' i" "drawn_between dt x k k' raw"
        "v_sessions v' = v_sessions (put_session (fresh_session i u raw ip agent t) v1)" "v_users v' = v_users v1"
    by (auto dest!: audited_same simp: put_session_def)
  moreover from reset assms(2) have v1: "v_sessions v1 = v_sessions v" "dom (v_users v1) = dom (v_users v)" "u_ID u \<in> dom (v_users v)"
    by (auto simp: login_reset_def put_user_def unlocked_def split: if_splits)
  ultimately show ?thesis
  proof cases
    case 1
    with v1 assms(3) show ?thesis by (intro keeps_same) simp_all
  next
    case 2
    with v1 assms(3) show ?thesis
      by (intro keeps_new_family [where n = "fresh_session i u raw ip agent t", OF 2(1) _ _ _ _ _ _ 2(2)]) (simp_all add: put_session_def)
  qed
qed

lemma Login_keeps:
  assumes "Login_spec F st refusals matches d dt j email password ip agent threshold duration x k k' v r v'"
    and "k \<le> k'"
  shows "keeps_sessions d dt x k k' v v'"
proof -
  from assms(1) consider "v' = v" | ev where "audited F ev v v'"
    | u v1 ev where "found_user v email u" "audited F ev v v1" "lockout_spec F st threshold duration x k k' u ip v1 v'"
    | u where "found_user v email u" "login_session_spec F d dt j ip agent x k k' u v r v'"
    unfolding Login_spec_def login_checked_spec_def login_unknown_def login_locked_def login_wrong_def by blast
  then show ?thesis
  proof cases
    case 1
    with assms(2) show ?thesis by (intro keeps_same) simp_all
  next
    case 2
    with assms(2) audited_data [OF 2] show ?thesis by (intro keeps_same) simp_all
  next
    case 3
    with lockout_users [OF 3(3)] audited_data [OF 3(2)] assms(2) show ?thesis
      by (intro keeps_same) auto
  next
    case 4
    with login_session_keeps assms(2) show ?thesis by (auto simp: found_user_def)
  qed
qed

lemma revoke_where_active:
  assumes "revoke_where P t S i = Some s" and "active s"
  shows "S i = Some s \<and> \<not> P s"
proof -
  from assms(1) obtain a where a: "S i = Some a"
    "s = (if P a \<and> s_RevokedAt a = None then a\<lparr>s_RevokedAt := Some t\<rparr> else a)"
    by (auto simp: revoke_where_def)
  from a(2) assms(2) have "\<not> (P a \<and> s_RevokedAt a = None)"
    by (auto simp: active_def split: if_splits)
  with a assms(2) show ?thesis by (auto simp: active_def)
qed

lemma all_revoked_stamped:
  assumes "all_revoked F userID v v'"
  shows "stamped (v_sessions v) (v_sessions v')" and "v_users v' = v_users v"
    and "F = {} \<Longrightarrow> v_sessions v' i = Some s \<Longrightarrow> active s \<Longrightarrow> s_UserID s \<noteq> userID"
  using assms revoke_where_active [where P = "\<lambda>s. s_UserID s = userID" and S = "v_sessions v" and i = i and s = s]
  by (auto simp: all_revoked_def stamped_revoke_where stamped_refl)

lemma ChangePassword_keeps:
  assumes "ChangePassword_spec F matches sound hash_fails userID current new x v r v'" and "k \<le> k'"
  shows "keeps_sessions d dt x k k' v v'"
proof -
  from assms(1) consider "v' = v"
    | u hash t v1 ev where "all_revoked F userID (put_user (u\<lparr>u_PasswordHash := hash, u_UpdatedAt := t\<rparr>) v) v1"
        "audited F ev v1 v'"
    unfolding ChangePassword_spec_def reconfirm_refused_def by blast
  then show ?thesis
  proof cases
    case 1
    with assms(2) show ?thesis by (intro keeps_same) simp_all
  next
    case 2
    with all_revoked_stamped [OF 2(1)] audited_data [OF 2(2)] assms(2) show ?thesis
      by (intro keeps_stamped) (auto simp: put_user_def)
  qed
qed

text \<open>
  The failure to revoke the sessions of a deleted account is only logged. Either the backend has no
  faults, or it must itself keep the sessions of users that do not exist out of its tables.
\<close>

definition owned :: "dbview \<Rightarrow> bool" where
  "owned v \<longleftrightarrow> (\<forall>i s. v_sessions v i = Some s \<longrightarrow> s_UserID s \<in> dom (v_users v))"

lemma DeleteAccount_keeps:
  assumes "DeleteAccount_spec F matches userID current x v r v'" and "k \<le> k'" and "F = {} \<or> owned v'"
  shows "keeps_sessions d dt x k k' v v'"
proof -
  from assms(1) consider "v' = v"
    | v1 v2 ev where "all_revoked F userID v v1" "audited F ev v1 v2"
        "v_users v' = v_users v2 \<and> v_sessions v' = v_sessions v2"
    | v1 v2 ev where "all_revoked F userID v v1" "audited F ev v1 v2"
        "v_users v' = (v_users v2)(userID := None)" "v_sessions v' \<subseteq>\<^sub>m v_sessions v2"
    by (auto simp: DeleteAccount_spec_def reconfirm_refused_def user_Delete_spec_def fault_option_def)
  then show ?thesis
  proof cases
    case 1
    with assms(2) show ?thesis by (intro keeps_same) simp_all
  next
    case 2
    with all_revoked_stamped [OF 2(1)] audited_data [OF 2(2)] assms(2) show ?thesis by (intro keeps_stamped) simp_all
  next
    case 3
    note rev = all_revoked_stamped [OF 3(1)] and aud = audited_data [OF 3(2)]
    have st: "stamped (v_sessions v) (v_sessions v')"
      using rev stamped_sub [OF 3(4)] aud(2) by (auto elim: stamped_trans)
    have "s_UserID s \<noteq> userID" if "F = {}" "v_sessions v' i = Some s" "active s" for i s
    proof -
      have "v_sessions v1 i = Some s"
        using 3(4) that(2) aud(2) unfolding map_le_def by (metis domI)
      with rev(3) that show ?thesis by blast
    qed
    moreover have "dom (v_users v') = dom (v_users v) - {userID}"
      using 3(3) aud(1) rev by auto
    ultimately have "s_UserID s \<in> dom (v_users v')"
      if "v_sessions v' i = Some s" "active s" "s_UserID s \<in> dom (v_users v)" for i s
      using that assms(3) unfolding owned_def by blast
    then show ?thesis by (rule keeps_stamped_active [OF st assms(2)])
  qed
qed

lemma end_session_keeps:
  assumes "end_session_spec F event sessionID userID v r v'" and "k \<le> k'"
  shows "keeps_sessions d dt x k k' v v'"
proof (rule keeps_stamped [OF _ _ assms(2)])
  show "stamped (v_sessions v) (v_sessions v')" and "dom (v_users v) \<subseteq> dom (v_users v')"
    using assms(1) by (auto simp: end_session_spec_def audited_def stamped_refl stamped_one split: option.splits)
qed

lemma LogoutAll_keeps:
  assumes "LogoutAll_spec F userID v r v'" and "k \<le> k'"
  shows "keeps_sessions d dt x k k' v v'"
proof (rule keeps_stamped [OF _ _ assms(2)])
  show "stamped (v_sessions v) (v_sessions v')" and "dom (v_users v) \<subseteq> dom (v_users v')"
    using assms(1) by (auto simp: LogoutAll_spec_def stamped_revoke_where stamped_refl dest!: audited_same split: option.splits)
qed

lemma rotate_ok_keeps:
  assumes "rotate_ok d dt x k k' raw v res err v1" and "v_sessions v' = v_sessions v1" and "v_users v' = v_users v1"
    and "k \<le> k'"
  shows "keeps_sessions d dt x k k' v v'"
proof -
  from assms(1) obtain s newID t t' where rot: "stored_token v raw s" "s_RevokedAt s = None"
    "rr_Session res = successor s newID (rr_RawToken res)" "drawn_between d x k k' newID"
    "drawn_between dt x k k' (rr_RawToken res)"
    "v1 = v\<lparr>v_sessions := (v_sessions v)(s_ID s \<mapsto> s\<lparr>s_RevokedAt := Some t\<rparr>,
      newID \<mapsto> (rr_Session res)\<lparr>s_CreatedAt := t'\<rparr>)\<rparr>"
    unfolding rotate_ok_def by blast
  show ?thesis
    by (rule keeps_continue [where j = "s_ID s" and s = s and n = "(rr_Session res)\<lparr>s_CreatedAt := t'\<rparr>" and t = t
        and raw = "rr_RawToken res"])
      (use rot assms in \<open>simp_all add: stored_token_def active_def\<close>)
qed

lemma RefreshToken_keeps:
  assumes "RefreshToken_spec F d dt j raw x k k' v r v'" and "k \<le> k'"
  shows "keeps_sessions d dt x k k' v v'"
proof -
  from assms(1) consider
      res v1 ev where "rotate_ok d dt x k k' raw v res None v1" "audited F ev v1 v'"
    | res where "rotate_ok d dt x k k' raw v res None v'"
    | res e v1 ev where "Rotate_spec F d dt x k k' raw v (res, Some e) v1" "v' = v1 \<or> audited F ev v1 v'"
    unfolding RefreshToken_spec_def by (cases r) (simp_all split: if_splits, blast+)
  then show ?thesis
  proof cases
    case 1
    with rotate_ok_keeps [OF 1(1)] audited_data [OF 1(2)] assms(2) show ?thesis by simp
  next
    case 2
    with rotate_ok_keeps [OF 2] assms(2) show ?thesis by simp
  next
    case 3
    from 3(1) have v1: "stamped (v_sessions v) (v_sessions v1)" "v_users v1 = v_users v"
      by (auto simp: Rotate_spec_def rotate_defs stamped_refl stamped_revoke_where)
    from 3(2) have "v_sessions v' = v_sessions v1" "v_users v' = v_users v1"
      by (auto dest: audited_data)
    with v1 assms(2) show ?thesis by (intro keeps_stamped) simp_all
  qed
qed

lemma RequestEmailChange_keeps:
  assumes "RequestEmailChange_spec F st R d' d_tok userID newEmail x k k' v r v' mails" and "k \<le> k'"
  shows "keeps_sessions d dt x k k' v v'"
proof (rule keeps_same [OF _ _ assms(2)])
  show "v_sessions v' = v_sessions v" and "dom (v_users v) \<subseteq> dom (v_users v')"
    using assms(1) by (auto simp: RequestEmailChange_spec_def put_verif_def audited_def split: if_splits)
qed

lemma ConfirmEmailChange_keeps:
  assumes "ConfirmEmailChange_spec F raw x k k' v r v'" and "k \<le> k'"
  shows "keeps_sessions d dt x k k' v v'"
proof (rule keeps_same [OF _ _ assms(2)])
  show "v_sessions v' = v_sessions v" and "dom (v_users v) \<subseteq> dom (v_users v')"
    using assms(1)
    by (auto simp: ConfirmEmailChange_spec_def confirm_refused_def marked_used_def put_verif_def dest!: audited_same split: if_splits)
qed

section \<open>No operation brings a user back\<close>

text \<open>A user that is there after a call was there before it, or has an identifier drawn by the call.\<close>

definition only_new_users :: "draws \<Rightarrow> externals \<Rightarrow> nat \<Rightarrow> nat \<Rightarrow> dbview \<Rightarrow> dbview \<Rightarrow> bool" where
  "only_new_users d x k k' v v' \<longleftrightarrow>
     (\<forall>i \<in> dom (v_users v'). i \<in> dom (v_users v) \<or> drawn_between d x k k' i)"

lemma only_new_subset: "dom (v_users v') \<subseteq> dom (v_users v) \<Longrightarrow> only_new_users d x k k' v v'"
  by (auto simp: only_new_users_def)

lemma SignUp_users:
  "SignUp_spec F refusals matches sound hash_fails d email password ip x k k' v r v' \<Longrightarrow> only_new_users d x k k' v v'"
  by (auto simp: SignUp_spec_def signup_checked_spec_def only_new_users_def put_user_def audited_def split: sum.splits if_splits)

lemma login_session_users:
  assumes "login_session_spec F d_id d_tok j ip agent x k k' u v r v'" and "v_users v (u_ID u) = Some u"
  shows "dom (v_users v') \<subseteq> dom (v_users v)"
proof -
  from assms(1) obtain v1 where "login_reset F u v v1" "v_users v' = v_users v1"
    unfolding login_session_spec_def by (cases r) (auto simp: put_session_def dest!: audited_same)
  with assms(2) show ?thesis by (auto simp: login_reset_def put_user_def unlocked_def split: if_splits)
qed

lemma Login_users:
  assumes "Login_spec F st refusals matches d_id d_tok j email password ip agent threshold duration x k k' v r v'"
  shows "only_new_users d x k k' v v'"
proof (rule only_new_subset)
  from assms consider "v' = v" | ev where "audited F ev v v'"
    | u v1 ev where "found_user v email u" "audited F ev v v1" "lockout_spec F st threshold duration x k k' u ip v1 v'"
    | u where "found_user v email u" "login_session_spec F d_id d_tok j ip agent x k k' u v r v'"
    unfolding Login_spec_def login_checked_spec_def login_unknown_def login_locked_def login_wrong_def by blast
  then show "dom (v_users v') \<subseteq> dom (v_users v)"
  proof cases
    case 2
    with audited_data [OF 2] show ?thesis by simp
  next
    case 3
    with lockout_users [OF 3(3)] audited_data [OF 3(2)] show ?thesis
      by (auto simp: found_user_def split: if_splits)
  next
    case 4
    with login_session_users [OF 4(2)] show ?thesis by (simp add: found_user_def)
  qed simp
qed

lemma ChangePassword_users:
  assumes "ChangePassword_spec F matches sound hash_fails userID current new x v r v'"
  shows "only_new_users d x k k' v v'"
proof (rule only_new_subset)
  from assms consider "v' = v"
    | u hash t v1 ev where "v_users v userID = Some u" "u_ID u = userID"
        "all_revoked F userID (put_user (u\<lparr>u_PasswordHash := hash, u_UpdatedAt := t\<rparr>) v) v1"
        "audited F ev v1 v'"
    unfolding ChangePassword_spec_def reconfirm_refused_def by blast
  then show "dom (v_users v') \<subseteq> dom (v_users v)"
  proof cases
    case 2
    with all_revoked_stamped(2) [OF 2(3)] audited_data(1) [OF 2(4)] show ?thesis
      by (auto simp: put_user_def)
  qed simp
qed

lemma DeleteAccount_users:
  "DeleteAccount_spec F matches userID current x v r v' \<Longrightarrow> only_new_users d x k k' v v'"
  by (rule only_new_subset)
    (auto simp: DeleteAccount_spec_def reconfirm_refused_def user_Delete_spec_def fault_option_def
      all_revoked_def audited_def split: if_splits)

lemma same_users:
  "end_session_spec F event sessionID userID v r v' \<Longrightarrow> only_new_users d x k k' v v'"
  "LogoutAll_spec F userID v r v' \<Longrightarrow> only_new_users d x k k' v v'"
  "RequestEmailChange_spec F st R d_id d_tok userID newEmail x k k' v r v' mails \<Longrightarrow> only_new_users d x k k' v v'"
  by (auto simp: end_session_spec_def LogoutAll_spec_def RequestEmailChange_spec_def put_verif_def audited_def
      intro!: only_new_subset split: option.splits if_splits)

lemma RefreshToken_users:
  assumes "RefreshToken_spec F d_id d_tok j raw x k k' v r v'"
  shows "only_new_users d x k k' v v'"
proof (rule only_new_subset)
  have "v_users v' = v_users v"
    using assms
    by (auto simp: RefreshToken_spec_def Rotate_spec_def rotate_defs audited_def split: sum.splits if_splits)
  then show "dom (v_users v') \<subseteq> dom (v_users v)" by simp
qed

lemma ConfirmEmailChange_users:
  "ConfirmEmailChange_spec F raw x k k' v r v' \<Longrightarrow> only_new_users d x k k' v v'"
  by (rule only_new_subset)
    (auto simp: ConfirmEmailChange_spec_def confirm_refused_def marked_used_def put_verif_def audited_def
      split: if_splits)

end
