(* ===== verification/Engine_Runs.thy ===== *)
theory Engine_Runs
  imports Session_Invariants
begin

text \<open>
  Runs of an engine over any backend that keeps the contracts: any sequence of calls of the public
  functions, with any arguments, one after the other. The locale \<open>engine_runs\<close> is what the runs rely on;
  the invariant of \<open>Session_Invariants\<close> holds in every state that a run reaches.
\<close>

section \<open>What one call promises\<close>

text \<open>The frame, and the relations of \<open>Session_Invariants\<close>.\<close>

definition call_effect :: "('db \<Rightarrow> bool) \<Rightarrow> ('db \<Rightarrow> dbview) \<Rightarrow> draws \<Rightarrow> 'db world \<Rightarrow> 'db world \<Rightarrow> bool" where
  "call_effect invar view dt w w' \<longleftrightarrow> invar (w_db w') \<and> w_ext w' = w_ext w \<and> w_tick w \<le> w_tick w' \<and>
     keeps_sessions ext_uuid_NewV7 dt (w_ext w) (w_tick w) (w_tick w') (view (w_db w)) (view (w_db w')) \<and>
     only_new_users ext_uuid_NewV7 (w_ext w) (w_tick w) (w_tick w') (view (w_db w)) (view (w_db w'))"

lemma engine_op_effect:
  assumes "engine_op invar view m S" and "run_state m w = (r, w')" and "invar (w_db w)"
    and "\<And>x k k'. S x k k' (view (w_db w)) r (view (w_db w')) \<Longrightarrow> k \<le> k' \<Longrightarrow> invar (w_db w') \<Longrightarrow>
      keeps_sessions ext_uuid_NewV7 dt x k k' (view (w_db w)) (view (w_db w'))"
    and "\<And>x k k'. S x k k' (view (w_db w)) r (view (w_db w')) \<Longrightarrow>
      only_new_users ext_uuid_NewV7 x k k' (view (w_db w)) (view (w_db w'))"
  shows "call_effect invar view dt w w'"
  using engine_opD [OF assms(1-3)] assms(4,5) unfolding call_effect_def by blast

lemma quiet_effect: "quiet w w' \<Longrightarrow> invar (w_db w) \<Longrightarrow> call_effect invar view dt w w'"
  by (auto simp: call_effect_def quiet_def intro!: keeps_same only_new_subset)

section \<open>The invariant of the runs\<close>

definition run_ok :: "('db \<Rightarrow> bool) \<Rightarrow> ('db \<Rightarrow> dbview) \<Rightarrow> 'db world \<Rightarrow> bool" where
  "run_ok invar view w \<longleftrightarrow> invar (w_db w) \<and> unique_draws ext_uuid_NewV7 (w_ext w) \<and>
     session_inv ext_uuid_NewV7 (w_ext w) (w_tick w) (dom (v_users (view (w_db w)))) (v_sessions (view (w_db w))) \<and>
     (\<forall>i \<in> dom (v_users (view (w_db w))). drawn_between ext_uuid_NewV7 (w_ext w) 0 (w_tick w) i)"

text \<open>What a run may do to a state: the frame, sessions evolve, and users are not brought back.\<close>

definition run_effect :: "('db \<Rightarrow> dbview) \<Rightarrow> 'db world \<Rightarrow> 'db world \<Rightarrow> bool" where
  "run_effect view w w' \<longleftrightarrow> w_ext w' = w_ext w \<and> w_tick w \<le> w_tick w' \<and>
     evolves ext_uuid_NewV7 (w_ext w) (w_tick w) (v_sessions (view (w_db w))) (v_sessions (view (w_db w'))) \<and>
     only_new_users ext_uuid_NewV7 (w_ext w) (w_tick w) (w_tick w') (view (w_db w)) (view (w_db w'))"

lemma run_ok_empty:
  assumes "unique_draws ext_uuid_NewV7 (w_ext w)" and "invar (w_db w)"
    and "v_users (view (w_db w)) = Map.empty" and "v_sessions (view (w_db w)) = Map.empty"
  shows "run_ok invar view w"
  using assms by (simp add: run_ok_def session_inv_def)

lemma run_okD:
  assumes "run_ok invar view w"
  shows "invar (w_db w)" "unique_draws ext_uuid_NewV7 (w_ext w)"
    "session_inv ext_uuid_NewV7 (w_ext w) (w_tick w) (dom (v_users (view (w_db w)))) (v_sessions (view (w_db w)))"
    "v_users (view (w_db w)) i = Some u \<Longrightarrow> drawn_between ext_uuid_NewV7 (w_ext w) 0 (w_tick w) i"
  using assms unfolding run_ok_def by blast+

lemma run_ok_sessions:
  assumes ok: "run_ok invar view w"
  shows "\<forall>i s. v_sessions (view (w_db w)) i = Some s \<longrightarrow>
    s_ID s = i \<and> (s_RevokedAt s = None \<longrightarrow> v_users (view (w_db w)) (s_UserID s) \<noteq> None) \<and>
    (\<forall>j s'. v_sessions (view (w_db w)) j = Some s' \<longrightarrow> s_FamilyID s' = s_FamilyID s \<longrightarrow>
       s_UserID s' = s_UserID s \<and> (s_RevokedAt s = None \<longrightarrow> s_RevokedAt s' = None \<longrightarrow> i = j))"
proof (intro allI conjI impI)
  note inv = session_invD [OF run_okD(3) [OF ok]]
  fix i s assume i: "v_sessions (view (w_db w)) i = Some s"
  show "s_ID s = i" by (rule inv(1) [OF i])
  show "v_users (view (w_db w)) (s_UserID s) \<noteq> None" if "s_RevokedAt s = None"
    using inv(6) [OF i] that by (auto simp: active_def)
  fix j s' assume j: "v_sessions (view (w_db w)) j = Some s'" "s_FamilyID s' = s_FamilyID s"
  show "s_UserID s' = s_UserID s" using inv(4) [OF i j(1)] j(2) by simp
  show "i = j" if "s_RevokedAt s = None" "s_RevokedAt s' = None"
    using inv(5) [OF i j(1)] j(2) that by (simp add: active_def)
qed

lemma only_new_users_trans:
  assumes "only_new_users d x k k' v v'" and "only_new_users d x k' k'' v' v''" and "k \<le> k'" and "k' \<le> k''"
  shows "only_new_users d x k k'' v v''"
  unfolding only_new_users_def
proof
  fix i assume "i \<in> dom (v_users v'')"
  with assms(1,2) consider "i \<in> dom (v_users v)" | "drawn_between d x k k' i" | "drawn_between d x k' k'' i"
    unfolding only_new_users_def by blast
  then show "i \<in> dom (v_users v) \<or> drawn_between d x k k'' i"
    by cases (use drawn_between_mono assms(3,4) in blast)+
qed

lemma run_effect_refl: "run_effect view w w"
  by (simp add: run_effect_def evolves_refl only_new_users_def)

lemma run_effect_trans:
  assumes "run_effect view w w'" and "run_effect view w' w''"
  shows "run_effect view w w''"
  using assms evolves_trans only_new_users_trans unfolding run_effect_def by (metis order_trans)

text \<open>A state of a run is taken to a state of a run.\<close>

lemma call_effect_run:
  assumes "call_effect invar view dt w w'" and "run_ok invar view w"
  shows "run_ok invar view w'" and "run_effect view w w'"
    and "adds_token dt (w_ext w) (w_tick w) (w_tick w') (v_sessions (view (w_db w))) (v_sessions (view (w_db w')))"
proof -
  note ok = run_okD [OF assms(2)]
  from assms(1) have eff: "invar (w_db w')" "w_ext w' = w_ext w" "w_tick w \<le> w_tick w'"
    "keeps_sessions ext_uuid_NewV7 dt (w_ext w) (w_tick w) (w_tick w') (view (w_db w)) (view (w_db w'))"
    "only_new_users ext_uuid_NewV7 (w_ext w) (w_tick w) (w_tick w') (view (w_db w)) (view (w_db w'))"
    unfolding call_effect_def by blast+
  with ok(2,3) show "run_effect view w w'"
    and "adds_token dt (w_ext w) (w_tick w) (w_tick w') (v_sessions (view (w_db w))) (v_sessions (view (w_db w')))"
    unfolding run_effect_def keeps_sessions_def by blast+
  have "drawn_between ext_uuid_NewV7 (w_ext w) 0 (w_tick w') i" if "i \<in> dom (v_users (view (w_db w')))" for i
    using eff(3,5) that ok(4) drawn_between_mono unfolding only_new_users_def by (metis domD le0 order_refl)
  with eff ok(2,3) show "run_ok invar view w'" unfolding run_ok_def keeps_sessions_def by simp
qed

text \<open>Along a run a revoked session stays as it is, or disappears.\<close>

lemma run_revoked:
  assumes "run_ok invar view w" and "run_effect view w w'" and "v_sessions (view (w_db w)) i = Some s" and "s_RevokedAt s \<noteq> None"
    and "v_sessions (view (w_db w')) i = Some s'"
  shows "s_RevokedAt s' \<noteq> None \<and> s_UserID s' = s_UserID s \<and> s_FamilyID s' = s_FamilyID s \<and> s_TokenHash s' = s_TokenHash s"
proof -
  from assms(2) session_invD(2) [OF run_okD(3) [OF assms(1)] assms(3)] assms(3,5) obtain r where
    "s' = s\<lparr>s_RevokedAt := r\<rparr>" "active s' \<longrightarrow> active s"
    unfolding run_effect_def evolves_def by fastforce
  with assms(4) show ?thesis by (auto simp: active_def)
qed

text \<open>A user that has disappeared does not come back, and has no active session.\<close>

lemma run_gone:
  assumes "run_ok invar view w" and "v_users (view (w_db w)) i \<noteq> None" and "run_effect view w w'" and w': "run_ok invar view w'"
    and "v_users (view (w_db w')) i = None" and "run_effect view w' w''" and "run_ok invar view w''"
  shows "v_users (view (w_db w'')) i = None \<and>
    (\<forall>j s. v_sessions (view (w_db w'')) j = Some s \<longrightarrow> s_UserID s = i \<longrightarrow> s_RevokedAt s \<noteq> None)"
proof -
  from assms(2) run_okD(4) [OF assms(1)] have "drawn_between ext_uuid_NewV7 (w_ext w) 0 (w_tick w) i" by blast
  then have old: "drawn_between ext_uuid_NewV7 (w_ext w') 0 (w_tick w') i"
    using assms(3) by (auto simp: run_effect_def elim: drawn_between_mono)
  have gone: "i \<notin> dom (v_users (view (w_db w'')))"
  proof
    assume "i \<in> dom (v_users (view (w_db w'')))"
    with assms(5,6) have "drawn_between ext_uuid_NewV7 (w_ext w') (w_tick w') (w_tick w'') i"
      unfolding run_effect_def only_new_users_def by blast
    with fresh_draw [OF run_okD(2) [OF w'] _ old] show False by blast
  qed
  with session_invD(6) [OF run_okD(3) [OF assms(7)]] show ?thesis by (auto simp: active_def)
qed

section \<open>Runs over the contracts\<close>

text \<open>
  An engine whose identifiers and refresh tokens come from the generators that \<open>New\<close> installs. Its
  verification store and its sender, if it has them, keep their contracts; and a backend that can fail
  has no session of a user that does not exist, since the engine only logs that it could not revoke
  the sessions of an account that it deletes.
\<close>

locale engine_runs =
  engine invar view faults stamp e matches sound hash_fails ext_uuid_NewV7 "token_drawn g" refusals
  for invar :: "'db \<Rightarrow> bool" and view :: "'db \<Rightarrow> dbview" and faults :: "error set" and stamp :: "Time \<Rightarrow> Time"
    and e :: "'db world Engine" and matches and sound and hash_fails and g :: CryptoRandTokenGenerator and refusals +
  assumes verifications_keep: "en_verifications e = Some vs \<Longrightarrow> verification_store invar view faults vs stamp"
    and sender_keeps: "en_emailSender e = Some sender \<Longrightarrow> \<exists>R. email_sender sender R"
    and sessions_owned: "faults \<noteq> {} \<Longrightarrow> invar d \<Longrightarrow> owned (view d)"
begin

lemma email_changes:
  assumes "en_verifications e = Some vs" and "email_sender sender R"
  shows "email_change invar view faults (en_users e) stamp vs (en_audit e) (en_log e) sender R (en_ids e) ext_uuid_NewV7
    (en_refreshGen e) (token_drawn g)"
  unfolding email_change_def
  using verifications_keep [OF assms(1)] assms(2) engine_axioms
    unfolding engine_def login_def signup_def accounts_def rotation_def by blast

lemma RequestEmailChange_effect:
  assumes "run_state (cryden_RequestEmailChange e uid email) w = (r, w')" and "invar (w_db w)"
  shows "call_effect invar view (token_drawn g) w w'"
proof (cases "\<exists>vs sender. en_verifications e = Some vs \<and> en_emailSender e = Some sender")
  case False
  with assms have "w' = w" by (auto simp: cryden_RequestEmailChange_def split: option.splits)
  with assms(2) show ?thesis by (auto intro: quiet_effect)
next
  case True
  then obtain vs sender R where on: "en_verifications e = Some vs" "en_emailSender e = Some sender" "email_sender sender R"
    using sender_keeps by blast
  with assms(1) have "run_state (RequestEmailChange (en_users e) vs sender (en_refreshGen e) (en_ids e) (en_audit e) (en_log e)
      uid email) w = (r, w')"
    by (simp add: cryden_RequestEmailChange_def)
  from wpD [OF email_change.RequestEmailChange_meets [OF email_changes [OF on(1,3)] assms(2)] this] obtain mails where
    "invar (w_db w')" "w_ext w' = w_ext w" "w_tick w \<le> w_tick w'"
    "RequestEmailChange_spec faults stamp R ext_uuid_NewV7 (token_drawn g) uid email (w_ext w) (w_tick w) (w_tick w')
       (view (w_db w)) r (view (w_db w')) mails"
    by blast
  then show ?thesis
    unfolding call_effect_def by (auto intro: RequestEmailChange_keeps same_users(3))
qed

lemma ConfirmEmailChange_effect:
  assumes "run_state (cryden_ConfirmEmailChange e raw) w = (r, w')" and "invar (w_db w)"
  shows "call_effect invar view (token_drawn g) w w'"
proof (cases "en_verifications e")
  case None
  with assms show ?thesis by (auto simp: cryden_ConfirmEmailChange_def intro: quiet_effect)
next
  case (Some vs)
  with assms(1) have "run_state (ConfirmEmailChange (en_users e) vs (en_audit e) (en_log e) raw) w = (r, w')"
    by (simp add: cryden_ConfirmEmailChange_def)
  then show ?thesis
    by (rule engine_op_effect [OF email_change.ConfirmEmailChange_meets [OF email_changes [OF Some app_sender.email_sender_axioms]]
          _ assms(2)])
      (auto intro: ConfirmEmailChange_keeps ConfirmEmailChange_users)
qed

lemma call_has_effect:
  assumes "call e w w'" and "invar (w_db w)"
  shows "call_effect invar view (token_drawn g) w w'"
  using assms(1)
proof cases
  case step_SignUp
  then show ?thesis unfolding facade_defs
    by (rule engine_op_effect [OF SignUp_meets _ assms(2)]) (auto intro: SignUp_keeps SignUp_users)
next
  case step_Login
  then show ?thesis unfolding facade_defs
    by (rule engine_op_effect [OF Login_meets _ assms(2)]) (auto intro: Login_keeps Login_users)
next
  case step_ChangePassword
  then show ?thesis unfolding facade_defs
    by (rule engine_op_effect [OF ChangePassword_meets _ assms(2)]) (auto intro: ChangePassword_keeps ChangePassword_users)
next
  case step_DeleteAccount
  then show ?thesis unfolding facade_defs
    by (rule engine_op_effect [OF DeleteAccount_meets _ assms(2)])
      (use sessions_owned in \<open>auto intro!: DeleteAccount_keeps DeleteAccount_users\<close>)
next
  case step_RequestEmailChange
  with assms(2) show ?thesis by (rule RequestEmailChange_effect [rotated])
next
  case step_ConfirmEmailChange
  with assms(2) show ?thesis by (rule ConfirmEmailChange_effect [rotated])
next
  case step_Logout
  then show ?thesis unfolding facade_defs
    by (rule engine_op_effect [OF Logout_meets _ assms(2)]) (auto intro: end_session_keeps same_users)
next
  case step_LogoutAll
  then show ?thesis unfolding facade_defs
    by (rule engine_op_effect [OF LogoutAll_meets _ assms(2)]) (auto intro: LogoutAll_keeps same_users)
next
  case step_RefreshToken
  then show ?thesis
    by (rule engine_op_effect [OF RefreshToken_meets _ assms(2)]) (auto intro: RefreshToken_keeps RefreshToken_users)
next
  case step_VerifyToken
  then have "quiet w w'" unfolding facade_defs by (auto simp: run_JWTIssuer_Verify quiet_def)
  with assms(2) show ?thesis by (rule quiet_effect [rotated])
next
  case step_ListSessions
  then show ?thesis unfolding facade_defs
    by (rule engine_op_effect [OF session_List_meets _ assms(2)])
      (auto simp: session_ListByUser_spec_def intro: keeps_same only_new_subset)
next
  case step_RevokeSession
  then show ?thesis unfolding facade_defs
    by (rule engine_op_effect [OF session_Revoke_meets _ assms(2)]) (auto intro: end_session_keeps same_users)
qed

lemma call_run:
  assumes "call e w w'" and ok: "run_ok invar view w"
  shows "run_ok invar view w'" and "run_effect view w w'"
    and "adds_token (token_drawn g) (w_ext w) (w_tick w) (w_tick w') (v_sessions (view (w_db w))) (v_sessions (view (w_db w')))"
  using call_effect_run [OF call_has_effect [OF assms(1) run_okD(1) [OF ok]] ok] by simp_all

lemma calls_run:
  assumes "(call e)\<^sup>*\<^sup>* w w'" and "run_ok invar view w"
  shows "run_ok invar view w' \<and> run_effect view w w'"
  using assms
  by (induction rule: rtranclp_induct) (auto intro: run_effect_refl call_run run_effect_trans)

lemma revoked_stays:
  assumes "run_ok invar view w" and "(call e)\<^sup>*\<^sup>* w w'" and "v_sessions (view (w_db w)) i = Some s" and "s_RevokedAt s \<noteq> None"
    and "v_sessions (view (w_db w')) i = Some s'"
  shows "s_RevokedAt s' \<noteq> None \<and> s_UserID s' = s_UserID s \<and> s_FamilyID s' = s_FamilyID s \<and> s_TokenHash s' = s_TokenHash s"
  using calls_run [OF assms(2,1)] run_revoked [OF assms(1) _ assms(3-5)] by blast

lemma gone_stays:
  assumes "run_ok invar view w" and "v_users (view (w_db w)) i \<noteq> None" and "(call e)\<^sup>*\<^sup>* w w'"
    and "v_users (view (w_db w')) i = None" and "(call e)\<^sup>*\<^sup>* w' w''"
  shows "v_users (view (w_db w'')) i = None \<and>
    (\<forall>j s. v_sessions (view (w_db w'')) j = Some s \<longrightarrow> s_UserID s = i \<longrightarrow> s_RevokedAt s \<noteq> None)"
proof -
  from calls_run [OF assms(3,1)] have w': "run_ok invar view w'" "run_effect view w w'" by simp_all
  from calls_run [OF assms(5) w'(1)] have w'': "run_ok invar view w''" "run_effect view w' w''" by simp_all
  from run_gone [OF assms(1,2) w'(2,1) assms(4) w''(2,1)] show ?thesis .
qed

end

end
