(* ===== verification/Run_Invariants.thy ===== *)
theory Run_Invariants
  imports Engine_Runs
begin

text \<open>
  Refresh tokens along a run. While the tokens that are drawn have different hashes, the hashes of the
  stored tokens stay distinct, and a token that was exchanged once is refused ever after.
\<close>

section \<open>Hashes along a run\<close>

definition hashes :: "(string \<rightharpoonup> Session) \<Rightarrow> string set" where
  "hashes S = s_TokenHash ` ran S"

definition distinct_hashes :: "(string \<rightharpoonup> Session) \<Rightarrow> bool" where
  "distinct_hashes S \<longleftrightarrow>
     (\<forall>i s j s'. S i = Some s \<longrightarrow> S j = Some s' \<longrightarrow> s_TokenHash s = s_TokenHash s' \<longrightarrow> i = j)"

text \<open>The tokens drawn from \<open>k\<close> up to \<open>k'\<close> have different hashes, none of them in \<open>H\<close>.\<close>

definition new_hashes :: "draws \<Rightarrow> externals \<Rightarrow> nat \<Rightarrow> nat \<Rightarrow> string set \<Rightarrow> bool" where
  "new_hashes dt x k k' H \<longleftrightarrow>
     (\<forall>i a. k \<le> i \<longrightarrow> i < k' \<longrightarrow> dt x i = Inr a \<longrightarrow> HashToken a \<notin> H \<and>
        (\<forall>j b. k \<le> j \<longrightarrow> j < k' \<longrightarrow> dt x j = Inr b \<longrightarrow> HashToken a = HashToken b \<longrightarrow> i = j))"

lemma stamped_hashes:
  assumes "stamped S T"
  shows "hashes T \<subseteq> hashes S" and "distinct_hashes S \<Longrightarrow> distinct_hashes T"
proof -
  have old: "\<exists>s. S i = Some s \<and> s_TokenHash t = s_TokenHash s" if "T i = Some t" for i t
    using assms that unfolding stamped_def by fastforce
  then show "hashes T \<subseteq> hashes S" unfolding hashes_def by (fastforce simp: ran_def)
  show "distinct_hashes T" if "distinct_hashes S"
    unfolding distinct_hashes_def
  proof (intro allI impI)
    fix i s j s' assume "T i = Some s" "T j = Some s'" "s_TokenHash s = s_TokenHash s'"
    with old [of i s] old [of j s'] that show "i = j" unfolding distinct_hashes_def by metis
  qed
qed

lemma put_hashes:
  assumes "distinct_hashes T" and "s_TokenHash n \<notin> hashes T"
  shows "hashes (T(i \<mapsto> n)) \<subseteq> insert (s_TokenHash n) (hashes T)" and "distinct_hashes (T(i \<mapsto> n))"
proof -
  show "hashes (T(i \<mapsto> n)) \<subseteq> insert (s_TokenHash n) (hashes T)"
    by (auto simp: hashes_def ran_def split: if_splits)
  have "s_TokenHash s \<noteq> s_TokenHash n" if "T j = Some s" for j s
    using assms(2) ranI [of T, OF that] unfolding hashes_def by (metis imageI)
  with assms(1) show "distinct_hashes (T(i \<mapsto> n))"
    unfolding distinct_hashes_def by (metis fun_upd_apply option.inject)
qed

lemma adds_token_hashes:
  assumes "adds_token dt x k k' S S'" and "distinct_hashes S" and "new_hashes dt x k k'' (hashes S)"
    and "k \<le> k'" and "k' \<le> k''"
  shows "distinct_hashes S'" and "new_hashes dt x k' k'' (hashes S')"
proof -
  from assms(1) obtain T where T: "stamped S T" and S': "S' = T \<or>
      (\<exists>i n raw. drawn_between dt x k k' raw \<and> s_TokenHash n = HashToken raw \<and> S' = T(i \<mapsto> n))"
    unfolding adds_token_def by blast
  note st = stamped_hashes [OF T]
  have both: "distinct_hashes S' \<and> (\<forall>h \<in> hashes S'. h \<in> hashes S \<or> (\<exists>raw. drawn_between dt x k k' raw \<and> h = HashToken raw))"
    using S'
  proof (elim disjE exE conjE)
    assume "S' = T" with st assms(2) show ?thesis by blast
  next
    fix i n raw assume n: "drawn_between dt x k k' raw" "s_TokenHash n = HashToken raw" "S' = T(i \<mapsto> n)"
    have "s_TokenHash n \<notin> hashes T"
      using n(1,2) assms(3,5) st(1) unfolding new_hashes_def drawn_between_def by (metis less_le_trans subsetD)
    from put_hashes [OF st(2) [OF assms(2)] this] n st(1) show ?thesis by blast
  qed
  then show "distinct_hashes S'" by blast
  have later: "HashToken a \<notin> hashes S \<and>
      (\<forall>j b. k \<le> j \<longrightarrow> j < k'' \<longrightarrow> dt x j = Inr b \<longrightarrow> HashToken a = HashToken b \<longrightarrow> i = j)"
    if "k' \<le> i" "i < k''" "dt x i = Inr a" for i a
    using assms(3) that le_trans [OF assms(4) that(1)] unfolding new_hashes_def by blast
  have "HashToken a \<notin> hashes S'" if i: "k' \<le> i" "i < k''" "dt x i = Inr a" for i a
  proof
    assume "HashToken a \<in> hashes S'"
    with both later [OF i] obtain j raw where "k \<le> j" "j < k'" "dt x j = Inr raw" "HashToken a = HashToken raw"
      unfolding drawn_between_def by blast
    with later [OF i] assms(5) i(1) show False by (metis leD less_le_trans)
  qed
  with later assms(4) show "new_hashes dt x k' k'' (hashes S')"
    unfolding new_hashes_def by (meson order_trans)
qed

text \<open>A session with a hash that was stored before is the one that had it before.\<close>

definition keeps_hashes :: "(string \<rightharpoonup> Session) \<Rightarrow> (string \<rightharpoonup> Session) \<Rightarrow> bool" where
  "keeps_hashes S S' \<longleftrightarrow> (\<forall>j s'. S' j = Some s' \<longrightarrow> s_TokenHash s' \<in> hashes S \<longrightarrow>
     (\<exists>s. S j = Some s \<and> s_TokenHash s = s_TokenHash s'))"

lemma adds_token_keeps:
  assumes "adds_token dt x k k' S S'" and "keeps_hashes R S" and "new_hashes dt x j k'' (hashes R)"
    and "j \<le> k" and "k' \<le> k''"
  shows "keeps_hashes R S'"
proof -
  from assms(1) obtain T where T: "stamped S T" and S': "S' = T \<or>
      (\<exists>i n raw. drawn_between dt x k k' raw \<and> s_TokenHash n = HashToken raw \<and> S' = T(i \<mapsto> n))"
    unfolding adds_token_def by blast
  have old: "\<exists>s. S i = Some s \<and> s_TokenHash t = s_TokenHash s" if "T i = Some t" for i t
    using T that unfolding stamped_def by fastforce
  have new: "HashToken raw \<notin> hashes R" if raw: "drawn_between dt x k k' raw" for raw
    using drawn_between_mono [OF raw assms(4,5)] assms(3) unfolding new_hashes_def drawn_between_def by blast
  have T': "keeps_hashes R T"
    unfolding keeps_hashes_def using old assms(2) [unfolded keeps_hashes_def] by metis
  show ?thesis
    using S'
  proof (elim disjE exE conjE)
    fix i n raw assume n: "drawn_between dt x k k' raw" "s_TokenHash n = HashToken raw" "S' = T(i \<mapsto> n)"
    with new [OF n(1)] T' show ?thesis unfolding keeps_hashes_def by (metis fun_upd_apply option.inject)
  qed (use T' in simp)
qed

section \<open>A token is exchanged once\<close>

text \<open>The token is not stored, or only with sessions of one family that are revoked: the call is refused.\<close>

lemma RefreshToken_refused:
  assumes spec: "RefreshToken_spec F d_id d_tok j raw x k k' v r v'"
    and used: "\<And>s. stored_token v raw s \<Longrightarrow> s_RevokedAt s \<noteq> None \<and> s_FamilyID s = f"
  shows "r = Inl ErrTokenReused \<and> (\<forall>i s. v_sessions v' i = Some s \<longrightarrow> s_FamilyID s = f \<longrightarrow> s_RevokedAt s \<noteq> None) \<or>
    r = Inl ErrInvalidToken \<and> v' = v \<or> (\<exists>err \<in> F. r = Inl err \<and> v_sessions v' = v_sessions v)"
proof -
  have not_ok: "\<not> rotate_ok d_id d_tok x k k' raw v res None v1" for res v1
    using used by (auto simp: rotate_ok_def)
  with spec obtain err res v1 where r: "r = Inl err" and rot: "Rotate_spec F d_id d_tok x k k' raw v (res, Some err) v1"
    and v': "if err = ErrTokenReused
       then audited F (new_AuditEvent EventTokenReuseDetected (s_UserID (rr_Session res)) [] None) v1 v' else v' = v1"
    unfolding RefreshToken_spec_def by (cases r) auto
  have same: "v_sessions v' = v_sessions v1" using v' by (auto dest: audited_data split: if_splits)
  from rot used consider "err = ErrInvalidToken" "v1 = v" | "err \<in> F" "v1 = v"
    | t where "err = ErrTokenReused" "v_sessions v1 = revoke_where (\<lambda>s. s_FamilyID s = f) t (v_sessions v)"
    by (fastforce simp: Rotate_spec_def rotate_defs)
  then show ?thesis
  proof cases
    case 3
    have "s_RevokedAt s \<noteq> None" if "v_sessions v' i = Some s" "s_FamilyID s = f" for i s
      using revoke_where_active [where P = "\<lambda>s. s_FamilyID s = f" and i = i and s = s] that 3 same by (auto simp: active_def)
    with 3 r show ?thesis by blast
  qed (use r v' same in auto)
qed

context engine_runs
begin

lemma calls_hashes:
  assumes "(call e)\<^sup>*\<^sup>* w w'" and "run_ok invar view w" and "distinct_hashes (v_sessions (view (w_db w)))"
    and "new_hashes (token_drawn g) (w_ext w) (w_tick w) K (hashes (v_sessions (view (w_db w))))" and "w_tick w' \<le> K"
  shows "distinct_hashes (v_sessions (view (w_db w'))) \<and>
    new_hashes (token_drawn g) (w_ext w) (w_tick w') K (hashes (v_sessions (view (w_db w')))) \<and>
    keeps_hashes (v_sessions (view (w_db w))) (v_sessions (view (w_db w')))"
  using assms
proof (induction rule: rtranclp_induct)
  case (step y z)
  have y: "run_ok invar view y" "run_effect view w y" using calls_run [OF step.hyps(1) step.prems(1)] by simp_all
  note z = call_run [OF step.hyps(2) y(1)]
  have "w_tick y \<le> w_tick z" using z(2) by (simp add: run_effect_def)
  with step y z show ?case
    using adds_token_hashes [OF z(3), of K] adds_token_keeps [OF z(3), of "v_sessions (view (w_db w))" "w_tick w" K]
    by (simp add: run_effect_def)
qed (simp add: keeps_hashes_def)

text \<open>
  After a run from a state with a revoked session, a session with the hash of its token is that session,
  and it is revoked.
\<close>

lemma token_stays_used:
  assumes ok: "run_ok invar view w1" and run: "(call e)\<^sup>*\<^sup>* w1 w2"
    and h1: "distinct_hashes (v_sessions (view (w_db w1)))"
      "new_hashes (token_drawn g) (w_ext w1) (w_tick w1) (w_tick w2) (hashes (v_sessions (view (w_db w1))))"
    and s: "v_sessions (view (w_db w1)) i = Some s" "s_TokenHash s = HashToken raw" "s_RevokedAt s \<noteq> None"
    and s': "stored_token (view (w_db w2)) raw s'"
  shows "s_RevokedAt s' \<noteq> None \<and> s_FamilyID s' = s_FamilyID s"
proof -
  have "keeps_hashes (v_sessions (view (w_db w1))) (v_sessions (view (w_db w2)))"
    using calls_hashes [OF run ok h1 order_refl] by simp
  moreover have "HashToken raw \<in> hashes (v_sessions (view (w_db w1)))"
    using s(1,2) unfolding hashes_def by (force intro: ranI rev_image_eqI)
  ultimately obtain a where a: "v_sessions (view (w_db w1)) (s_ID s') = Some a" "s_TokenHash a = HashToken raw"
    using s' unfolding keeps_hashes_def stored_token_def by metis
  with h1(1) s(1,2) have "s_ID s' = i" unfolding distinct_hashes_def by metis
  with s' have "v_sessions (view (w_db w2)) i = Some s'" by (simp add: stored_token_def)
  with revoked_stays [OF ok run s(1,3)] show ?thesis by simp
qed

lemma single_use:
  assumes ok: "run_ok invar view w" and h: "distinct_hashes (v_sessions (view (w_db w)))"
    and first: "run_state (RefreshToken e raw) w = (Inr tk, w1)" and run: "(call e)\<^sup>*\<^sup>* w1 w2"
    and again: "run_state (RefreshToken e raw) w2 = (r, w3)"
    and new: "new_hashes (token_drawn g) (w_ext w) (w_tick w) (w_tick w2) (hashes (v_sessions (view (w_db w))))"
  shows "\<exists>s. stored_token (view (w_db w)) raw s \<and>
    (r = Inl ErrTokenReused \<and>
       (\<forall>i s'. v_sessions (view (w_db w3)) i = Some s' \<longrightarrow> s_FamilyID s' = s_FamilyID s \<longrightarrow> s_RevokedAt s' \<noteq> None) \<or>
     r = Inl ErrInvalidToken \<and> view (w_db w3) = view (w_db w2) \<or>
     (\<exists>err \<in> faults. r = Inl err \<and> v_sessions (view (w_db w3)) = v_sessions (view (w_db w2))))"
proof -
  have w1: "call e w w1" using first by (rule step_RefreshToken)
  note ok1 = call_run [OF w1 ok]
  from calls_run [OF run ok1(1)] have ok2: "run_ok invar view w2" "run_effect view w1 w2" by simp_all
  have ticks: "w_tick w1 \<le> w_tick w2" using ok2(2) by (simp add: run_effect_def)
  from calls_hashes [OF r_into_rtranclp [where r = "call e", OF w1] ok h new ticks]
  have h1: "distinct_hashes (v_sessions (view (w_db w1)))"
    "new_hashes (token_drawn g) (w_ext w1) (w_tick w1) (w_tick w2) (hashes (v_sessions (view (w_db w1))))"
    using ok1(2) by (simp_all add: run_effect_def)
  from engine_opD(5) [OF RefreshToken_meets first run_okD(1) [OF ok]] obtain res v1 ev where
    rot: "rotate_ok ext_uuid_NewV7 (token_drawn g) (w_ext w) (w_tick w) (w_tick w1) raw (view (w_db w)) res None v1"
    and ev: "audited faults ev v1 (view (w_db w1))"
    unfolding RefreshToken_spec_def by auto
  from rot obtain s i t n where s: "stored_token (view (w_db w)) raw s"
    and i: "drawn_between ext_uuid_NewV7 (w_ext w) (w_tick w) (w_tick w1) i"
    and v1: "v_sessions v1 = (v_sessions (view (w_db w)))(s_ID s \<mapsto> s\<lparr>s_RevokedAt := Some t\<rparr>, i \<mapsto> n)"
    unfolding rotate_ok_def by auto
  have "i \<noteq> s_ID s"
    using fresh_draw [OF run_okD(2) [OF ok] i] session_invD(2) [OF run_okD(3) [OF ok], of "s_ID s" s] s
    by (auto simp: stored_token_def)
  with v1 audited_data(2) [OF ev] have s1: "v_sessions (view (w_db w1)) (s_ID s) = Some (s\<lparr>s_RevokedAt := Some t\<rparr>)" by simp
  have used: "s_RevokedAt s' \<noteq> None \<and> s_FamilyID s' = s_FamilyID s" if "stored_token (view (w_db w2)) raw s'" for s'
    using token_stays_used [OF ok1(1) run h1 s1 _ _ that] s by (simp add: stored_token_def)
  from RefreshToken_refused [OF engine_opD(5) [OF RefreshToken_meets again run_okD(1) [OF ok2(1)]] used] s
  show ?thesis by blast
qed

end

end
