(* ===== verification/Interleaving.thy ===== *)
theory Interleaving
  imports Run_Invariants
begin

text \<open>
  Requests that overlap. \<open>cryden\<close> serves requests concurrently; one method of a store is atomic, a request is
  not. A request reads and checks, and then acts on what it has read: an exchange of a refresh token looks the
  session up and then rotates it, a login checks the password and then creates a session, a confirmation checks
  its token and then changes the address. The programs of the other theories are composed of these two halves;
  here they are the two steps of a server, \<open>arrive\<close> and \<open>finish\<close>, and the relation \<open>serve\<close> lets any number of
  requests wait between them while others run.
\<close>

section \<open>Requests\<close>

text \<open>The public functions with their arguments, the requests that wait with what they have read, and the answers.\<close>

datatype request =
    ReqSignUp string string string
  | ReqLogin string string string string
  | ReqChangePassword string string string
  | ReqDeleteAccount string string
  | ReqRequestEmailChange string string
  | ReqConfirmEmailChange string
  | ReqLogout string string
  | ReqLogoutAll string
  | ReqRefreshToken string
  | ReqVerifyToken string
  | ReqListSessions string
  | ReqRevokeSession string string

datatype pending =
    SignUpOf string string string
  | LoginOf User string string
  | PasswordOf string string
  | DeletionOf string
  | EmailOf string string
  | ConfirmOf VerificationToken
  | LogoutOf string string
  | LogoutAllOf string
  | Exchange string Session
  | VerifyOf string
  | ListOf string
  | RevokeOf string string

datatype answer =
    UserAnswer "error + User"
  | TokensAnswer "error + Tokens"
  | ErrorAnswer "error option"
  | SubjectAnswer "error + string"
  | SessionsAnswer "error + Session list"

definition answering :: "('r \<Rightarrow> answer) \<Rightarrow> ('w, 'r) state \<Rightarrow> ('w, answer) state" where
  "answering f m = do { r \<leftarrow> m; State_Monad.return (f r) }"

fun public_call :: "'db world Engine \<Rightarrow> request \<Rightarrow> ('db world, answer) state" where
  "public_call e (ReqSignUp email pw ip) = answering UserAnswer (cryden_SignUp e email pw ip)"
| "public_call e (ReqLogin email pw ip ua) = answering TokensAnswer (cryden_Login e email pw ip ua)"
| "public_call e (ReqChangePassword uid cur new) = answering ErrorAnswer (cryden_ChangePassword e uid cur new)"
| "public_call e (ReqDeleteAccount uid cur) = answering ErrorAnswer (cryden_DeleteAccount e uid cur)"
| "public_call e (ReqRequestEmailChange uid email) = answering ErrorAnswer (cryden_RequestEmailChange e uid email)"
| "public_call e (ReqConfirmEmailChange raw) = answering ErrorAnswer (cryden_ConfirmEmailChange e raw)"
| "public_call e (ReqLogout sid uid) = answering ErrorAnswer (cryden_Logout e sid uid)"
| "public_call e (ReqLogoutAll uid) = answering ErrorAnswer (cryden_LogoutAll e uid)"
| "public_call e (ReqRefreshToken raw) = answering TokensAnswer (RefreshToken e raw)"
| "public_call e (ReqVerifyToken acc) = answering SubjectAnswer (VerifyToken e acc)"
| "public_call e (ReqListSessions uid) = answering SessionsAnswer (ListSessions e uid)"
| "public_call e (ReqRevokeSession sid uid) = answering ErrorAnswer (RevokeSession e sid uid)"

text \<open>Every call of an application is one of these.\<close>

lemma run_answering: "run_state (answering f m) w = (case run_state m w of (r, w') \<Rightarrow> (f r, w'))"
  by (simp add: answering_def split_beta)

lemma public_runs:
  "run_state (cryden_SignUp e email pw ip) w = (r1, w') \<Longrightarrow> run_state (public_call e (ReqSignUp email pw ip)) w = (UserAnswer r1, w')"
  "run_state (cryden_Login e email pw ip ua) w = (r2, w') \<Longrightarrow> run_state (public_call e (ReqLogin email pw ip ua)) w = (TokensAnswer r2, w')"
  "run_state (cryden_ChangePassword e uid cur new) w = (r3, w') \<Longrightarrow> run_state (public_call e (ReqChangePassword uid cur new)) w = (ErrorAnswer r3, w')"
  "run_state (cryden_DeleteAccount e uid cur) w = (r3, w') \<Longrightarrow> run_state (public_call e (ReqDeleteAccount uid cur)) w = (ErrorAnswer r3, w')"
  "run_state (cryden_RequestEmailChange e uid email) w = (r3, w') \<Longrightarrow>
     run_state (public_call e (ReqRequestEmailChange uid email)) w = (ErrorAnswer r3, w')"
  "run_state (cryden_ConfirmEmailChange e raw) w = (r3, w') \<Longrightarrow> run_state (public_call e (ReqConfirmEmailChange raw)) w = (ErrorAnswer r3, w')"
  "run_state (cryden_Logout e sid uid) w = (r3, w') \<Longrightarrow> run_state (public_call e (ReqLogout sid uid)) w = (ErrorAnswer r3, w')"
  "run_state (cryden_LogoutAll e uid) w = (r3, w') \<Longrightarrow> run_state (public_call e (ReqLogoutAll uid)) w = (ErrorAnswer r3, w')"
  "run_state (RefreshToken e raw) w = (r2, w') \<Longrightarrow> run_state (public_call e (ReqRefreshToken raw)) w = (TokensAnswer r2, w')"
  "run_state (VerifyToken e acc) w = (r4, w') \<Longrightarrow> run_state (public_call e (ReqVerifyToken acc)) w = (SubjectAnswer r4, w')"
  "run_state (ListSessions e uid) w = (r5, w') \<Longrightarrow> run_state (public_call e (ReqListSessions uid)) w = (SessionsAnswer r5, w')"
  "run_state (RevokeSession e sid uid) w = (r3, w') \<Longrightarrow> run_state (public_call e (ReqRevokeSession sid uid)) w = (ErrorAnswer r3, w')"
  by (simp_all add: run_answering)

lemma call_public: "call e w w' \<Longrightarrow> \<exists>a r. run_state (public_call e a) w = (r, w')"
  by (erule call.cases) (blast dest: public_runs)+

section \<open>The two halves\<close>

text \<open>
  A request whose checks fail is answered on the spot. The others wait: with the error sum of a check that finds
  something, with the error option of a check that finds nothing.
\<close>

definition wait :: "('w, error + 'a) state \<Rightarrow> (error \<Rightarrow> answer) \<Rightarrow> ('a \<Rightarrow> pending) \<Rightarrow> ('w, answer + pending) state" where
  "wait m refused waiting = do {
     r \<leftarrow> m;
     case r of
       Inl err \<Rightarrow> State_Monad.return (Inl (refused err))
     | Inr a \<Rightarrow> State_Monad.return (Inr (waiting a))
   }"

definition wait_if :: "('w, error option) state \<Rightarrow> pending \<Rightarrow> ('w, answer + pending) state" where
  "wait_if m q = do {
     err \<leftarrow> m;
     case err of
       Some err \<Rightarrow> State_Monad.return (Inl (ErrorAnswer (Some err)))
     | None \<Rightarrow> State_Monad.return (Inr q)
   }"

definition signup_gate :: "'db world Engine \<Rightarrow> string \<Rightarrow> string \<Rightarrow> string \<Rightarrow> ('db world, error + string) state" where
  "signup_gate e email password callerIP =
     rate_limited (en_rateLimiter e) (en_log e) (''signup:'' @ callerIP) ''signup: rate limiter error'' ''signup: rate limited''
       callerIP (signup_hash (en_users e) (en_hasher e) (en_log e) email password callerIP)"

definition login_gate ::
  "'db world Engine \<Rightarrow> string \<Rightarrow> string \<Rightarrow> string \<Rightarrow> ('db world, error + User) state" where
  "login_gate e email password callerIP =
     rate_limited (en_rateLimiter e) (en_log e) (login_key callerIP email) ''login: rate limiter error'' ''login: rate limited''
       callerIP (login_verify (en_users e) (en_hasher e) (en_audit e) (en_log e) email password callerIP
          (en_lockoutThreshold e) (en_lockoutDuration e))"

definition email_gate ::
  "'db world Engine \<Rightarrow> string \<Rightarrow> string \<Rightarrow> ('db world, answer + pending) state" where
  "email_gate e userID newEmail =
     (case (en_verifications e, en_emailSender e) of
        (Some _, Some _) \<Rightarrow> do {
          existing \<leftarrow> us_GetByEmail (en_users e) newEmail;
          case existing of
            Inr _ \<Rightarrow> State_Monad.return (Inl (ErrorAnswer (Some ErrUserExists)))
          | Inl _ \<Rightarrow> State_Monad.return (Inr (EmailOf userID newEmail))
        }
      | _ \<Rightarrow> State_Monad.return (Inl (ErrorAnswer (Some ErrEmailChangeNotConfigured))))"

fun arrive :: "'db world Engine \<Rightarrow> request \<Rightarrow> ('db world, answer + pending) state" where
  "arrive e (ReqSignUp email pw ip) =
     wait (signup_gate e email pw ip) (\<lambda>err. UserAnswer (Inl err)) (\<lambda>hash. SignUpOf email hash ip)"
| "arrive e (ReqLogin email pw ip ua) =
     wait (login_gate e email pw ip) (\<lambda>err. TokensAnswer (Inl err)) (\<lambda>u. LoginOf u ip ua)"
| "arrive e (ReqChangePassword uid cur new) =
     wait (password_hash (en_users e) (en_hasher e) (en_log e) uid cur new) (\<lambda>err. ErrorAnswer (Some err)) (PasswordOf uid)"
| "arrive e (ReqDeleteAccount uid cur) =
     wait_if (reconfirm (en_users e) (en_hasher e) (en_log e) ''delete account: password mismatch'' uid cur) (DeletionOf uid)"
| "arrive e (ReqRequestEmailChange uid email) = email_gate e uid email"
| "arrive e (ReqConfirmEmailChange raw) =
     (case en_verifications e of
        None \<Rightarrow> State_Monad.return (Inl (ErrorAnswer (Some ErrEmailChangeNotConfigured)))
      | Some verifications \<Rightarrow> wait (email_token verifications raw) (\<lambda>err. ErrorAnswer (Some err)) ConfirmOf)"
| "arrive e (ReqLogout sid uid) =
     wait_if (owned_session (en_sessions e) (en_log e) ''logout: ownership mismatch attempt'' sid uid) (LogoutOf sid uid)"
| "arrive e (ReqLogoutAll uid) = State_Monad.return (Inr (LogoutAllOf uid))"
| "arrive e (ReqRefreshToken raw) =
     wait (ss_GetByTokenHash (en_sessions e) (HashToken raw)) (\<lambda>_. TokensAnswer (Inl ErrInvalidToken)) (Exchange raw)"
| "arrive e (ReqVerifyToken acc) = State_Monad.return (Inr (VerifyOf acc))"
| "arrive e (ReqListSessions uid) = State_Monad.return (Inr (ListOf uid))"
| "arrive e (ReqRevokeSession sid uid) =
     wait_if (owned_session (en_sessions e) (en_log e) ''session revoke: ownership mismatch attempt'' sid uid) (RevokeOf sid uid)"

definition exchange_rest :: "'db world Engine \<Rightarrow> error + Session \<Rightarrow> ('db world, error + Tokens) state" where
  "exchange_rest e found = do {
     rotated \<leftarrow> rotate_found (en_sessions e) (en_refreshGen e) (en_ids e) found;
     refresh_answer e rotated
   }"

definition login_rest ::
  "'db world Engine \<Rightarrow> User \<Rightarrow> string \<Rightarrow> string \<Rightarrow> ('db world, error + Tokens) state" where
  "login_rest e user callerIP userAgent =
     login_session (en_users e) (en_sessions e) (en_ids e) (en_refreshGen e) (en_jwtIssuer e) (en_audit e) (en_log e)
       user callerIP userAgent"

definition signup_rest :: "'db world Engine \<Rightarrow> string \<Rightarrow> string \<Rightarrow> string \<Rightarrow> ('db world, error + User) state" where
  "signup_rest e email hash callerIP =
     signup_create (en_users e) (en_ids e) (en_audit e) (en_log e) email hash callerIP"

fun finish :: "'db world Engine \<Rightarrow> pending \<Rightarrow> ('db world, answer) state" where
  "finish e (SignUpOf email hash ip) = answering UserAnswer (signup_rest e email hash ip)"
| "finish e (LoginOf u ip ua) = answering TokensAnswer (login_rest e u ip ua)"
| "finish e (PasswordOf uid hash) =
     answering ErrorAnswer (password_update (en_users e) (en_sessions e) (en_audit e) (en_log e) uid hash)"
| "finish e (DeletionOf uid) = answering ErrorAnswer (delete_confirmed (en_users e) (en_sessions e) (en_audit e) (en_log e) uid)"
| "finish e (EmailOf uid email) =
     (case (en_verifications e, en_emailSender e) of
        (Some verifications, Some sender) \<Rightarrow>
          answering ErrorAnswer (email_request verifications sender (en_refreshGen e) (en_ids e) (en_audit e) (en_log e) uid email)
      | _ \<Rightarrow> State_Monad.return (ErrorAnswer (Some ErrEmailChangeNotConfigured)))"
| "finish e (ConfirmOf vt) =
     (case en_verifications e of
        None \<Rightarrow> State_Monad.return (ErrorAnswer (Some ErrEmailChangeNotConfigured))
      | Some verifications \<Rightarrow> answering ErrorAnswer (email_update (en_users e) verifications (en_audit e) (en_log e) vt))"
| "finish e (LogoutOf sid uid) = answering ErrorAnswer (logout_end (en_sessions e) (en_audit e) (en_log e) sid uid)"
| "finish e (LogoutAllOf uid) = answering ErrorAnswer (cryden_LogoutAll e uid)"
| "finish e (Exchange raw s) = answering TokensAnswer (exchange_rest e (Inr s))"
| "finish e (VerifyOf acc) = answering SubjectAnswer (VerifyToken e acc)"
| "finish e (ListOf uid) = answering SessionsAnswer (ListSessions e uid)"
| "finish e (RevokeOf sid uid) = answering ErrorAnswer (revoke_end (en_sessions e) (en_audit e) (en_log e) sid uid)"

text \<open>Both halves with nothing in between are the call of the public function, with its answer.\<close>

definition perform :: "'db world Engine \<Rightarrow> request \<Rightarrow> ('db world, answer) state" where
  "perform e a = do {
     q \<leftarrow> arrive e a;
     case q of
       Inl r \<Rightarrow> State_Monad.return r
     | Inr q \<Rightarrow> finish e q
   }"

lemma bind_wait:
  "State_Monad.bind (wait m refused waiting) (\<lambda>q. case q of Inl r \<Rightarrow> State_Monad.return r | Inr q \<Rightarrow> k q) =
   State_Monad.bind m (\<lambda>r. case r of Inl err \<Rightarrow> State_Monad.return (refused err) | Inr a \<Rightarrow> k (waiting a))"
  unfolding wait_def bind_simps ..

lemma bind_wait_if:
  "State_Monad.bind (wait_if m q) (\<lambda>q. case q of Inl r \<Rightarrow> State_Monad.return r | Inr q \<Rightarrow> k q) =
   State_Monad.bind m (\<lambda>err. case err of Some err \<Rightarrow> State_Monad.return (ErrorAnswer (Some err)) | None \<Rightarrow> k q)"
  unfolding wait_if_def bind_simps ..

lemma RefreshToken_cut:
  "RefreshToken e raw = do { found \<leftarrow> ss_GetByTokenHash (en_sessions e) (HashToken raw); exchange_rest e found }"
  unfolding RefreshToken_def Rotate_def exchange_rest_def Let_def bind_simps ..

lemma exchange_unknown: "exchange_rest e (Inl err) = State_Monad.return (Inl ErrInvalidToken)"
  by (simp add: exchange_rest_def rotate_found_def refresh_answer_def)

lemma Login_cut:
  "cryden_Login e email password ip ua = do {
     gate \<leftarrow> login_gate e email password ip;
     case gate of Inl err \<Rightarrow> State_Monad.return (Inl err) | Inr user \<Rightarrow> login_rest e user ip ua
   }"
  unfolding cryden_Login_def Login_def login_checked_def login_gate_def login_rest_def rate_limited_bind ..

lemma SignUp_cut:
  "cryden_SignUp e email password ip = do {
     gate \<leftarrow> signup_gate e email password ip;
     case gate of Inl err \<Rightarrow> State_Monad.return (Inl err) | Inr hash \<Rightarrow> signup_rest e email hash ip
   }"
  unfolding cryden_SignUp_def SignUp_def signup_checked_def signup_gate_def signup_rest_def rate_limited_bind ..

lemma perform_public_call: "perform e a = public_call e a"
proof (cases a)
  case (ReqRefreshToken raw)
  have "(case found of Inl _ \<Rightarrow> State_Monad.return (TokensAnswer (Inl ErrInvalidToken)) | Inr s \<Rightarrow> finish e (Exchange raw s)) =
      answering TokensAnswer (exchange_rest e found)" for found
    by (cases found) (simp_all add: exchange_unknown answering_def)
  with ReqRefreshToken show ?thesis
    by (simp add: perform_def bind_wait RefreshToken_cut) (simp add: answering_def bind_simps)
next
  case (ReqRequestEmailChange uid email)
  then show ?thesis
    by (cases "en_verifications e"; cases "en_emailSender e")
      (simp_all add: perform_def answering_def email_gate_def cryden_RequestEmailChange_def RequestEmailChange_def bind_simps cong: sum.case_cong)
next
  case (ReqConfirmEmailChange raw)
  then show ?thesis
    by (cases "en_verifications e")
      (simp_all add: perform_def answering_def bind_wait cryden_ConfirmEmailChange_def ConfirmEmailChange_def bind_simps cong: sum.case_cong)
qed (simp_all add: perform_def answering_def bind_wait bind_wait_if SignUp_cut Login_cut
      cryden_ChangePassword_def cryden_DeleteAccount_def cryden_Logout_def RevokeSession_def
      ChangePassword_def DeleteAccount_def Logout_def session_Revoke_def bind_simps cong: sum.case_cong option.case_cong)

section \<open>The server\<close>

text \<open>
  The requests that wait between their two halves, under a number of their own. \<open>sv_answers\<close> is the
  history of the requests that have finished, with their answers, latest first.
\<close>

record 'db server =
  sv_world :: "'db world"
  sv_pending :: "nat \<rightharpoonup> pending"
  sv_answers :: "(pending \<times> answer) list"

definition idle :: "'db world \<Rightarrow> 'db server" where
  "idle w = \<lparr>sv_world = w, sv_pending = Map.empty, sv_answers = []\<rparr>"

lemma idle_simps [simp]: "sv_world (idle w) = w" "sv_pending (idle w) = Map.empty" "sv_answers (idle w) = []"
  by (simp_all add: idle_def)

inductive serve :: "'db world Engine \<Rightarrow> 'db server \<Rightarrow> 'db server \<Rightarrow> bool" for e where
  serve_refuse: "run_state (arrive e a) (sv_world c) = (Inl r, w') \<Longrightarrow> serve e c (c\<lparr>sv_world := w'\<rparr>)"
| serve_arrive: "sv_pending c n = None \<Longrightarrow> run_state (arrive e a) (sv_world c) = (Inr q, w') \<Longrightarrow>
    serve e c (c\<lparr>sv_world := w', sv_pending := (sv_pending c)(n \<mapsto> q)\<rparr>)"
| serve_finish: "sv_pending c n = Some q \<Longrightarrow> run_state (finish e q) (sv_world c) = (r, w') \<Longrightarrow>
    serve e c (c\<lparr>sv_world := w', sv_pending := (sv_pending c)(n := None), sv_answers := (q, r) # sv_answers c\<rparr>)"

inductive_cases serveE: "serve e c c'"

text \<open>The server can do what an application does with an engine, one call after the other.\<close>

lemma serve_call:
  assumes "call e (sv_world c) w'" and "sv_pending c n = None"
  shows "\<exists>c'. (serve e)\<^sup>*\<^sup>* c c' \<and> sv_world c' = w' \<and> sv_pending c' = sv_pending c"
proof -
  from call_public [OF assms(1)] obtain a r where "run_state (public_call e a) (sv_world c) = (r, w')" by blast
  then have run: "run_state (perform e a) (sv_world c) = (r, w')" by (simp add: perform_public_call)
  obtain q w1 where arr: "run_state (arrive e a) (sv_world c) = (q, w1)" by fastforce
  show ?thesis
  proof (cases q)
    case (Inl x)
    with run arr have "w1 = w'" by (simp add: perform_def)
    with serve_refuse [of e a c x w1] arr Inl show ?thesis by (intro exI [of _ "c\<lparr>sv_world := w'\<rparr>"]) auto
  next
    case (Inr x)
    let ?c1 = "c\<lparr>sv_world := w1, sv_pending := (sv_pending c)(n \<mapsto> x)\<rparr>"
    let ?c2 = "?c1\<lparr>sv_world := w', sv_pending := (sv_pending ?c1)(n := None), sv_answers := (x, r) # sv_answers ?c1\<rparr>"
    from run arr Inr have fin: "run_state (finish e x) w1 = (r, w')" by (simp add: perform_def)
    have "serve e c ?c1" using serve_arrive [of c n e a x w1] assms(2) arr Inr by simp
    moreover have "serve e ?c1 ?c2" using serve_finish [of ?c1 n x e r w'] fin by simp
    ultimately have "(serve e)\<^sup>*\<^sup>* c ?c2" by simp
    moreover have "sv_pending ?c2 = sv_pending c" using assms(2) by (auto simp: fun_upd_def)
    ultimately show ?thesis by (intro exI [of _ ?c2]) simp
  qed
qed

lemma serve_calls:
  assumes "(call e)\<^sup>*\<^sup>* w w'"
  shows "\<exists>c. (serve e)\<^sup>*\<^sup>* (idle w) c \<and> sv_world c = w' \<and> sv_pending c = Map.empty"
  using assms
proof (induction rule: rtranclp_induct)
  case base
  then show ?case by (intro exI [of _ "idle w"]) simp
next
  case (step w1 w2)
  then obtain c where c: "(serve e)\<^sup>*\<^sup>* (idle w) c" "sv_world c = w1" "sv_pending c = Map.empty" by blast
  with serve_call [of e c w2 0] step.hyps(2) obtain c' where "(serve e)\<^sup>*\<^sup>* c c'" "sv_world c' = w2" "sv_pending c' = Map.empty"
    by auto
  with c(1) show ?case by (intro exI [of _ c']) simp
qed

end
