(* ===== verification/Interleaving_Specs.thy ===== *)
theory Interleaving_Specs
  imports Interleaving
begin

text \<open>
  What the two halves of a request promise over \<open>dbview\<close>, for every backend that keeps the contracts, and what is
  tracked of the server: which requests wait with what, and which session has which token hash.
\<close>

section \<open>What the halves promise\<close>

text \<open>
  The promise of a half that does not touch sessions: users are changed or added under fresh identifiers.
\<close>

definition gate_spec :: "externals \<Rightarrow> nat \<Rightarrow> nat \<Rightarrow> dbview \<Rightarrow> 'r \<Rightarrow> dbview \<Rightarrow> bool" where
  "gate_spec x k k' v r v' \<longleftrightarrow> v_sessions v' = v_sessions v \<and> dom (v_users v) \<subseteq> dom (v_users v') \<and>
     only_new_users ext_uuid_NewV7 x k k' v v'"

lemma gate_same: "v_sessions v' = v_sessions v \<Longrightarrow> v_users v' = v_users v \<Longrightarrow> gate_spec x k k' v r v'"
  by (simp add: gate_spec_def only_new_users_def)

lemma gate_new_user:
  assumes "drawn_between ext_uuid_NewV7 x k m i" and "m \<le> k'" and "v_sessions v' = v_sessions v"
    and "v_users v' = (v_users v)(i \<mapsto> u)"
  shows "gate_spec x k k' v r v'"
  using drawn_between_mono [OF assms(1) order_refl assms(2)] assms(3,4)
  by (auto simp: gate_spec_def only_new_users_def)

lemma gate_mismatch:
  assumes "v_users v (u_ID u) = Some u" and "audited F ev v v1" and "lockout_spec F st th du y j j' u ip v1 v'"
  shows "gate_spec x k k' v r v'"
  using lockout_users [OF assms(3)] audited_data [OF assms(2)] assms(1)
  by (auto simp: gate_spec_def only_new_users_def split: if_splits)

lemma gate_mono: "gate_spec x k k' v r v' \<Longrightarrow> k' \<le> k'' \<Longrightarrow> gate_spec x k k'' v r' v'"
  using drawn_between_mono [OF _ order_refl] unfolding gate_spec_def only_new_users_def by blast

text \<open>The promise of a half that ends sessions or changes users: no session and no user is added.\<close>

definition settle_spec :: "externals \<Rightarrow> nat \<Rightarrow> nat \<Rightarrow> dbview \<Rightarrow> 'r \<Rightarrow> dbview \<Rightarrow> bool" where
  "settle_spec x k k' v r v' \<longleftrightarrow> stamped (v_sessions v) (v_sessions v') \<and> dom (v_users v') \<subseteq> dom (v_users v)"

lemma settle_same: "v_sessions v' = v_sessions v \<Longrightarrow> dom (v_users v') \<subseteq> dom (v_users v) \<Longrightarrow> settle_spec x k k' v r v'"
  by (simp add: settle_spec_def stamped_refl)

lemma settle_update:
  "user_update_spec F i P v r v1 \<Longrightarrow> v_sessions v1 = v_sessions v \<and> dom (v_users v1) = dom (v_users v)"
  by (auto simp: user_update_spec_def fault_option_def split: if_splits)

lemma settle_revoked:
  assumes "all_revoked F uid v1 v2" and "v_sessions v1 = v_sessions v" and "dom (v_users v1) \<subseteq> dom (v_users v)"
    and "v_sessions v' = v_sessions v2" and "v_users v' = v_users v2"
  shows "settle_spec x k k' v r v'"
  using all_revoked_stamped [OF assms(1)] assms(2-5) by (simp add: settle_spec_def)

lemma settle_deleted:
  assumes "all_revoked F uid v v1" and "v_sessions v2 = v_sessions v1" and "v_users v2 = v_users v1" and "user_Delete_spec F uid v2 r1 v'"
  shows "settle_spec x k k' v r v'"
proof -
  have "v_sessions v' \<subseteq>\<^sub>m v_sessions v2" "dom (v_users v') \<subseteq> dom (v_users v2)"
    using assms(4) unfolding user_Delete_spec_def fault_option_def by (elim disjE conjE exE bexE; simp)+
  with all_revoked_stamped [OF assms(1)] assms(2,3) show ?thesis
    unfolding settle_spec_def using stamped_trans [OF _ stamped_sub] by metis
qed

text \<open>The rest of a sign-up stores the user, whether or not the address is still free.\<close>

definition signup_rest_spec :: "error set \<Rightarrow> string \<Rightarrow> externals \<Rightarrow> nat \<Rightarrow> nat \<Rightarrow> dbview \<Rightarrow> error + User \<Rightarrow> dbview \<Rightarrow> bool" where
  "signup_rest_spec F email x k k' v r v' \<longleftrightarrow> v_sessions v' = v_sessions v \<and>
     (case r of
        Inl e \<Rightarrow> v_users v' = v_users v \<and> (failed_between ext_uuid_NewV7 x k k' e \<or> e \<in> F)
      | Inr u \<Rightarrow> drawn_between ext_uuid_NewV7 x k k' (u_ID u) \<and> u_Email u = email \<and>
          (\<exists>t. v_users v' = (v_users v)(u_ID u \<mapsto> u\<lparr>u_CreatedAt := t, u_UpdatedAt := t\<rparr>)))"

lemma signup_rest_gate: "signup_rest_spec F email x k k' v r v' \<Longrightarrow> gate_spec x k k' v r v'"
  by (cases r) (auto simp: signup_rest_spec_def intro: gate_same gate_new_user)

text \<open>
  The rest of a login adds an active session in a new family, whether or not the user still exists, or
  changes users only.
\<close>

definition login_rest_spec ::
  "error set \<Rightarrow> draws \<Rightarrow> string \<Rightarrow> externals \<Rightarrow> nat \<Rightarrow> nat \<Rightarrow> dbview \<Rightarrow> 'r \<Rightarrow> dbview \<Rightarrow> bool" where
  "login_rest_spec F dt uid x k k' v r v' \<longleftrightarrow> dom (v_users v') = dom (v_users v) \<and>
     (v_sessions v' = v_sessions v \<and> (\<exists>e. failed_between ext_uuid_NewV7 x k k' e \<or> failed_between dt x k k' e \<or> e \<in> F) \<or>
      (\<exists>i raw s. drawn_between ext_uuid_NewV7 x k k' i \<and> drawn_between dt x k k' raw \<and> s_ID s = i \<and> s_FamilyID s = i \<and>
         s_UserID s = uid \<and> s_TokenHash s = HashToken raw \<and> active s \<and> v_sessions v' = (v_sessions v)(i \<mapsto> s)))"

lemma login_rest_failedI:
  assumes "failed_between ext_uuid_NewV7 x m m' err \<or> failed_between dt x m m' err \<or> err \<in> F" and "k \<le> m" and "m' \<le> k'"
    and "v_sessions v' = v_sessions v" and "dom (v_users v') = dom (v_users v)"
  shows "login_rest_spec F dt uid x k k' v r v'"
  using assms(1,4,5) failed_between_mono [OF _ assms(2,3)] unfolding login_rest_spec_def by blast

lemma login_restI:
  assumes "v_sessions v1 = v_sessions v" and "dom (v_users v1) = dom (v_users v)"
    and "session_Create_spec F (fresh_session i u raw ip ua t) v1 None v2"
    and "drawn_between ext_uuid_NewV7 x k k' i" and "drawn_between dt x k k' raw"
    and "v_users v' = v_users v2" and "v_sessions v' = v_sessions v2"
  shows "login_rest_spec G dt (u_ID u) x k k' v r v'"
proof -
  from session_Create_fresh [OF assms(3)] obtain t' where
    v2: "v2 = put_session (fresh_session i u raw ip ua t') v1" by auto
  show ?thesis
    unfolding login_rest_spec_def
    by (intro conjI disjI2 exI [of _ i] exI [of _ raw] exI [of _ "fresh_session i u raw ip ua t'"])
      (use assms v2 in \<open>simp_all add: put_session_def active_def\<close>)
qed

text \<open>
  The second half of an exchange for a session \<open>s\<close> that the lookup found: it rotates only what is still
  active, and an answer with tokens is a rotation.
\<close>

definition rotated :: "draws \<Rightarrow> Session \<Rightarrow> externals \<Rightarrow> nat \<Rightarrow> nat \<Rightarrow> dbview \<Rightarrow> dbview \<Rightarrow> bool" where
  "rotated dt s x k k' v v' \<longleftrightarrow> (\<exists>a i raw t n. v_sessions v (s_ID s) = Some a \<and> active a \<and>
     drawn_between ext_uuid_NewV7 x k k' i \<and> drawn_between dt x k k' raw \<and> s_ID n = i \<and>
     s_FamilyID n = s_FamilyID s \<and> s_UserID n = s_UserID s \<and> s_TokenHash n = HashToken raw \<and>
     v_sessions v' = (v_sessions v)(s_ID s \<mapsto> a\<lparr>s_RevokedAt := Some t\<rparr>, i \<mapsto> n))"

definition refused :: "dbview \<Rightarrow> dbview \<Rightarrow> bool" where
  "refused v v' \<longleftrightarrow> v_sessions v' = v_sessions v \<or> (\<exists>P t. v_sessions v' = revoke_where P t (v_sessions v))"

definition exchange_spec :: "draws \<Rightarrow> Session \<Rightarrow> externals \<Rightarrow> nat \<Rightarrow> nat \<Rightarrow> dbview \<Rightarrow> error + Tokens \<Rightarrow> dbview \<Rightarrow> bool" where
  "exchange_spec dt s x k k' v r v' \<longleftrightarrow> v_users v' = v_users v \<and>
     (rotated dt s x k k' v v' \<or> (\<exists>e. r = Inl e) \<and> refused v v')"

lemma rotated_mono: "rotated dt s x k k' v v' \<Longrightarrow> k' \<le> k'' \<Longrightarrow> rotated dt s x k k'' v v'"
  using drawn_between_mono [OF _ order_refl] unfolding rotated_def by blast

lemma rotatedI:
  assumes "session_RotateToken_spec F (s_ID s) (successor s i raw) v None v'" and "\<exists>a. v_sessions v (s_ID s) = Some a \<and> active a"
    and "drawn_between ext_uuid_NewV7 x k k' i" and "drawn_between dt x k k' raw"
  shows "v_users v' = v_users v \<and> rotated dt s x k k' v v'"
proof -
  from assms(1,2) obtain a t t' where "v_sessions v (s_ID s) = Some a" "active a"
    "v' = v\<lparr>v_sessions := (v_sessions v)(s_ID s \<mapsto> a\<lparr>s_RevokedAt := Some t\<rparr>, i \<mapsto> (successor s i raw)\<lparr>s_CreatedAt := t'\<rparr>)\<rparr>"
    by (auto simp: session_RotateToken_spec_def fault_option_def)
  with assms(3,4) show ?thesis
    unfolding rotated_def
    by (intro conjI exI [of _ a] exI [of _ i] exI [of _ raw] exI [of _ t] exI [of _ "(successor s i raw)\<lparr>s_CreatedAt := t'\<rparr>"]) simp_all
qed

lemma refusedI:
  "v_sessions v' = v_sessions v \<Longrightarrow> refused v v'"
  "v_sessions v' = revoke_where P t (v_sessions v) \<Longrightarrow> refused v v'"
  by (auto simp: refused_def)

text \<open>
  What stays true of a request that waits: the session that an exchange has found is still the same, except
  that it may have been revoked or removed.
\<close>

definition request_ok :: "externals \<Rightarrow> nat \<Rightarrow> (string \<rightharpoonup> Session) \<Rightarrow> pending \<Rightarrow> bool" where
  "request_ok x k S q \<longleftrightarrow>
     (case q of
        Exchange raw s \<Rightarrow> s_TokenHash s = HashToken raw \<and> drawn_between ext_uuid_NewV7 x 0 k (s_ID s) \<and>
          (\<forall>a. S (s_ID s) = Some a \<longrightarrow> (\<exists>r. a = s\<lparr>s_RevokedAt := r\<rparr>))
      | _ \<Rightarrow> True)"

lemma request_ok_kept:
  assumes "request_ok x k S q" and "evolves ext_uuid_NewV7 x k S S'" and "k \<le> k'"
  shows "request_ok x k' S' q"
proof (cases q)
  case (Exchange raw s)
  with assms(1) have q: "s_TokenHash s = HashToken raw" "drawn_between ext_uuid_NewV7 x 0 k (s_ID s)"
    "\<And>a. S (s_ID s) = Some a \<Longrightarrow> \<exists>r. a = s\<lparr>s_RevokedAt := r\<rparr>"
    by (auto simp: request_ok_def)
  have "\<exists>r. a = s\<lparr>s_RevokedAt := r\<rparr>" if "S' (s_ID s) = Some a" for a
    using assms(2) q(2) that q(3) unfolding evolves_def by fastforce
  with q drawn_between_mono [OF q(2) order_refl assms(3)] Exchange show ?thesis by (simp add: request_ok_def)
qed (simp_all add: request_ok_def)

text \<open>The invariant of the server.\<close>

definition server_ok :: "('db \<Rightarrow> bool) \<Rightarrow> ('db \<Rightarrow> dbview) \<Rightarrow> 'db server \<Rightarrow> bool" where
  "server_ok invar view c \<longleftrightarrow> run_ok invar view (sv_world c) \<and> (\<forall>n q. sv_pending c n = Some q \<longrightarrow>
     request_ok (w_ext (sv_world c)) (w_tick (sv_world c)) (v_sessions (view (w_db (sv_world c)))) q)"

lemma server_ok_idle: "run_ok invar view w \<Longrightarrow> server_ok invar view (idle w)"
  by (simp add: server_ok_def idle_def)

text \<open>
  Which session has which token hash: the stored sessions, the sessions that waiting exchanges have found,
  and those of the exchanges that were answered.
\<close>

definition holders :: "('db \<Rightarrow> dbview) \<Rightarrow> 'db server \<Rightarrow> (string \<times> string) set" where
  "holders view c =
     {(s_TokenHash s, i) |s i. v_sessions (view (w_db (sv_world c))) i = Some s} \<union>
     {(HashToken raw, s_ID s) |n raw s. sv_pending c n = Some (Exchange raw s)} \<union>
     {(HashToken raw, s_ID s) |raw s r. (Exchange raw s, r) \<in> set (sv_answers c)}"

lemma holdersI:
  "v_sessions (view (w_db (sv_world c))) i = Some s \<Longrightarrow> s_TokenHash s = h \<Longrightarrow> (h, i) \<in> holders view c"
  "sv_pending c n = Some (Exchange raw s) \<Longrightarrow> (HashToken raw, s_ID s) \<in> holders view c"
  "(Exchange raw s, r) \<in> set (sv_answers c) \<Longrightarrow> (HashToken raw, s_ID s) \<in> holders view c"
  by (auto simp: holders_def)

text \<open>The tokens for which new tokens were answered.\<close>

definition exchanged :: "pending \<times> answer \<Rightarrow> string list" where
  "exchanged a = (case a of (Exchange raw s, TokensAnswer (Inr tk)) \<Rightarrow> [raw] | _ \<Rightarrow> [])"

definition succeeded :: "'db server \<Rightarrow> string list" where
  "succeeded c = concat (map exchanged (sv_answers c))"

lemma in_exchanged: "raw \<in> set (exchanged a) \<longleftrightarrow> (\<exists>s tk. a = (Exchange raw s, TokensAnswer (Inr tk)))"
  by (auto simp: exchanged_def split: prod.splits pending.splits answer.splits sum.splits)

lemma distinct_exchanged: "distinct (exchanged a)"
  by (auto simp: exchanged_def split: prod.splits pending.splits answer.splits sum.splits)

definition once_inv :: "draws \<Rightarrow> nat \<Rightarrow> string set \<Rightarrow> ('db \<Rightarrow> dbview) \<Rightarrow> 'db server \<Rightarrow> bool" where
  "once_inv dt k H view c \<longleftrightarrow> k \<le> w_tick (sv_world c) \<and> single_valued (holders view c) \<and>
     (\<forall>(h, i) \<in> holders view c. h \<in> H \<or> (\<exists>raw. drawn_between dt (w_ext (sv_world c)) k (w_tick (sv_world c)) raw \<and> h = HashToken raw)) \<and>
     (\<forall>raw s r. (Exchange raw s, r) \<in> set (sv_answers c) \<longrightarrow>
        drawn_between ext_uuid_NewV7 (w_ext (sv_world c)) 0 (w_tick (sv_world c)) (s_ID s) \<and>
        (\<forall>tk a. r = TokensAnswer (Inr tk) \<longrightarrow> v_sessions (view (w_db (sv_world c))) (s_ID s) = Some a \<longrightarrow> \<not> active a)) \<and>
     distinct (succeeded c)"

lemma holders_step:
  assumes "holders view c' \<subseteq> insert (HashToken raw, i) (holders view c)" and "single_valued (holders view c)"
    and "\<forall>(h, i) \<in> holders view c. h \<in> H \<or> (\<exists>raw. drawn_between dt x k m raw \<and> h = HashToken raw)"
    and "drawn_between dt x m m' raw" and "new_hashes dt x k K H" and "k \<le> m" and "m \<le> m'" and "m' \<le> K"
  shows "single_valued (holders view c')"
    and "\<forall>(h, i) \<in> holders view c'. h \<in> H \<or> (\<exists>raw. drawn_between dt x k m' raw \<and> h = HashToken raw)"
proof -
  from assms(4) obtain j where j: "m \<le> j" "j < m'" "dt x j = Inr raw" by (auto simp: drawn_between_def)
  have kj: "k \<le> j" "j < K" using j assms(6-8) by linarith+
  have notH: "HashToken raw \<notin> H" using assms(5) kj j(3) unfolding new_hashes_def by blast
  have uniq: "j = j'" if "k \<le> j'" "j' < K" "dt x j' = Inr b" "HashToken raw = HashToken b" for j' b
    using assms(5) [unfolded new_hashes_def, rule_format, OF kj j(3)] that by blast
  have new: "h \<noteq> HashToken raw" if "(h, l) \<in> holders view c" for h l
  proof
    assume h: "h = HashToken raw"
    with assms(3) that notH obtain j' b where j': "k \<le> j'" "j' < m" "dt x j' = Inr b" "HashToken raw = HashToken b"
      unfolding drawn_between_def by blast
    have "j' < K" using j'(2) assms(7,8) by linarith
    from uniq [OF j'(1) this j'(3,4)] j'(2) j(1) show False by simp
  qed
  have "single_valued (insert (HashToken raw, i) (holders view c))"
  proof (rule single_valuedI)
    fix h a b assume "(h, a) \<in> insert (HashToken raw, i) (holders view c)" "(h, b) \<in> insert (HashToken raw, i) (holders view c)"
    then show "a = b" using new single_valuedD [OF assms(2), of h a b] by (elim insertE) auto
  qed
  then show "single_valued (holders view c')" by (rule single_valued_subset [OF assms(1)])
  have "drawn_between dt x k m' raw" by (rule drawn_between_mono [OF assms(4,6)]) simp
  with assms(1,3) drawn_between_mono [OF _ order_refl assms(7)]
  show "\<forall>(h, i) \<in> holders view c'. h \<in> H \<or> (\<exists>raw. drawn_between dt x k m' raw \<and> h = HashToken raw)" by blast
qed

section \<open>The halves keep their promises\<close>

lemma gate_return: "engine_op invar view (State_Monad.return x) gate_spec"
  by (rule engine_opI, rule wp_return) (simp add: gate_same)

lemma gate_wait: "engine_op invar view m gate_spec \<Longrightarrow> engine_op invar view (wait m f h) gate_spec"
  unfolding wait_def
  by (rule engine_opI, (intro wp_engine_op wp_bind wp_case_sum wp_return; assumption?)) (auto elim: gate_mono)

lemma gate_wait_if: "engine_op invar view m gate_spec \<Longrightarrow> engine_op invar view (wait_if m q) gate_spec"
  unfolding wait_if_def
  by (rule engine_opI, (intro wp_engine_op wp_bind wp_case_option wp_return; assumption?)) (auto elim: gate_mono)

lemma run_wait:
  "run_state (wait m f h) w = (Inr q, w') \<longleftrightarrow> (\<exists>a. run_state m w = (Inr a, w') \<and> q = h a)"
  "run_state (wait_if m' p) w = (Inr q, w') \<longleftrightarrow> run_state m' w = (None, w') \<and> q = p"
  by (auto simp: wait_def wait_if_def split: prod.splits sum.splits option.splits)

lemma arrive_exchange:
  "run_state (arrive e a) w = (Inr (Exchange raw s), w') \<Longrightarrow>
   run_state (ss_GetByTokenHash (en_sessions e) (HashToken raw)) w = (Inr s, w')"
  by (cases a) (auto simp: run_wait email_gate_def split: option.splits sum.splits prod.splits)

lemma answering_run: "run_state (answering f m) w = (r, w') \<Longrightarrow> \<exists>a. r = f a \<and> run_state m w = (a, w')"
  by (auto simp: run_answering split: prod.splits)

context engine_runs
begin

lemma refresh_answer_meets:
  "engine_op invar view (refresh_answer e (res, err))
     (\<lambda>x k k' v r v'. v_users v' = v_users v \<and> v_sessions v' = v_sessions v \<and> (err \<noteq> None \<longrightarrow> (\<exists>e. r = Inl e)))"
  unfolding refresh_answer_def
  by (rule engine_opI, (intro wp_audited wp_intros; simp)) (auto simp: audit_Record_spec_def fault_option_def)

lemma wp_stale_reset:
  assumes "invar (w_db w)"
    and "\<And>w'. invar (w_db w') \<Longrightarrow> w_limiter w' = w_limiter w \<Longrightarrow> w_outbox w' = w_outbox w \<Longrightarrow>
      w_ext w' = w_ext w \<Longrightarrow> w_tick w \<le> w_tick w' \<Longrightarrow> v_sessions (view (w_db w')) = v_sessions (view (w_db w)) \<Longrightarrow>
      dom (v_users (view (w_db w'))) = dom (v_users (view (w_db w))) \<Longrightarrow> wp k Q w'"
  shows "wp (State_Monad.bind (us_ResetFailedAttempts (en_users e) i) (\<lambda>r.
      State_Monad.bind (case r of None \<Rightarrow> State_Monad.return () | Some err \<Rightarrow> lg_Error (en_log e) msg (f err))
        (\<lambda>_. k))) Q w"
  by (intro wp_bind wp_users wp_case_option wp_return wp_log assms)
    (auto simp: assms(1) user_update_spec_def fault_option_def split: if_splits)

lemma login_rest_meets: "engine_op invar view (login_rest e u ip ua) (login_rest_spec faults (token_drawn g) (u_ID u))"
  unfolding login_rest_def login_session_def Let_def fresh_session_literal
  apply (rule engine_opI, (intro wp_audited wp_stale_reset wp_intros; simp))
      apply (rule login_rest_failedI, erule disjI1; simp)
     apply (rule login_rest_failedI, rule disjI2, erule disjI1; simp)
    apply (rule login_restI, assumption+; auto elim!: drawn_between_mono)
   apply (rule login_restI, assumption+; auto elim!: drawn_between_mono)
  apply (frule session_Create_fresh; auto simp: login_rest_spec_def)
  done

lemma login_gate_meets: "engine_op invar view (login_gate e email pw ip) gate_spec"
  unfolding login_gate_def rate_limited_def login_verify_def recordLoginFailure_def
  apply (rule engine_opI, (intro wp_audited wp_locked_now wp_engine_op [OF login_mismatch_meets] wp_intros; simp))
       apply (auto simp: gate_spec_def user_GetByEmail_spec_def only_new_users_def) [5]
  apply (auto dest!: GetByEmail_found(1) simp: found_user_def intro: gate_mismatch) [1]
  done

lemma signup_gate_meets: "engine_op invar view (signup_gate e email pw ip) gate_spec"
  unfolding signup_gate_def rate_limited_def signup_hash_def
  by (rule engine_opI, (intro wp_intros; simp))
    (auto simp: gate_spec_def user_GetByEmail_spec_def only_new_users_def)

lemma signup_rest_meets: "engine_op invar view (signup_rest e email hash ip) (signup_rest_spec faults email)"
  unfolding signup_rest_def signup_create_def Let_def
  by (rule engine_opI, (intro wp_audited wp_intros; simp add: zero_User_def))
    (auto simp: signup_rest_spec_def user_Create_spec_def fault_option_def zero_User_def elim!: drawn_between_mono failed_between_mono)

lemma reconfirm_meets: "engine_op invar view (reconfirm (en_users e) (en_hasher e) (en_log e) msg uid cur) gate_spec"
  unfolding reconfirm_def
  by (rule engine_opI, (intro wp_intros; simp)) (auto simp: user_GetByID_spec_def intro: gate_same)

lemma password_hash_meets: "engine_op invar view (password_hash (en_users e) (en_hasher e) (en_log e) uid cur new) gate_spec"
  unfolding password_hash_def
  by (rule engine_opI, (intro wp_engine_op [OF reconfirm_meets] wp_intros; simp)) (auto elim: gate_mono)

lemma owned_session_meets: "engine_op invar view (owned_session (en_sessions e) (en_log e) msg sid uid) gate_spec"
  unfolding owned_session_def
  by (rule engine_opI, (intro wp_intros; simp)) (auto simp: session_GetByID_spec_def intro: gate_same)

lemma email_gate_meets: "engine_op invar view (email_gate e uid email) gate_spec"
proof (cases "en_verifications e = None \<or> en_emailSender e = None")
  case True
  then have "email_gate e uid email = State_Monad.return (Inl (ErrorAnswer (Some ErrEmailChangeNotConfigured)))"
    by (auto simp: email_gate_def split: option.splits)
  then show ?thesis by (simp add: gate_return)
next
  case False
  then obtain vs sender where "en_verifications e = Some vs" "en_emailSender e = Some sender" by auto
  then show ?thesis
    unfolding email_gate_def
    by (simp, intro engine_opI, (intro wp_intros; simp)) (auto simp: user_GetByEmail_spec_def intro: gate_same)
qed

lemma password_update_meets:
  "engine_op invar view (password_update (en_users e) (en_sessions e) (en_audit e) (en_log e) uid hash) settle_spec"
  unfolding password_update_def
  apply (rule engine_opI, (intro wp_audited wp_revoke_all wp_intros; simp))
   apply (drule settle_update, erule settle_revoked; simp)
  apply (drule settle_update, simp add: settle_same)
  done

lemma delete_confirmed_meets:
  "engine_op invar view (delete_confirmed (en_users e) (en_sessions e) (en_audit e) (en_log e) uid) settle_spec"
  unfolding delete_confirmed_def
  by (rule engine_opI, (intro wp_audited wp_revoke_all wp_intros; simp)) (auto intro: settle_deleted)

lemma end_session_meets: "engine_op invar view (end_session (en_sessions e) (en_audit e) (en_log e) ev m1 m2 sid uid) settle_spec"
  unfolding end_session_def
  by (rule engine_opI, (intro wp_audited wp_intros; simp))
    (auto simp: session_Revoke_spec_def fault_option_def settle_spec_def stamped_refl stamped_one)

end

context email_change
begin

lemma email_token_meets: "engine_op invar view (email_token verifications raw) gate_spec"
  unfolding email_token_def
  by (rule engine_opI, (intro wp_intros; simp)) (auto simp: verif_GetByTokenHash_spec_def intro: gate_same)

lemma email_update_meets: "engine_op invar view (email_update users verifications audit log vt) settle_spec"
  unfolding email_update_def
  by (rule engine_opI, (intro wp_audited wp_intros; simp))
    (auto dest!: settle_update simp: verif_MarkUsed_spec_def fault_option_def intro!: settle_same)

lemma email_request_quiet:
  assumes "invar (w_db w)"
  shows "wp (email_request verifications sender gen ids audit log uid newEmail)
    (\<lambda>r w'. invar (w_db w') \<and> w_ext w' = w_ext w \<and> w_tick w \<le> w_tick w' \<and> v_users (view (w_db w')) = v_users (view (w_db w)) \<and>
       v_sessions (view (w_db w')) = v_sessions (view (w_db w))) w"
  unfolding email_request_def Let_def
  by (intro wp_audited wp_intros; simp add: assms) (auto simp: verif_Create_spec_def fault_option_def)

end

context engine_runs
begin

lemma arrive_meets: "engine_op invar view (arrive e a) gate_spec"
proof (cases a)
  case (ReqConfirmEmailChange raw)
  show ?thesis
  proof (cases "en_verifications e")
    case (Some vs)
    with ReqConfirmEmailChange show ?thesis
      using email_change.email_token_meets [OF email_changes [OF Some app_sender.email_sender_axioms]] by (simp add: gate_wait)
  qed (simp add: ReqConfirmEmailChange gate_return)
next
  case (ReqRefreshToken raw)
  have "engine_op invar view (ss_GetByTokenHash (en_sessions e) (HashToken raw)) gate_spec"
    by (rule engine_opI, intro wp_sessions) (auto simp: session_GetByTokenHash_spec_def intro: gate_same)
  with ReqRefreshToken show ?thesis by (simp add: gate_wait)
qed (simp_all add: gate_wait gate_wait_if gate_return signup_gate_meets login_gate_meets password_hash_meets reconfirm_meets
      email_gate_meets owned_session_meets)

end

end
