(* ===== verification/Interleaving_Runs.thy ===== *)
theory Interleaving_Runs
  imports Interleaving_Specs
begin

text \<open>
  What every interleaving keeps true. In the locale \<open>guarded_runs\<close> of the backends on which the halves are safe, the
  invariant of the runs holds although requests act on what they read earlier, revocation and deletion are final, and a
  refresh token is exchanged once.
\<close>

section \<open>Backends on which the halves are safe\<close>

text \<open>
  There \<open>RotateToken\<close> refuses a session that is not active, and no session belongs to a user that does not exist.
\<close>

locale guarded_runs =
  engine_runs invar view faults stamp e matches sound hash_fails g refusals
  for invar :: "'db \<Rightarrow> bool" and view :: "'db \<Rightarrow> dbview" and faults :: "error set" and stamp :: "Time \<Rightarrow> Time"
    and e :: "'db world Engine" and matches and sound and hash_fails and g :: CryptoRandTokenGenerator and refusals +
  assumes rotation_guarded: "invar (w_db w) \<Longrightarrow> s_RevokedAt n = None \<Longrightarrow>
      run_state (ss_RotateToken (en_sessions e) i n) w = (None, w') \<Longrightarrow>
      \<exists>s. v_sessions (view (w_db w)) i = Some s \<and> active s"
    and always_owned: "invar d \<Longrightarrow> owned (view d)"
begin

lemma wp_guarded_rotation:
  assumes "invar (w_db w)" and "s_RevokedAt n = None"
    and "\<And>r w'. invar (w_db w') \<Longrightarrow> w_limiter w' = w_limiter w \<Longrightarrow> w_outbox w' = w_outbox w \<Longrightarrow> w_ext w' = w_ext w \<Longrightarrow>
      w_tick w \<le> w_tick w' \<Longrightarrow> session_RotateToken_spec faults i n (view (w_db w)) r (view (w_db w')) \<Longrightarrow>
      (r = None \<longrightarrow> (\<exists>s. v_sessions (view (w_db w)) i = Some s \<and> active s)) \<Longrightarrow> Q r w'"
  shows "wp (ss_RotateToken (en_sessions e) i n) Q w"
proof (rule wpI)
  fix r w' assume run: "run_state (ss_RotateToken (en_sessions e) i n) w = (r, w')"
  have "wp (ss_RotateToken (en_sessions e) i n) (\<lambda>r w'. invar (w_db w') \<and> w_limiter w' = w_limiter w \<and> w_outbox w' = w_outbox w \<and>
      w_ext w' = w_ext w \<and> w_tick w \<le> w_tick w' \<and> session_RotateToken_spec faults i n (view (w_db w)) r (view (w_db w'))) w"
    by (intro wp_sessions assms(1,2)) simp
  with run rotation_guarded [OF assms(1,2)] show "Q r w'" by (intro assms(3)) (auto dest!: wpD)
qed

lemma rotate_found_meets:
  "engine_op invar view (rotate_found (en_sessions e) (en_refreshGen e) (en_ids e) (Inr s))
     (\<lambda>x k k' v r v'. v_users v' = v_users v \<and> (if snd r = None then rotated (token_drawn g) s x k k' v v' else refused v v'))"
  unfolding rotate_found_def Let_def successor_literal
  apply (rule engine_opI, (intro wp_guarded_rotation wp_intros; simp))
      apply (auto simp: session_RevokeWhere_spec_def fault_option_def intro: refusedI) [4]
   apply (rule rotatedI, assumption, assumption; auto elim!: drawn_between_mono)
  apply (auto simp: session_RotateToken_spec_def fault_option_def intro: refusedI) [1]
  done

lemma exchange_rest_meets: "engine_op invar view (exchange_rest e (Inr s)) (exchange_spec (token_drawn g) s)"
  unfolding exchange_rest_def
proof (rule engine_opI, intro wp_bind wp_engine_op [OF rotate_found_meets])
  fix w :: "'db world" and r :: "RefreshResult \<times> error option" and w1 :: "'db world"
  assume w1: "invar (w_db w1)" "w_outbox w1 = w_outbox w" "w_ext w1 = w_ext w" "w_tick w \<le> w_tick w1"
    "v_users (view (w_db w1)) = v_users (view (w_db w)) \<and>
      (if snd r = None then rotated (token_drawn g) s (w_ext w) (w_tick w) (w_tick w1) (view (w_db w)) (view (w_db w1))
       else refused (view (w_db w)) (view (w_db w1)))"
  obtain res err where r: "r = (res, err)" by (cases r)
  show "wp (refresh_answer e r) (\<lambda>r w'. invar (w_db w') \<and> w_outbox w' = w_outbox w \<and> w_ext w' = w_ext w \<and> w_tick w \<le> w_tick w' \<and>
      exchange_spec (token_drawn g) s (w_ext w) (w_tick w) (w_tick w') (view (w_db w)) r (view (w_db w'))) w1"
    unfolding r
  proof (rule wp_engine_op [OF refresh_answer_meets w1(1)])
    fix q :: "error + Tokens" and w2 :: "'db world"
    assume w2: "invar (w_db w2)" "w_outbox w2 = w_outbox w1" "w_ext w2 = w_ext w1" "w_tick w1 \<le> w_tick w2"
      "v_users (view (w_db w2)) = v_users (view (w_db w1)) \<and> v_sessions (view (w_db w2)) = v_sessions (view (w_db w1)) \<and>
       (err \<noteq> None \<longrightarrow> (\<exists>e. q = Inl e))"
    have "rotated (token_drawn g) s (w_ext w) (w_tick w) (w_tick w2) (view (w_db w)) (view (w_db w2))" if "err = None"
      using w1(5) w2(4,5) r that rotated_mono [of "token_drawn g" s "w_ext w" "w_tick w" "w_tick w1" "view (w_db w)" "view (w_db w1)" "w_tick w2"]
      by (simp add: rotated_def)
    moreover have "refused (view (w_db w)) (view (w_db w2))" if "err \<noteq> None"
      using w1(5) w2(5) r that by (simp add: refused_def)
    ultimately have "exchange_spec (token_drawn g) s (w_ext w) (w_tick w) (w_tick w2) (view (w_db w)) q (view (w_db w2))"
      using w1(5) w2(5) unfolding exchange_spec_def by metis
    with w1 w2 show "invar (w_db w2) \<and> w_outbox w2 = w_outbox w \<and> w_ext w2 = w_ext w \<and> w_tick w \<le> w_tick w2 \<and>
      exchange_spec (token_drawn g) s (w_ext w) (w_tick w) (w_tick w2) (view (w_db w)) q (view (w_db w2))"
      by simp
  qed
qed

section \<open>One step\<close>

text \<open>Each half has the effect of a call on sessions and users.\<close>

lemma gate_effect:
  assumes "engine_op invar view m S" and "run_state m w = (r, w')" and "invar (w_db w)"
    and "\<And>x k k' v r v'. S x k k' v r v' \<Longrightarrow> gate_spec x k k' v r v'"
  shows "call_effect invar view (token_drawn g) w w'"
  by (rule engine_op_effect [OF assms(1-3)]) (auto dest!: assms(4) simp: gate_spec_def intro: keeps_same)

lemma login_rest_effect:
  assumes "run_state (login_rest e u ip ua) w = (r, w')" and "invar (w_db w)"
  shows "call_effect invar view (token_drawn g) w w'"
proof (rule engine_op_effect [OF login_rest_meets assms])
  fix x k k' assume spec: "login_rest_spec faults (token_drawn g) (u_ID u) x k k' (view (w_db w)) r (view (w_db w'))"
  then show "only_new_users ext_uuid_NewV7 x k k' (view (w_db w)) (view (w_db w'))"
    by (simp add: login_rest_spec_def only_new_users_def)
  assume k: "k \<le> k'" and inv: "invar (w_db w')"
  from spec consider "v_sessions (view (w_db w')) = v_sessions (view (w_db w))"
    | i raw s where "drawn_between ext_uuid_NewV7 x k k' i" "drawn_between (token_drawn g) x k k' raw" "s_ID s = i"
      "s_FamilyID s = i" "s_TokenHash s = HashToken raw" "v_sessions (view (w_db w')) = (v_sessions (view (w_db w)))(i \<mapsto> s)"
    unfolding login_rest_spec_def by blast
  then show "keeps_sessions ext_uuid_NewV7 (token_drawn g) x k k' (view (w_db w)) (view (w_db w'))"
  proof cases
    case 1
    with spec k show ?thesis by (intro keeps_same) (auto simp: login_rest_spec_def)
  next
    case 2
    have dom: "dom (v_users (view (w_db w'))) = dom (v_users (view (w_db w)))" using spec by (simp add: login_rest_spec_def)
    have "v_sessions (view (w_db w')) i = Some s" using 2(6) by simp
    then have "s_UserID s \<in> dom (v_users (view (w_db w')))" using always_owned [OF inv] unfolding owned_def by blast
    with 2 dom k show ?thesis by (intro keeps_new_family [OF 2(1,3,4) _ 2(6) _ _ 2(2,5)]) simp_all
  qed
qed

lemma exchange_rest_effect:
  assumes "run_state (exchange_rest e (Inr s)) w = (r, w')" and "invar (w_db w)"
    and s: "request_ok (w_ext w) (w_tick w) (v_sessions (view (w_db w))) (Exchange raw s)"
  shows "call_effect invar view (token_drawn g) w w'"
proof (rule engine_op_effect [OF exchange_rest_meets assms(1,2)])
  fix x k k' assume spec: "exchange_spec (token_drawn g) s x k k' (view (w_db w)) r (view (w_db w'))"
  then have users: "v_users (view (w_db w')) = v_users (view (w_db w))" by (simp add: exchange_spec_def)
  then show "only_new_users ext_uuid_NewV7 x k k' (view (w_db w)) (view (w_db w'))" by (simp add: only_new_users_def)
  assume k: "k \<le> k'"
  from spec consider "refused (view (w_db w)) (view (w_db w'))" | "rotated (token_drawn g) s x k k' (view (w_db w)) (view (w_db w'))"
    unfolding exchange_spec_def by blast
  then show "keeps_sessions ext_uuid_NewV7 (token_drawn g) x k k' (view (w_db w)) (view (w_db w'))"
  proof cases
    case 1
    then have "stamped (v_sessions (view (w_db w))) (v_sessions (view (w_db w')))"
      by (auto simp: refused_def intro: stamped_refl stamped_revoke_where)
    with users k show ?thesis by (intro keeps_stamped) simp_all
  next
    case 2
    then obtain a i raw' t n where n: "v_sessions (view (w_db w)) (s_ID s) = Some a" "active a"
      "drawn_between ext_uuid_NewV7 x k k' i" "drawn_between (token_drawn g) x k k' raw'" "s_ID n = i"
      "s_FamilyID n = s_FamilyID s" "s_UserID n = s_UserID s" "s_TokenHash n = HashToken raw'"
      "v_sessions (view (w_db w')) = (v_sessions (view (w_db w)))(s_ID s \<mapsto> a\<lparr>s_RevokedAt := Some t\<rparr>, i \<mapsto> n)"
      unfolding rotated_def by blast
    from s n(1) obtain q where "a = s\<lparr>s_RevokedAt := q\<rparr>" by (auto simp: request_ok_def)
    then show ?thesis
      by (intro keeps_continue [OF n(3,1,2,5) _ _ n(9) users k n(4,8)]) (simp_all add: n(6,7))
  qed
qed

lemma settle_effect:
  assumes "engine_op invar view m settle_spec" and "run_state m w = (r, w')" and "invar (w_db w)"
  shows "call_effect invar view (token_drawn g) w w'"
proof (rule engine_op_effect [OF assms])
  fix x k k' assume spec: "settle_spec x k k' (view (w_db w)) r (view (w_db w'))"
  then show "only_new_users ext_uuid_NewV7 x k k' (view (w_db w)) (view (w_db w'))" by (auto simp: settle_spec_def intro: only_new_subset)
  assume "k \<le> k'" and "invar (w_db w')"
  with spec always_owned show "keeps_sessions ext_uuid_NewV7 (token_drawn g) x k k' (view (w_db w)) (view (w_db w'))"
    by (intro keeps_stamped_active) (auto simp: settle_spec_def owned_def)
qed

lemma email_request_effect:
  assumes "en_verifications e = Some vs" and "en_emailSender e = Some sender" and "invar (w_db w)"
    and "run_state (email_request vs sender (en_refreshGen e) (en_ids e) (en_audit e) (en_log e) uid email) w = (r, w')"
  shows "call_effect invar view (token_drawn g) w w'"
proof -
  from sender_keeps [OF assms(2)] obtain R where "email_sender sender R" by blast
  from wpD [OF email_change.email_request_quiet [OF email_changes [OF assms(1) this] assms(3)] assms(4)] show ?thesis
    unfolding call_effect_def by (auto intro: keeps_same only_new_subset)
qed

lemma finish_effect:
  assumes "run_state (finish e q) w = (r, w')" and inv: "invar (w_db w)"
    and "request_ok (w_ext w) (w_tick w) (v_sessions (view (w_db w))) q"
  shows "call_effect invar view (token_drawn g) w w'"
proof (cases q)
  case (SignUpOf email hash ip)
  with assms(1) show ?thesis
    by (auto dest!: answering_run intro: gate_effect [OF signup_rest_meets _ inv signup_rest_gate])
next
  case (LoginOf u ip ua)
  with assms(1) inv show ?thesis by (auto dest!: answering_run intro: login_rest_effect)
next
  case (PasswordOf uid hash)
  with assms(1) inv show ?thesis by (auto dest!: answering_run intro: settle_effect [OF password_update_meets])
next
  case (DeletionOf uid)
  with assms(1) inv show ?thesis by (auto dest!: answering_run intro: settle_effect [OF delete_confirmed_meets])
next
  case (EmailOf uid email)
  with assms(1) inv show ?thesis
    by (auto dest!: answering_run split: option.splits intro: email_request_effect quiet_effect)
next
  case (ConfirmOf vt)
  show ?thesis
  proof (cases "en_verifications e")
    case None
    with ConfirmOf assms(1) inv show ?thesis by (auto intro: quiet_effect)
  next
    case (Some vs)
    note meets = email_change.email_update_meets [OF email_changes [OF Some app_sender.email_sender_axioms]]
    from ConfirmOf Some assms(1) inv show ?thesis by (auto dest!: answering_run intro: settle_effect [OF meets])
  qed
next
  case (LogoutOf sid uid)
  with assms(1) inv show ?thesis by (auto simp: logout_end_def dest!: answering_run intro: settle_effect [OF end_session_meets])
next
  case (RevokeOf sid uid)
  with assms(1) inv show ?thesis by (auto simp: revoke_end_def dest!: answering_run intro: settle_effect [OF end_session_meets])
next
  case (Exchange raw s)
  with assms(1) obtain a where "run_state (exchange_rest e (Inr s)) w = (a, w')" by (auto dest!: answering_run)
  from exchange_rest_effect [OF this inv] assms(3) Exchange show ?thesis by blast
next
  case (LogoutAllOf uid)
  with assms(1) inv show ?thesis by (auto dest!: answering_run intro: call_has_effect step_LogoutAll)
next
  case (VerifyOf acc)
  with assms(1) inv show ?thesis by (auto dest!: answering_run intro: call_has_effect step_VerifyToken)
next
  case (ListOf uid)
  with assms(1) inv show ?thesis by (auto dest!: answering_run intro: call_has_effect step_ListSessions)
qed

lemma serve_effect:
  assumes "serve e c c'" and "invar (w_db (sv_world c))"
    and "\<And>n q. sv_pending c n = Some q \<Longrightarrow> request_ok (w_ext (sv_world c)) (w_tick (sv_world c)) (v_sessions (view (w_db (sv_world c)))) q"
  shows "call_effect invar view (token_drawn g) (sv_world c) (sv_world c')"
  using assms(1)
proof cases
  case (serve_refuse a r w')
  with gate_effect [OF arrive_meets serve_refuse(2) assms(2)] show ?thesis by simp
next
  case (serve_arrive n a q w')
  with gate_effect [OF arrive_meets serve_arrive(3) assms(2)] show ?thesis by simp
next
  case (serve_finish n q r w')
  with finish_effect [OF serve_finish(3) assms(2) assms(3)] show ?thesis by simp
qed

lemma serve_world:
  assumes "serve e c c'" and "server_ok invar view c"
  shows "run_ok invar view (sv_world c')" and "run_effect view (sv_world c) (sv_world c')"
    and "adds_token (token_drawn g) (w_ext (sv_world c)) (w_tick (sv_world c)) (w_tick (sv_world c'))
      (v_sessions (view (w_db (sv_world c)))) (v_sessions (view (w_db (sv_world c'))))"
proof -
  have ok: "run_ok invar view (sv_world c)" using assms(2) by (simp add: server_ok_def)
  have eff: "call_effect invar view (token_drawn g) (sv_world c) (sv_world c')"
    by (rule serve_effect [OF assms(1) run_okD(1) [OF ok]]) (use assms(2) in \<open>simp add: server_ok_def\<close>)
  show "run_ok invar view (sv_world c')" and "run_effect view (sv_world c) (sv_world c')"
    and "adds_token (token_drawn g) (w_ext (sv_world c)) (w_tick (sv_world c)) (w_tick (sv_world c'))
      (v_sessions (view (w_db (sv_world c)))) (v_sessions (view (w_db (sv_world c'))))"
    using call_effect_run [OF eff ok] by simp_all
qed

lemma serve_found:
  assumes "run_ok invar view w" and "run_state (arrive e a) w = (Inr (Exchange raw s), w')"
  shows "v_sessions (view (w_db w)) (s_ID s) = Some s" and "s_TokenHash s = HashToken raw"
proof -
  have look: "run_state (ss_GetByTokenHash (en_sessions e) (HashToken raw)) w = (Inr s, w')"
    using arrive_exchange [OF assms(2)] .
  have "wp (ss_GetByTokenHash (en_sessions e) (HashToken raw))
      (\<lambda>r w'. session_GetByTokenHash_spec faults (HashToken raw) (view (w_db w)) r (view (w_db w'))) w"
    by (intro wp_sessions run_okD(1) [OF assms(1)])
  from wpD [OF this look] show "v_sessions (view (w_db w)) (s_ID s) = Some s" and "s_TokenHash s = HashToken raw"
    by (simp_all add: session_GetByTokenHash_spec_def)
qed

lemma serve_ok:
  assumes "serve e c c'" and "server_ok invar view c"
  shows "server_ok invar view c'"
proof -
  note w = serve_world [OF assms]
  have ext: "w_ext (sv_world c') = w_ext (sv_world c)" "w_tick (sv_world c) \<le> w_tick (sv_world c')"
    "evolves ext_uuid_NewV7 (w_ext (sv_world c)) (w_tick (sv_world c)) (v_sessions (view (w_db (sv_world c)))) (v_sessions (view (w_db (sv_world c'))))"
    using w(2) by (simp_all add: run_effect_def)
  have ok: "run_ok invar view (sv_world c)" using assms(2) by (simp add: server_ok_def)
  have old: "request_ok (w_ext (sv_world c')) (w_tick (sv_world c')) (v_sessions (view (w_db (sv_world c')))) q"
    if "request_ok (w_ext (sv_world c)) (w_tick (sv_world c)) (v_sessions (view (w_db (sv_world c)))) q" for q
    using request_ok_kept [OF that ext(3,2)] ext(1) by simp
  have new: "request_ok (w_ext (sv_world c)) (w_tick (sv_world c)) (v_sessions (view (w_db (sv_world c)))) q"
    if "run_state (arrive e a) (sv_world c) = (Inr q, w')" for a q w'
  proof (cases q)
    case (Exchange raw s)
    note st = serve_found [OF ok that [unfolded Exchange]]
    from session_invD(2) [OF run_okD(3) [OF ok] st(1)] st Exchange show ?thesis
      by (auto simp: request_ok_def intro: exI [of _ "s_RevokedAt s"])
  qed (simp_all add: request_ok_def)
  have "request_ok (w_ext (sv_world c')) (w_tick (sv_world c')) (v_sessions (view (w_db (sv_world c')))) q"
    if q: "sv_pending c' n = Some q" for n q
  proof (rule old, use assms(1) in cases)
    case (serve_arrive m a p w')
    with q assms(2) new show "request_ok (w_ext (sv_world c)) (w_tick (sv_world c)) (v_sessions (view (w_db (sv_world c)))) q"
      by (auto simp: server_ok_def split: if_splits)
  qed (use q assms(2) in \<open>auto simp: server_ok_def split: if_splits\<close>)
  with w(1) show ?thesis by (simp add: server_ok_def)
qed

lemma serve_holders:
  assumes "serve e c c'" and "server_ok invar view c"
    and stored: "{(s_TokenHash s, i) |s i. v_sessions (view (w_db (sv_world c'))) i = Some s} \<subseteq> N \<union> holders view c"
  shows "holders view c' \<subseteq> N \<union> holders view c"
proof -
  have ok: "run_ok invar view (sv_world c)" using assms(2) by (simp add: server_ok_def)
  have "(HashToken raw, s_ID s) \<in> holders view c" if "sv_pending c' n = Some (Exchange raw s)" for n raw s
    using assms(1)
  proof cases
    case (serve_arrive m a q w')
    show ?thesis
    proof (cases "sv_pending c n = Some (Exchange raw s)")
      case False
      with that serve_arrive have "run_state (arrive e a) (sv_world c) = (Inr (Exchange raw s), w')" by (auto split: if_splits)
      from serve_found [OF ok this] show ?thesis by (intro holdersI(1)) simp_all
    qed (rule holdersI(2))
  qed (use that holdersI(2) [of c _ raw s view] in \<open>auto split: if_splits\<close>)
  moreover have "(HashToken raw, s_ID s) \<in> holders view c" if "(Exchange raw s, r) \<in> set (sv_answers c')" for raw s r
    using assms(1) by cases (use that holdersI(2,3) [where view = view] in auto)
  ultimately show ?thesis using stored unfolding holders_def [of view c'] by blast
qed

lemma serve_stored:
  assumes "serve e c c'" and "server_ok invar view c"
  obtains "holders view c' \<subseteq> holders view c"
  | raw i where "drawn_between (token_drawn g) (w_ext (sv_world c)) (w_tick (sv_world c)) (w_tick (sv_world c')) raw"
      "holders view c' \<subseteq> insert (HashToken raw, i) (holders view c)"
proof -
  let ?S = "v_sessions (view (w_db (sv_world c)))" and ?S' = "v_sessions (view (w_db (sv_world c')))"
  from serve_world(3) [OF assms] obtain T where T: "stamped ?S T" and S': "?S' = T \<or> (\<exists>i n raw.
      drawn_between (token_drawn g) (w_ext (sv_world c)) (w_tick (sv_world c)) (w_tick (sv_world c')) raw \<and>
      s_TokenHash n = HashToken raw \<and> ?S' = T(i \<mapsto> n))"
    unfolding adds_token_def by blast
  have old: "(s_TokenHash t, i) \<in> holders view c" if "T i = Some t" for i t
  proof -
    from T that obtain s r where "?S i = Some s" "t = s\<lparr>s_RevokedAt := r\<rparr>" unfolding stamped_def by blast
    then show ?thesis by (intro holdersI(1)) simp_all
  qed
  from S' show thesis
  proof (elim disjE exE conjE)
    assume "?S' = T"
    with old have "{(s_TokenHash s, i) |s i. ?S' i = Some s} \<subseteq> {} \<union> holders view c" by auto
    from serve_holders [OF assms this] that(1) show thesis by simp
  next
    fix i n raw assume n: "drawn_between (token_drawn g) (w_ext (sv_world c)) (w_tick (sv_world c)) (w_tick (sv_world c')) raw"
      "s_TokenHash n = HashToken raw" "?S' = T(i \<mapsto> n)"
    with old have "{(s_TokenHash s, i) |s i. ?S' i = Some s} \<subseteq> {(HashToken raw, i)} \<union> holders view c"
      by (auto split: if_splits)
    from serve_holders [OF assms this] that(2) [OF n(1)] show thesis by simp
  qed
qed

lemma exchange_success:
  assumes "run_ok invar view w" and "run_state (exchange_rest e (Inr s)) w = (Inr tk, w')"
  shows "\<exists>a. v_sessions (view (w_db w)) (s_ID s) = Some a \<and> active a"
    and "v_sessions (view (w_db w')) (s_ID s) = Some b \<Longrightarrow> \<not> active b"
proof -
  from engine_opD(5) [OF exchange_rest_meets assms(2) run_okD(1) [OF assms(1)]] obtain a i t n where
    a: "v_sessions (view (w_db w)) (s_ID s) = Some a" "active a"
    and i: "drawn_between ext_uuid_NewV7 (w_ext w) (w_tick w) (w_tick w') i"
    and S': "v_sessions (view (w_db w')) = (v_sessions (view (w_db w)))(s_ID s \<mapsto> a\<lparr>s_RevokedAt := Some t\<rparr>, i \<mapsto> n)"
    by (auto simp: exchange_spec_def rotated_def)
  from a show "\<exists>a. v_sessions (view (w_db w)) (s_ID s) = Some a \<and> active a" by blast
  have "i \<noteq> s_ID s"
    using fresh_draw [OF run_okD(2) [OF assms(1)] i session_invD(2) [OF run_okD(3) [OF assms(1)] a(1)]] .
  with S' show "\<not> active b" if "v_sessions (view (w_db w')) (s_ID s) = Some b"
    using that by (auto simp: active_def)
qed

lemma once_answers:
  assumes "serve e c c'" and "server_ok invar view c" and "once_inv dt k H view c"
    and "(Exchange raw s, r) \<in> set (sv_answers c')"
  shows "drawn_between ext_uuid_NewV7 (w_ext (sv_world c')) 0 (w_tick (sv_world c')) (s_ID s) \<and>
    (\<forall>tk a. r = TokensAnswer (Inr tk) \<longrightarrow> v_sessions (view (w_db (sv_world c'))) (s_ID s) = Some a \<longrightarrow> \<not> active a)"
proof -
  have ext: "w_ext (sv_world c') = w_ext (sv_world c)" "w_tick (sv_world c) \<le> w_tick (sv_world c')"
    "evolves ext_uuid_NewV7 (w_ext (sv_world c)) (w_tick (sv_world c)) (v_sessions (view (w_db (sv_world c)))) (v_sessions (view (w_db (sv_world c'))))"
    using serve_world(2) [OF assms(1,2)] by (simp_all add: run_effect_def)
  have ok: "run_ok invar view (sv_world c)" using assms(2) by (simp add: server_ok_def)
  show ?thesis
  proof (cases "(Exchange raw s, r) \<in> set (sv_answers c)")
    case True
    with assms(3) have old: "drawn_between ext_uuid_NewV7 (w_ext (sv_world c)) 0 (w_tick (sv_world c)) (s_ID s)"
      "\<And>tk a. r = TokensAnswer (Inr tk) \<Longrightarrow> v_sessions (view (w_db (sv_world c))) (s_ID s) = Some a \<Longrightarrow> \<not> active a"
      unfolding once_inv_def by blast+
    have "\<not> active a" if "r = TokensAnswer (Inr tk)" "v_sessions (view (w_db (sv_world c'))) (s_ID s) = Some a" for tk a
      using ext(3) old(1) that(2) old(2) [OF that(1)] unfolding evolves_def by blast
    with drawn_between_mono [OF old(1) order_refl ext(2)] ext(1) show ?thesis by simp
  next
    case False
    with assms(1,4) obtain n where n: "sv_pending c n = Some (Exchange raw s)"
      "run_state (finish e (Exchange raw s)) (sv_world c) = (r, sv_world c')"
      by cases auto
    then obtain q where r: "r = TokensAnswer q" "run_state (exchange_rest e (Inr s)) (sv_world c) = (q, sv_world c')"
      by (auto dest!: answering_run)
    from assms(2) n(1) have "request_ok (w_ext (sv_world c)) (w_tick (sv_world c)) (v_sessions (view (w_db (sv_world c)))) (Exchange raw s)"
      unfolding server_ok_def by blast
    then have "drawn_between ext_uuid_NewV7 (w_ext (sv_world c)) 0 (w_tick (sv_world c)) (s_ID s)" by (simp add: request_ok_def)
    from drawn_between_mono [OF this order_refl ext(2)] exchange_success(2) [OF ok] r ext(1) show ?thesis by auto
  qed
qed

lemma once_distinct:
  assumes "serve e c c'" and "server_ok invar view c" and "once_inv dt k H view c"
  shows "distinct (succeeded c')"
proof -
  have ok: "run_ok invar view (sv_world c)" using assms(2) by (simp add: server_ok_def)
  have old: "distinct (succeeded c)" using assms(3) by (simp add: once_inv_def)
  show ?thesis
    using assms(1)
  proof cases
    case (serve_finish n q r w')
    have "raw \<notin> set (succeeded c)" if new: "raw \<in> set (exchanged (q, r))" for raw
    proof
      assume "raw \<in> set (succeeded c)"
      then obtain s2 tk2 where s2: "(Exchange raw s2, TokensAnswer (Inr tk2)) \<in> set (sv_answers c)"
        by (auto simp: succeeded_def in_exchanged)
      from new obtain s tk where q: "q = Exchange raw s" "r = TokensAnswer (Inr tk)" by (auto simp: in_exchanged)
      have "s_ID s2 = s_ID s"
        using holdersI(2) [OF serve_finish(2) [unfolded q], of view] holdersI(3) [OF s2, of view] assms(3)
        unfolding once_inv_def by (auto dest: single_valuedD)
      moreover have "run_state (exchange_rest e (Inr s)) (sv_world c) = (Inr tk, w')"
        using serve_finish(3) q by (auto dest!: answering_run)
      from exchange_success(1) [OF ok this] obtain a where "v_sessions (view (w_db (sv_world c))) (s_ID s) = Some a" "active a"
        by blast
      ultimately show False using assms(3) s2 unfolding once_inv_def by fastforce
    qed
    with old serve_finish(1) show ?thesis by (auto simp: succeeded_def distinct_exchanged)
  qed (use old in \<open>simp_all add: succeeded_def\<close>)
qed

lemma serve_once:
  assumes "serve e c c'" and "server_ok invar view c" and inv: "once_inv (token_drawn g) k H view c"
    and new: "new_hashes (token_drawn g) (w_ext (sv_world c)) k K H" and "w_tick (sv_world c') \<le> K"
  shows "once_inv (token_drawn g) k H view c'"
proof -
  have ext: "w_ext (sv_world c') = w_ext (sv_world c)" "w_tick (sv_world c) \<le> w_tick (sv_world c')"
    using serve_world(2) [OF assms(1,2)] by (simp_all add: run_effect_def)
  from inv have k: "k \<le> w_tick (sv_world c)" and sv: "single_valued (holders view c)"
    and hs: "\<forall>(h, i) \<in> holders view c. h \<in> H \<or>
      (\<exists>raw. drawn_between (token_drawn g) (w_ext (sv_world c)) k (w_tick (sv_world c)) raw \<and> h = HashToken raw)"
    unfolding once_inv_def by blast+
  from assms(1,2) have hold: "single_valued (holders view c') \<and> (\<forall>(h, i) \<in> holders view c'. h \<in> H \<or>
      (\<exists>raw. drawn_between (token_drawn g) (w_ext (sv_world c)) k (w_tick (sv_world c')) raw \<and> h = HashToken raw))"
  proof (cases rule: serve_stored)
    case 1
    with sv hs drawn_between_mono [OF _ order_refl ext(2)] show ?thesis by (blast intro: single_valued_subset)
  next
    case (2 raw i)
    from holders_step [OF 2(2) sv hs 2(1) new k ext(2) assms(5)] show ?thesis by blast
  qed
  show ?thesis
    unfolding once_inv_def
    using k ext hold once_answers [OF assms(1,2) inv] once_distinct [OF assms(1,2) inv] by auto
qed

section \<open>Every interleaving\<close>

lemma serves:
  assumes "(serve e)\<^sup>*\<^sup>* (idle w) c" and "run_ok invar view w" and "distinct_hashes (v_sessions (view (w_db w)))"
  shows "server_ok invar view c \<and> w_ext (sv_world c) = w_ext w \<and> w_tick w \<le> w_tick (sv_world c) \<and>
    (\<forall>K. w_tick (sv_world c) \<le> K \<longrightarrow> new_hashes (token_drawn g) (w_ext w) (w_tick w) K (hashes (v_sessions (view (w_db w)))) \<longrightarrow>
       once_inv (token_drawn g) (w_tick w) (hashes (v_sessions (view (w_db w)))) view c)"
  using assms(1)
proof (induction rule: rtranclp_induct)
  case base
  have "single_valued (holders view (idle w))"
    using assms(3) by (auto simp: holders_def idle_def single_valued_def distinct_hashes_def)
  moreover have "\<forall>(h, i) \<in> holders view (idle w). h \<in> hashes (v_sessions (view (w_db w)))"
    by (auto simp: holders_def idle_def hashes_def intro: ranI)
  ultimately have "once_inv dt (w_tick w) (hashes (v_sessions (view (w_db w)))) view (idle w)" for dt
    by (fastforce simp: once_inv_def idle_def succeeded_def)
  with server_ok_idle [OF assms(2)] show ?case by (simp add: idle_def)
next
  case (step c c')
  let ?H = "hashes (v_sessions (view (w_db w)))"
  from step.IH have c: "server_ok invar view c" "w_ext (sv_world c) = w_ext w" "w_tick w \<le> w_tick (sv_world c)"
    and once: "\<And>K. w_tick (sv_world c) \<le> K \<Longrightarrow> new_hashes (token_drawn g) (w_ext w) (w_tick w) K ?H \<Longrightarrow>
      once_inv (token_drawn g) (w_tick w) ?H view c"
    by blast+
  have eff: "w_ext (sv_world c') = w_ext (sv_world c)" "w_tick (sv_world c) \<le> w_tick (sv_world c')"
    using serve_world(2) [OF step.hyps(2) c(1)] by (simp_all add: run_effect_def)
  have "once_inv (token_drawn g) (w_tick w) ?H view c'"
    if "w_tick (sv_world c') \<le> K" and "new_hashes (token_drawn g) (w_ext w) (w_tick w) K ?H" for K
    by (rule serve_once [OF step.hyps(2) c(1) once]) (use that eff(2) in \<open>simp_all add: c(2)\<close>)
  with serve_ok [OF step.hyps(2) c(1)] c(2,3) eff show ?case by simp
qed

lemma serves_effect:
  assumes "(serve e)\<^sup>*\<^sup>* c c'" and "server_ok invar view c"
  shows "server_ok invar view c' \<and> run_effect view (sv_world c) (sv_world c')"
  using assms
  by (induction rule: rtranclp_induct) (auto intro: run_effect_refl serve_ok serve_world(2) run_effect_trans)

lemma serves_ok:
  assumes "(serve e)\<^sup>*\<^sup>* (idle w) c" and "run_ok invar view w"
  shows "server_ok invar view c" and "run_ok invar view (sv_world c)" and "run_effect view w (sv_world c)"
  using serves_effect [OF assms(1) server_ok_idle [OF assms(2)]] by (simp_all add: server_ok_def)

lemma exchanged_once:
  assumes "(serve e)\<^sup>*\<^sup>* (idle w) c" and "run_ok invar view w" and "distinct_hashes (v_sessions (view (w_db w)))"
    and "new_hashes (token_drawn g) (w_ext w) (w_tick w) (w_tick (sv_world c)) (hashes (v_sessions (view (w_db w))))"
  shows "distinct (succeeded c)"
  using serves [OF assms(1-3)] assms(4) unfolding once_inv_def by blast

end

end
