(* ===== verification/Memory_Engine.thy ===== *)
theory Memory_Engine
  imports Interleaving_Runs
begin

text \<open>
  The engine that \<open>New\<close> builds over the in-memory stores, with the console logger. Every contract is
  discharged on it: the interpretations \<open>mem\<close>, \<open>mem_email\<close> and \<open>mem_runs\<close> make the lemmas of the locales
  \<open>engine\<close>, \<open>email_change\<close> and \<open>engine_runs\<close> facts about it.
\<close>

section \<open>Construction\<close>

record EngineParams =
  ep_hasher :: BcryptHasher
  ep_gen :: CryptoRandTokenGenerator
  ep_jwt :: JWTIssuer
  ep_threshold :: int
  ep_duration :: Duration
  ep_provider :: "(nat \<Rightarrow> string \<Rightarrow> string \<Rightarrow> error option) option"

definition memory_engine :: "EngineParams \<Rightarrow> mem_world Engine" where
  "memory_engine p =
     \<lparr>en_users = mem_UserStore, en_sessions = mem_SessionStore, en_audit = mem_AuditStore,
      en_verifications = Some mem_VerificationStore,
      en_emailSender = map_option app_EmailSender (ep_provider p),
      en_hasher = BcryptHasher_Hasher (ep_hasher p), en_ids = UUIDv7Generator,
      en_rateLimiter = InMemoryRateLimiter_RateLimiter,
      en_refreshGen = CryptoRandTokenGenerator_TokenGenerator (ep_gen p), en_jwtIssuer = ep_jwt p,
      en_log = NewConsoleJSONLogger, en_lockoutThreshold = ep_threshold p,
      en_lockoutDuration = ep_duration p\<rparr>"

lemma memory_engine_simps [simp]:
  "en_users (memory_engine p) = mem_UserStore" "en_sessions (memory_engine p) = mem_SessionStore"
  "en_audit (memory_engine p) = mem_AuditStore"
  "en_verifications (memory_engine p) = Some mem_VerificationStore"
  "en_emailSender (memory_engine p) = map_option app_EmailSender (ep_provider p)"
  "en_hasher (memory_engine p) = BcryptHasher_Hasher (ep_hasher p)"
  "en_ids (memory_engine p) = UUIDv7Generator"
  "en_rateLimiter (memory_engine p) = InMemoryRateLimiter_RateLimiter"
  "en_refreshGen (memory_engine p) = CryptoRandTokenGenerator_TokenGenerator (ep_gen p)"
  "en_jwtIssuer (memory_engine p) = ep_jwt p" "en_log (memory_engine p) = NewConsoleJSONLogger"
  "en_lockoutThreshold (memory_engine p) = ep_threshold p"
  "en_lockoutDuration (memory_engine p) = ep_duration p"
  by (simp_all add: memory_engine_def)

text \<open>A configuration over the memory stores, with every knob set.\<close>

definition memory_config ::
  "string \<Rightarrow> Duration \<Rightarrow> int \<Rightarrow> int \<Rightarrow> int \<Rightarrow> Duration \<Rightarrow> int \<Rightarrow> Duration \<Rightarrow>
   (nat \<Rightarrow> string \<Rightarrow> string \<Rightarrow> error option) option \<Rightarrow> mem_world Config" where
  "memory_config secret ttl cost len attempts window threshold duration provider =
     \<lparr>cfg_JWTSecret = secret, cfg_Users = Some mem_UserStore, cfg_Sessions = Some mem_SessionStore,
      cfg_Audit = Some mem_AuditStore, cfg_Verifications = Some mem_VerificationStore,
      cfg_EmailSender = map_option app_EmailSender provider, cfg_AccessTokenTTL = ttl,
      cfg_BcryptCost = cost, cfg_RefreshTokenByteLength = len, cfg_RateLimitAttempts = attempts,
      cfg_RateLimitWindow = window, cfg_LockoutThreshold = threshold, cfg_LockoutDuration = duration,
      cfg_Logger = None\<rparr>"

section \<open>The contracts hold\<close>

interpretation mem: engine mem_inv mem_view "{}" id "memory_engine p" password_matches bcrypt_sound
  "bcrypt_fails (ep_hasher p)" ext_uuid_NewV7 "token_drawn (ep_gen p)" "{}"
  unfolding engine_def login_def signup_def accounts_def session_control_def rotation_def audit_log_def
  by (simp add: mem_us.user_store_axioms mem_ss.session_store_axioms mem_as.audit_store_axioms
      console.logger_axioms bcrypt.password_hasher_axioms uuids.string_source_axioms
      tokens.string_source_axioms window_limiter.rate_limiter_axioms)

interpretation mem_email: email_change mem_inv mem_view "{}" mem_UserStore id mem_VerificationStore
  mem_AuditStore NewConsoleJSONLogger "app_EmailSender provider" "provider_rejections provider" UUIDv7Generator ext_uuid_NewV7
  "CryptoRandTokenGenerator_TokenGenerator g" "token_drawn g"
  unfolding email_change_def audit_log_def
  by (simp add: mem_us.user_store_axioms mem_vs.verification_store_axioms mem_as.audit_store_axioms
      console.logger_axioms uuids.string_source_axioms tokens.string_source_axioms
      app_sender.email_sender_axioms)

section \<open>Runs over memory\<close>

abbreviation step :: "EngineParams \<Rightarrow> mem_world \<Rightarrow> mem_world \<Rightarrow> bool" where
  "step p \<equiv> call (memory_engine p)"

abbreviation steps :: "EngineParams \<Rightarrow> mem_world \<Rightarrow> mem_world \<Rightarrow> bool" where
  "steps p \<equiv> (step p)\<^sup>*\<^sup>*"

abbreviation db_of :: "mem_world \<Rightarrow> dbview" where
  "db_of w \<equiv> mem_view (w_db w)"

interpretation mem_runs: engine_runs mem_inv mem_view "{}" id "memory_engine p" password_matches bcrypt_sound
  "bcrypt_fails (ep_hasher p)" "ep_gen p" "{}"
proof (intro engine_runs.intro engine_runs_axioms.intro mem.engine_axioms)
  show "verification_store mem_inv mem_view {} vs id" if "en_verifications (memory_engine p) = Some vs" for vs
    using that mem_vs.verification_store_axioms by simp
  show "\<exists>R. email_sender sender R" if "en_emailSender (memory_engine p) = Some sender" for sender
    using that app_sender.email_sender_axioms by auto
qed simp

lemma run_ok_new: "unique_draws ext_uuid_NewV7 (w_ext w) \<Longrightarrow> w_db w = NewMemoryDB \<Longrightarrow> run_ok mem_inv mem_view w"
  by (rule run_ok_empty) (simp_all add: mem_inv_new mem_view_simps, simp_all add: NewMemoryDB_def)

lemma step_frame: "step p w w' \<Longrightarrow> mem_inv (w_db w) \<Longrightarrow> mem_inv (w_db w') \<and> w_ext w' = w_ext w"
  using mem_runs.call_has_effect unfolding call_effect_def by blast

end
