(* ===== verification/Postgres_Engine.thy ===== *)
theory Postgres_Engine
  imports Postgres_Contracts Memory_Engine
begin

text \<open>
  The engine that \<open>New\<close> builds over the Postgres stores. It differs from the one over memory in its
  stores only, and it keeps the same contracts, with the errors of the server as faults: the
  interpretations \<open>pg\<close>, \<open>pg_email\<close>, \<open>pg_runs\<close> and \<open>pg_guarded\<close>.
\<close>

definition postgres_engine :: "EngineParams \<Rightarrow> pg_world Engine" where
  "postgres_engine p =
     \<lparr>en_users = pg_UserStore, en_sessions = pg_SessionStore, en_audit = pg_AuditStore,
      en_verifications = Some pg_VerificationStore,
      en_emailSender = map_option app_EmailSender (ep_provider p),
      en_hasher = BcryptHasher_Hasher (ep_hasher p), en_ids = UUIDv7Generator,
      en_rateLimiter = InMemoryRateLimiter_RateLimiter,
      en_refreshGen = CryptoRandTokenGenerator_TokenGenerator (ep_gen p), en_jwtIssuer = ep_jwt p,
      en_log = NewConsoleJSONLogger, en_lockoutThreshold = ep_threshold p,
      en_lockoutDuration = ep_duration p\<rparr>"

lemma postgres_engine_simps [simp]:
  "en_users (postgres_engine p) = pg_UserStore" "en_sessions (postgres_engine p) = pg_SessionStore"
  "en_audit (postgres_engine p) = pg_AuditStore"
  "en_verifications (postgres_engine p) = Some pg_VerificationStore"
  "en_emailSender (postgres_engine p) = map_option app_EmailSender (ep_provider p)"
  "en_hasher (postgres_engine p) = BcryptHasher_Hasher (ep_hasher p)"
  "en_ids (postgres_engine p) = UUIDv7Generator"
  "en_rateLimiter (postgres_engine p) = InMemoryRateLimiter_RateLimiter"
  "en_refreshGen (postgres_engine p) = CryptoRandTokenGenerator_TokenGenerator (ep_gen p)"
  "en_jwtIssuer (postgres_engine p) = ep_jwt p" "en_log (postgres_engine p) = NewConsoleJSONLogger"
  "en_lockoutThreshold (postgres_engine p) = ep_threshold p"
  "en_lockoutDuration (postgres_engine p) = ep_duration p"
  by (simp_all add: postgres_engine_def)

section \<open>The contracts hold\<close>

interpretation pg: engine "pg_inv rnd" pg_view pg_faults rnd "postgres_engine p" password_matches bcrypt_sound
  "bcrypt_fails (ep_hasher p)" ext_uuid_NewV7 "token_drawn (ep_gen p)" "{}"
  unfolding engine_def login_def signup_def accounts_def session_control_def rotation_def audit_log_def
  by (simp add: pg_us.user_store_axioms pg_ss.session_store_axioms pg_as.audit_store_axioms
      console.logger_axioms bcrypt.password_hasher_axioms uuids.string_source_axioms
      tokens.string_source_axioms window_limiter.rate_limiter_axioms)

interpretation pg_email: email_change "pg_inv rnd" pg_view pg_faults pg_UserStore rnd pg_VerificationStore
  pg_AuditStore NewConsoleJSONLogger "app_EmailSender provider" "provider_rejections provider" UUIDv7Generator ext_uuid_NewV7
  "CryptoRandTokenGenerator_TokenGenerator g" "token_drawn g"
  unfolding email_change_def audit_log_def
  by (simp add: pg_us.user_store_axioms pg_vs.verification_store_axioms pg_as.audit_store_axioms
      console.logger_axioms uuids.string_source_axioms tokens.string_source_axioms
      app_sender.email_sender_axioms)

text \<open>The foreign key of \<open>sessions\<close> keeps the sessions of users that do not exist out.\<close>

lemma pg_owned:
  assumes "pg_inv rnd d"
  shows "owned (pg_view d)"
proof -
  have "dom (keyed u_ID (pg_users d)) = u_ID ` set (pg_users d)"
    using keyed_None [of u_ID "pg_users d"] by (auto simp: dom_def)
  with pg_invD(7) [OF assms] show ?thesis by (auto simp: owned_def dest!: keyed_key)
qed

interpretation pg_runs: engine_runs "pg_inv rnd" pg_view pg_faults rnd "postgres_engine p" password_matches bcrypt_sound
  "bcrypt_fails (ep_hasher p)" "ep_gen p" "{}"
proof (intro engine_runs.intro engine_runs_axioms.intro pg.engine_axioms)
  show "verification_store (pg_inv rnd) pg_view pg_faults vs rnd" if "en_verifications (postgres_engine p) = Some vs" for vs
    using that pg_vs.verification_store_axioms by simp
  show "\<exists>R. email_sender sender R" if "en_emailSender (postgres_engine p) = Some sender" for sender
    using that app_sender.email_sender_axioms by auto
qed (rule pg_owned)

interpretation pg_guarded: guarded_runs "pg_inv rnd" pg_view pg_faults rnd "postgres_engine p" password_matches bcrypt_sound
  "bcrypt_fails (ep_hasher p)" "ep_gen p" "{}"
proof (intro guarded_runs.intro guarded_runs_axioms.intro pg_runs.engine_runs_axioms)
  show "\<exists>s. v_sessions (pg_view (w_db w)) i = Some s \<and> active s"
    if "pg_inv rnd (w_db w)" "run_state (ss_RotateToken (en_sessions (postgres_engine p)) i n) w = (None, w')" for w w' i n
    using RotateToken_needs_active [OF that(1)] that(2) by (simp add: active_def pg_SessionStore_def)
qed (rule pg_owned)

end
