(* ===== verification/Smoketest.thy ===== *)
theory Smoketest
  imports Engine
begin

text \<open>
  \<open>cmd/smoketest/main.go\<close>: a run of the engine over fresh memory stores that prints a line per check and
  leaves with status 1 at the first check that fails. A program returns \<open>True\<close> for the end of \<open>main\<close> and
  \<open>False\<close> for \<open>os.Exit(1)\<close>; what comes after a check is its last argument.
\<close>

definition println :: "string \<Rightarrow> ('db world, unit) state" where
  "println line = State (\<lambda>w. ((), w\<lparr>w_stdout := w_stdout w @ [line]\<rparr>))"

definition os_Exit1 :: "string \<Rightarrow> ('db world, bool) state" where
  "os_Exit1 line = do { _ \<leftarrow> println line; State_Monad.return False }"

definition check :: "string \<Rightarrow> error option \<Rightarrow> ('db world, bool) state \<Rightarrow> ('db world, bool) state" where
  "check label err rest =
     (case err of
        Some err \<Rightarrow> os_Exit1 (''FAIL '' @ label @ '': '' @ error_Error err)
      | None \<Rightarrow> do { _ \<leftarrow> println (''OK   '' @ label); rest })"

text \<open>A call with a value: the check, and then the value is used.\<close>

definition checked :: "string \<Rightarrow> error + 'a \<Rightarrow> ('a \<Rightarrow> ('db world, bool) state) \<Rightarrow> ('db world, bool) state" where
  "checked label r rest =
     (case r of Inl err \<Rightarrow> check label (Some err) (State_Monad.return False) | Inr x \<Rightarrow> check label None (rest x))"

text \<open>The configuration: the memory stores and a secret, everything else at its default.\<close>

definition smoke_config :: "mem_world Config" where
  "smoke_config =
     \<lparr>cfg_JWTSecret = ''test-secret-do-not-use-in-prod'', cfg_Users = Some mem_UserStore,
      cfg_Sessions = Some mem_SessionStore, cfg_Audit = Some mem_AuditStore, cfg_Verifications = None,
      cfg_EmailSender = None, cfg_AccessTokenTTL = 0, cfg_BcryptCost = 0, cfg_RefreshTokenByteLength = 0,
      cfg_RateLimitAttempts = 0, cfg_RateLimitWindow = 0, cfg_LockoutThreshold = 0, cfg_LockoutDuration = 0,
      cfg_Logger = None\<rparr>"

abbreviation alice :: string where
  "alice \<equiv> ''alice@example.com''"

text \<open>The stretches of \<open>main\<close>, from the last to the first.\<close>

definition smoke_logout :: "mem_world Engine \<Rightarrow> User \<Rightarrow> (mem_world, bool) state" where
  "smoke_logout e user = do {
     tokens2 \<leftarrow> cryden_Login e alice ''SecurePass123!'' ''1.2.3.4'' ''test-agent'';
     checked ''second login'' tokens2 (\<lambda>_. do {
     sessionsBeforeLogout \<leftarrow> ListSessions e (u_ID user);
     checked ''list sessions before logout'' sessionsBeforeLogout (\<lambda>sessionsBeforeLogout.
     if length sessionsBeforeLogout \<noteq> 1
     then os_Exit1 (''FAIL expected 1 active session, got '' @ strconv_Itoa (int (length sessionsBeforeLogout)))
     else do {
       let sid = s_ID (sessionsBeforeLogout ! 0);
       err \<leftarrow> cryden_Logout e sid (u_ID user);
       check ''logout'' err (do {
       sessionsAfterLogout \<leftarrow> ListSessions e (u_ID user);
       checked ''list sessions after logout'' sessionsAfterLogout (\<lambda>sessionsAfterLogout.
       if length sessionsAfterLogout \<noteq> 0
       then os_Exit1 (''FAIL expected 0 active sessions after logout, got '' @
              strconv_Itoa (int (length sessionsAfterLogout)))
       else do {
         _ \<leftarrow> println ''OK   logout correctly revoked the session'';
         _ \<leftarrow> println [];
         _ \<leftarrow> println ''ALL CHECKS PASSED'';
         State_Monad.return True
       }) })
     }) })
   }"

definition smoke_reuse :: "mem_world Engine \<Rightarrow> User \<Rightarrow> Tokens \<Rightarrow> Tokens \<Rightarrow> (mem_world, bool) state" where
  "smoke_reuse e user tokens newTokens = do {
     reused \<leftarrow> RefreshToken e (tk_RefreshToken tokens);
     case reused of
       Inr _ \<Rightarrow> os_Exit1 ''FAIL reuse detection: expected error, got nil''
     | Inl err \<Rightarrow> do {
         _ \<leftarrow> println (''OK   reuse detection triggered: '' @ error_Error err);
         dead \<leftarrow> RefreshToken e (tk_RefreshToken newTokens);
         case dead of
           Inr _ \<Rightarrow> os_Exit1 ''FAIL family revocation: new token should also be dead after reuse detected''
         | Inl _ \<Rightarrow> do {
             _ \<leftarrow> println ''OK   entire session family correctly revoked after reuse detection'';
             sessions \<leftarrow> ListSessions e (u_ID user);
             checked ''list sessions'' sessions (\<lambda>sessions. do {
             _ \<leftarrow> println (''     active sessions: '' @ strconv_Itoa (int (length sessions)) @ '' (expected 0)'');
             smoke_logout e user })
           }
       }
   }"

definition smoke_refresh :: "mem_world Engine \<Rightarrow> User \<Rightarrow> Tokens \<Rightarrow> (mem_world, bool) state" where
  "smoke_refresh e user tokens = do {
     newTokens \<leftarrow> RefreshToken e (tk_RefreshToken tokens);
     checked ''refresh rotation'' newTokens (\<lambda>newTokens.
     if tk_RefreshToken newTokens = tk_RefreshToken tokens
     then os_Exit1 ''FAIL refresh rotation: token did not change''
     else do {
       _ \<leftarrow> println ''OK   refresh token rotated to a new value'';
       smoke_reuse e user tokens newTokens
     })
   }"

definition smoke_login :: "mem_world Engine \<Rightarrow> User \<Rightarrow> (mem_world, bool) state" where
  "smoke_login e user = do {
     tokens \<leftarrow> cryden_Login e alice ''SecurePass123!'' ''1.2.3.4'' ''test-agent'';
     checked ''login'' tokens (\<lambda>tokens. do {
     _ \<leftarrow> println (''     access token len: '' @ strconv_Itoa (int (length (tk_AccessToken tokens))) @
            '', refresh token len: '' @ strconv_Itoa (int (length (tk_RefreshToken tokens))));
     wrong \<leftarrow> cryden_Login e alice ''WrongPassword'' ''1.2.3.4'' ''test-agent'';
     case wrong of
       Inr _ \<Rightarrow> os_Exit1 ''FAIL wrong password: expected error, got nil''
     | Inl _ \<Rightarrow> do {
         _ \<leftarrow> println ''OK   wrong password correctly rejected'';
         userID \<leftarrow> VerifyToken e (tk_AccessToken tokens);
         checked ''verify token'' userID (\<lambda>userID.
         if userID \<noteq> u_ID user
         then os_Exit1 (''FAIL verify token: expected '' @ u_ID user @ '', got '' @ userID)
         else do {
           _ \<leftarrow> println ''OK   verified user id matches'';
           smoke_refresh e user tokens
         })
       } })
   }"

definition smoke_main :: "(mem_world, bool) state" where
  "smoke_main = do {
     e \<leftarrow> New smoke_config;
     checked ''engine construction'' e (\<lambda>e. do {
     user \<leftarrow> cryden_SignUp e alice ''SecurePass123!'' ''1.2.3.4'';
     checked ''signup'' user (\<lambda>user. do {
     _ \<leftarrow> println (''     user id: '' @ u_ID user);
     duplicate \<leftarrow> cryden_SignUp e alice ''SecurePass123!'' ''1.2.3.4'';
     case duplicate of
       Inr _ \<Rightarrow> os_Exit1 ''FAIL duplicate signup: expected error, got nil''
     | Inl _ \<Rightarrow> do {
         _ \<leftarrow> println ''OK   duplicate signup correctly rejected'';
         smoke_login e user
       } }) })
   }"

end
