(* ===== verification/Sample_World.thy ===== *)
theory Sample_World
  imports Postgres_Engine Smoketest
begin

text \<open>
  A concrete world, used to show that the hypotheses of the theorems can hold: a clock that advances by
  a second with every draw up to 1000 seconds, identifiers that are all different, a hash that keeps the password readable, and
  tokens signed by writing the subject down. Nothing here models the program.
\<close>

definition sample_ext :: externals where
  "sample_ext =
     \<lparr>ext_now = (\<lambda>k. int (min k 1000) * time_Second),
      ext_range = (\<lambda>k. []),
      ext_rand = (\<lambda>k. Inr (\<lambda>i. of_nat k)),
      ext_uuid_NewV7 = (\<lambda>k. Inr (replicate k (CHR ''u''))),
      ext_bcrypt_MinCost = 4,
      ext_bcrypt_MaxCost = 31,
      ext_bcrypt_GenerateFromPassword = (\<lambda>k pw cost. Inr (CHR ''$'' # pw)),
      ext_bcrypt_CompareHashAndPassword =
        (\<lambda>h pw. if h = CHR ''$'' # pw then None else Some (ExternalError ''mismatch'')),
      ext_jwt_NewNumericDate = (\<lambda>t. t div time_Second * time_Second),
      ext_jwt_SignedString = (\<lambda>m c key. Inr (jc_Subject c)),
      ext_jwt_ParseWithClaims = (\<lambda>now tok kf. Inl (ExternalError ''malformed''))\<rparr>"

lemma sample_ext_simps [simp]:
  "ext_now sample_ext k = int (min k 1000) * time_Second" "ext_range sample_ext k = []"
  "ext_rand sample_ext k = Inr (\<lambda>i. of_nat k)"
  "ext_uuid_NewV7 sample_ext k = Inr (replicate k (CHR ''u''))"
  "ext_bcrypt_MinCost sample_ext = 4" "ext_bcrypt_MaxCost sample_ext = 31"
  "ext_bcrypt_GenerateFromPassword sample_ext k pw cost = Inr (CHR ''$'' # pw)"
  "ext_bcrypt_CompareHashAndPassword sample_ext h pw =
     (if h = CHR ''$'' # pw then None else Some (ExternalError ''mismatch''))"
  "ext_jwt_NewNumericDate sample_ext t = t div time_Second * time_Second"
  "ext_jwt_SignedString sample_ext m c key = Inr (jc_Subject c)"
  by (simp_all add: sample_ext_def)

lemma sample_unique: "unique_draws ext_uuid_NewV7 sample_ext"
  unfolding unique_draws_def by (metis Inr_inject length_replicate sample_ext_simps(4))

lemma sample_matches [simp]: "password_matches sample_ext h pw \<longleftrightarrow> h = CHR ''$'' # pw"
  by (simp add: password_matches_def)

lemma sample_sound [simp]: "bcrypt_sound sample_ext"
  by (auto simp: bcrypt_sound_def)

definition sample_world :: "MemoryDB \<Rightarrow> mem_world" where
  "sample_world d =
     \<lparr>w_db = d, w_limiter = NewInMemoryRateLimiter 10 time_Minute, w_stdout = [], w_outbox = [],
      w_ext = sample_ext, w_tick = 1\<rparr>"

lemma sample_world_simps [simp]:
  "w_db (sample_world d) = d" "w_limiter (sample_world d) = NewInMemoryRateLimiter 10 time_Minute"
  "w_outbox (sample_world d) = []" "w_ext (sample_world d) = sample_ext" "w_tick (sample_world d) = 1"
  by (simp_all add: sample_world_def)

definition sample_params :: EngineParams where
  "sample_params =
     \<lparr>ep_hasher = \<lparr>bh_Cost = 10\<rparr>, ep_gen = \<lparr>cr_ByteLength = 16\<rparr>,
      ep_jwt = \<lparr>ji_secret = ''secret'', ji_ttl = 15 * time_Minute\<rparr>, ep_threshold = 5,
      ep_duration = 15 * time_Minute, ep_provider = Some (\<lambda>k to tok. None)\<rparr>"

lemma sample_params_simps [simp]:
  "ep_hasher sample_params = \<lparr>bh_Cost = 10\<rparr>" "ep_gen sample_params = \<lparr>cr_ByteLength = 16\<rparr>"
  "ep_jwt sample_params = \<lparr>ji_secret = ''secret'', ji_ttl = 15 * time_Minute\<rparr>"
  "ep_threshold sample_params = 5" "ep_duration sample_params = 15 * time_Minute"
  "ep_provider sample_params = Some (\<lambda>k to tok. None)"
  by (simp_all add: sample_params_def)

definition sample_user :: User where
  "sample_user = \<lparr>u_ID = ''u'', u_Email = ''ann@x.org'', u_PasswordHash = ''$pw'', u_FailedAttempts = 0,
     u_LockedUntil = None, u_CreatedAt = 0, u_UpdatedAt = 0\<rparr>"

definition sample_session :: "string \<Rightarrow> string \<Rightarrow> string \<Rightarrow> Time option \<Rightarrow> Session" where
  "sample_session i fam raw revoked = \<lparr>s_ID = i, s_FamilyID = fam, s_UserID = ''u'',
     s_TokenHash = HashToken raw, s_IP = ''10.0.0.1'', s_UserAgent = ''agent'', s_CreatedAt = 0,
     s_RevokedAt = revoked\<rparr>"

definition sample_store :: "User list \<Rightarrow> Session list \<Rightarrow> VerificationToken list \<Rightarrow> MemoryDB" where
  "sample_store us ss vs =
     \<lparr>md_users = map (\<lambda>u. (u_ID u, u)) us, md_sessions = map (\<lambda>s. (s_ID s, s)) ss,
      md_verifs = map (\<lambda>t. (vt_ID t, t)) vs, md_events = []\<rparr>"

abbreviation sample_db :: "Session list \<Rightarrow> MemoryDB" where
  "sample_db ss \<equiv> sample_store [sample_user] ss []"

lemma sample_store_inv [simp]:
  "distinct (map u_ID us) \<Longrightarrow> distinct (map s_ID ss) \<Longrightarrow> distinct (map vt_ID vs) \<Longrightarrow>
   mem_inv (sample_store us ss vs)"
  by (auto simp: mem_inv_def sample_store_def comp_def dest!: map_of_SomeD)

lemma sample_store_simps [simp]:
  "md_users (sample_store us ss vs) = map (\<lambda>u. (u_ID u, u)) us"
  "md_sessions (sample_store us ss vs) = map (\<lambda>s. (s_ID s, s)) ss"
  "md_verifs (sample_store us ss vs) = map (\<lambda>t. (vt_ID t, t)) vs" "md_events (sample_store us ss vs) = []"
  by (simp_all add: sample_store_def)

text \<open>From here on the view of a backend is kept folded.\<close>

declare mem_view_simps [simp del]

lemma sample_view_simps [simp]:
  "v_users (mem_view (sample_store us ss vs)) = map_of (map (\<lambda>u. (u_ID u, u)) us)"
  "v_sessions (mem_view (sample_store us ss vs)) = map_of (map (\<lambda>s. (s_ID s, s)) ss)"
  "v_verifs (mem_view (sample_store us ss vs)) = map_of (map (\<lambda>t. (vt_ID t, t)) vs)"
  "v_events (mem_view (sample_store us ss vs)) = []"
  by (simp_all add: mem_view_simps)

lemma sample_user_simps [simp]:
  "u_ID sample_user = ''u''" "u_Email sample_user = ''ann@x.org''" "u_PasswordHash sample_user = ''$pw''"
  "u_FailedAttempts sample_user = 0" "u_LockedUntil sample_user = None"
  by (simp_all add: sample_user_def)

lemma sample_session_simps [simp]:
  "s_ID (sample_session i f r t) = i" "s_FamilyID (sample_session i f r t) = f"
  "s_UserID (sample_session i f r t) = ''u''" "s_TokenHash (sample_session i f r t) = HashToken r"
  "s_RevokedAt (sample_session i f r t) = t"
  by (simp_all add: sample_session_def)

lemma sample_drawn:
  assumes "3 \<le> k"
  shows "drawn_between ext_uuid_NewV7 sample_ext 0 k ''u''" "drawn_between ext_uuid_NewV7 sample_ext 0 k ''uu''"
  unfolding drawn_between_def
  by (rule exI [of _ 1], use assms in simp) (rule exI [of _ 2], use assms in \<open>simp add: numeral_2_eq_2\<close>)

end
