(* ===== verification/Component_Properties.thy ===== *)
theory Component_Properties
  imports Sample_World
begin

text \<open>
  Properties of the parts of the engine taken alone: the rate limiter, the sources of tokens, the
  signed access tokens, the console logger, the audit store and the construction of an engine.
\<close>

section \<open>The rate limiter\<close>

text \<open>C35. Within one window a key gets exactly the configured number of calls: of the call that opens
  a window and any further calls up to its end, the first \<open>max 1 limit\<close> are let through and all the
  others are refused.\<close>

theorem limiter_window_exact:
  assumes "limiter_wf r" and "window_closed t0 r key" and "0 \<le> rl_window r"
    and "\<forall>t \<in> set ts. t \<le> t0 + rl_window r"
  shows "allowed_calls r (map (\<lambda>t. (t, key)) (t0 # ts)) key =
    min (1 + int (length ts)) (max 1 (rl_limit r))"
  using allowed_calls_window [OF assms] by (simp add: effective_limit_def)

theorem limiter_window_exact_witness:
  "allowed_calls (NewInMemoryRateLimiter 2 10) (map (\<lambda>t. (t, ''k'')) [5, 6, 7, 15]) ''k'' = 2"
  using limiter_window_exact [of "NewInMemoryRateLimiter 2 10" 5 "''k''" "[6, 7, 15]"]
  by (simp add: limiter_wf_new window_closed_def) (simp add: NewInMemoryRateLimiter_def)

text \<open>C36. Over any stretch of time as long as the window, however the calls and the windows fall, a key
  never gets more than twice the limit.\<close>

theorem limiter_interval_bound:
  assumes "limiter_wf r" and "\<forall>(t, k) \<in> set cs. s \<le> t \<and> t \<le> s + rl_window r"
  shows "allowed_calls r cs key \<le> 2 * max 1 (rl_limit r)"
  using allowed_calls_interval [OF assms] by (simp add: effective_limit_def)

theorem limiter_interval_bound_witness:
  "allowed_calls (NewInMemoryRateLimiter 1 10) [(0, ''k''), (9, ''a''), (10, ''k'')] ''k'' \<le> 2"
  using limiter_interval_bound [of "NewInMemoryRateLimiter 1 10" "[(0, ''k''), (9, ''a''), (10, ''k'')]" 0 "''k''"]
  by (simp add: limiter_wf_new) (simp add: NewInMemoryRateLimiter_def)

text \<open>Keys do not influence each other: what a key is granted over a history of calls is what it is
  granted when the calls for all other keys are left out.\<close>

theorem limiter_keys_independent:
  "allowed_calls r cs key = allowed_calls r (filter (\<lambda>(t, k). k = key) cs) key"
  by (rule allowed_calls_local) simp_all

text \<open>No history of calls drives a counter of a fresh limiter out of the range from 1 to
  \<open>max 1 limit\<close>, so the machine integer \<open>count\<close> never wraps around.\<close>

theorem limiter_counters_bounded:
  assumes "limit < 2 ^ 63"
    and "map_of (rl_counters (after_calls (NewInMemoryRateLimiter limit window) cs)) key = Some c"
  shows "1 \<le> wc_count c \<and> wc_count c \<le> max 1 limit \<and> wrap64 (wc_count c) = wc_count c"
proof -
  have "limiter_wf (after_calls (NewInMemoryRateLimiter limit window) cs)"
    using limiter_wf_new [OF assms(1)] by (rule after_calls_wf)
  from limiter_wfD [OF this assms(2)] have "1 \<le> wc_count c" "wc_count c \<le> max 1 limit"
    by (simp_all add: effective_limit_def NewInMemoryRateLimiter_def)
  with assms(1) show ?thesis by (auto intro!: wrap64_id)
qed

theorem limiter_counters_bounded_witness:
  "wc_count \<lparr>wc_count = 2, wc_windowEnd = 15\<rparr> \<le> max 1 2"
proof -
  have "map_of (rl_counters (after_calls (NewInMemoryRateLimiter 2 10) [(5, ''k''), (6, ''k''), (7, ''k'')])) ''k'' =
      Some \<lparr>wc_count = 2, wc_windowEnd = 15\<rparr>"
    by (simp add: NewInMemoryRateLimiter_def Allow_at_def)
  from limiter_counters_bounded [OF _ this] show ?thesis by simp
qed

section \<open>Tokens\<close>

text \<open>C37. A generator that the constructor accepts hands out lower-case hexadecimal tokens of at least 32
  digits, two for each random byte; the constructor refuses every length below 16 bytes.\<close>

theorem refresh_token_shape:
  assumes "NewCryptoRandTokenGenerator n = Inr g" and "run_state (CryptoRandTokenGenerator_New g) w = (Inr tok, w')"
  shows "int (length tok) = 2 * n \<and> 32 \<le> length tok \<and> set tok \<subseteq> set ''0123456789abcdef''"
proof -
  from assms(1) have g: "16 \<le> n" "cr_ByteLength g = n"
    by (auto simp: NewCryptoRandTokenGenerator_def split: if_splits)
  with CryptoRandTokenGenerator_New_shape [OF assms(2)] have "int (length tok) = 2 * n" "set tok \<subseteq> set hextable"
    by simp_all
  with g show ?thesis by (simp add: hextable_def)
qed

theorem refresh_token_shape_witness:
  "\<exists>tok. run_state (CryptoRandTokenGenerator_New \<lparr>cr_ByteLength = 16\<rparr>) (sample_world NewMemoryDB) =
      (Inr tok, (sample_world NewMemoryDB)\<lparr>w_tick := 2\<rparr>) \<and> length tok = 32"
proof -
  have run: "run_state (CryptoRandTokenGenerator_New \<lparr>cr_ByteLength = 16\<rparr>) (sample_world NewMemoryDB) =
      (Inr (hex_EncodeToString (map (\<lambda>i. 1) [0..<16])), (sample_world NewMemoryDB)\<lparr>w_tick := 2\<rparr>)"
    by (simp add: run_CryptoRandTokenGenerator_New token_drawn_def)
  have "NewCryptoRandTokenGenerator 16 = Inr \<lparr>cr_ByteLength = 16\<rparr>"
    by (simp add: NewCryptoRandTokenGenerator_def)
  from refresh_token_shape [OF this run] run show ?thesis by simp
qed

text \<open>C38. \<open>HashToken\<close> yields 64 hexadecimal digits for every token, agrees with the published test vector
  of SHA-256, and keeps apart exactly the tokens whose digests differ.\<close>

theorem HashToken_behaviour:
  "length (HashToken raw) = 64 \<and> set (HashToken raw) \<subseteq> set hextable \<and>
   HashToken ''abc'' = ''ba7816bf8f01cfea414140de5dae2223b00361a396177a9cb410ff61f20015ad'' \<and>
   (HashToken raw = HashToken raw' \<longleftrightarrow> sha256_Sum256 (string_bytes raw) = sha256_Sum256 (string_bytes raw'))"
proof -
  have "string_bytes ''abc'' = [0x61, 0x62, 0x63]" by (simp add: string_bytes_def)
  then have "HashToken ''abc'' = hex_EncodeToString (sha256_Sum256 [0x61, 0x62, 0x63])"
    by (simp add: HashToken_def)
  then show ?thesis
    using HashToken_digits HashToken_eq_iff by (simp add: sha256_abc)
qed

section \<open>Access tokens\<close>

text \<open>
  A signer for the witnesses: it knows one set of claims, one key and one token, and checks the
  expiry and the key function as the package documents.
\<close>

definition sample_claims :: RegisteredClaims where
  "sample_claims = \<lparr>jc_Subject = ''u'', jc_IssuedAt = Some time_Second, jc_ExpiresAt = Some (11 * time_Second)\<rparr>"

definition sample_jwt_ext :: externals where
  "sample_jwt_ext = sample_ext
     \<lparr>ext_jwt_SignedString := (\<lambda>m c key.
        if m = SigningMethodHS256 \<and> c = sample_claims \<and> key = ''secret'' then Inr ''jwt''
        else Inl (ExternalError ''unknown'')),
      ext_jwt_ParseWithClaims := (\<lambda>now tok kf.
        if tok \<noteq> ''jwt'' \<or> \<not> not_expired sample_claims now then Inl (ExternalError ''invalid'')
        else (case kf \<lparr>jt_Method = SigningMethodHS256, jt_Claims = sample_claims, jt_Valid = False\<rparr> of
                Inl e \<Rightarrow> Inl e
              | Inr key \<Rightarrow>
                  if key = ''secret''
                  then Inr \<lparr>jt_Method = SigningMethodHS256, jt_Claims = sample_claims, jt_Valid = True\<rparr>
                  else Inl (ExternalError ''signature'')))\<rparr>"

lemma sample_jwt_laws:
  "jwt_roundtrip sample_jwt_ext" "jwt_checks_expiry sample_jwt_ext" "jwt_asks_key sample_jwt_ext"
  "jwt_truncates sample_jwt_ext"
  by (auto simp: jwt_roundtrip_def jwt_checks_expiry_def jwt_asks_key_def jwt_truncates_def sample_jwt_ext_def
      split: if_splits sum.splits)

definition sample_jwt_world :: "nat \<Rightarrow> mem_world" where
  "sample_jwt_world k = (sample_world NewMemoryDB)\<lparr>w_ext := sample_jwt_ext, w_tick := k\<rparr>"

definition sample_issuer :: JWTIssuer where
  "sample_issuer = \<lparr>ji_secret = ''secret'', ji_ttl = 10 * time_Second\<rparr>"

lemma sample_issue:
  "run_state (JWTIssuer_Issue sample_issuer ''u'') (sample_jwt_world 1) = (Inr ''jwt'', sample_jwt_world 2)"
  by (simp add: run_JWTIssuer_Issue sample_jwt_world_def sample_jwt_ext_def sample_issuer_def sample_claims_def
      access_claims_def time_Second_def)

lemma truncated_le: "jwt_truncates x \<Longrightarrow> ext_jwt_NewNumericDate x t \<le> t"
  using div_mult_mod_eq [of t time_Second] pos_mod_sign [of time_Second t] by (simp add: jwt_truncates_def time_Second_def)

lemma drawn_token_shape:
  assumes "drawn_between (token_drawn g) x k k' tok" and "16 \<le> cr_ByteLength g"
  shows "32 \<le> length tok \<and> set tok \<subseteq> set ''0123456789abcdef''"
proof -
  from assms(1) obtain i where "token_drawn g x i = Inr tok" by (auto simp: drawn_between_def)
  with CryptoRandTokenGenerator_New_shape [of g "(sample_world NewMemoryDB)\<lparr>w_ext := x, w_tick := i\<rparr>" tok] assms(2)
  have "int (length tok) = 2 * cr_ByteLength g" "set tok \<subseteq> set hextable" by (simp_all add: run_CryptoRandTokenGenerator_New)
  with assms(2) show ?thesis by (simp add: hextable_def)
qed

text \<open>C33. An access token the engine issued for a user identifier of ASCII characters is accepted, by an engine with the same secret, until the
  second in which its lifetime ends, and yields the user it was issued for; from the end of its lifetime on it is
  refused.\<close>

theorem access_token_roundtrip:
  assumes "jwt_roundtrip (w_ext w)" and "jwt_checks_expiry (w_ext w)" and "jwt_truncates (w_ext w)"
    and "run_state (JWTIssuer_Issue j userID) w = (Inr tok, w1)" and "w_ext w2 = w_ext w"
  shows "(ascii userID \<longrightarrow> ext_now (w_ext w) (w_tick w2) \<le> ext_now (w_ext w) (w_tick w) + ji_ttl j - time_Second \<longrightarrow>
      fst (run_state (JWTIssuer_Verify j tok) w2) = Inr userID) \<and>
    (ext_now (w_ext w) (w_tick w) + ji_ttl j \<le> ext_now (w_ext w) (w_tick w2) \<longrightarrow>
      fst (run_state (JWTIssuer_Verify j tok) w2) = Inl ErrInvalidAccessToken)"
proof (intro conjI impI)
  assume "ascii userID" "ext_now (w_ext w) (w_tick w2) \<le> ext_now (w_ext w) (w_tick w) + ji_ttl j - time_Second"
  then show "fst (run_state (JWTIssuer_Verify j tok) w2) = Inr userID"
    by (intro JWTIssuer_Verify_issued [OF assms(4,5,1,3)] expiry_truncated [OF assms(3)])
next
  assume "ext_now (w_ext w) (w_tick w) + ji_ttl j \<le> ext_now (w_ext w) (w_tick w2)"
  with truncated_le [OF assms(3)] have
    "ext_jwt_NewNumericDate (w_ext w) (ext_now (w_ext w) (w_tick w) + ji_ttl j) \<le> ext_now (w_ext w) (w_tick w2)"
    by (rule order_trans)
  then show "fst (run_state (JWTIssuer_Verify j tok) w2) = Inl ErrInvalidAccessToken"
    by (rule JWTIssuer_Verify_expired [OF assms(4,5,2)])
qed

theorem access_token_roundtrip_witness:
  "fst (run_state (JWTIssuer_Verify sample_issuer ''jwt'') (sample_jwt_world 5)) = Inr ''u'' \<and>
   fst (run_state (JWTIssuer_Verify sample_issuer ''jwt'') (sample_jwt_world 11)) = Inl ErrInvalidAccessToken"
  using access_token_roundtrip [OF _ _ _ sample_issue, of "sample_jwt_world 5"]
    access_token_roundtrip [OF _ _ _ sample_issue, of "sample_jwt_world 11"] sample_jwt_laws
  by (simp add: ascii_def sample_jwt_world_def sample_jwt_ext_def sample_issuer_def time_Second_def)

text \<open>C34. Whatever string is presented, a token is accepted only when its header names a method of the
  HMAC family: unsigned tokens and tokens signed with another family are refused. The accepted user is
  the subject of the parsed token.\<close>

theorem access_token_hmac_only:
  assumes "jwt_asks_key (w_ext w)" and "fst (run_state (JWTIssuer_Verify j tok) w) = Inr userID"
  shows "\<exists>t n. ext_jwt_ParseWithClaims (w_ext w) (ext_now (w_ext w) (w_tick w)) tok (JWTIssuer_keyfunc j) = Inr t \<and>
    jt_Method t = SigningMethodHMAC n \<and> jc_Subject (jt_Claims t) = userID"
  using assms by (rule JWTIssuer_Verify_hmac_only)

lemma sample_verify:
  "fst (run_state (JWTIssuer_Verify sample_issuer ''jwt'') (sample_jwt_world 5)) = Inr ''u''"
  by (simp add: run_JWTIssuer_Verify sample_jwt_world_def sample_jwt_ext_def sample_issuer_def time_Second_def
      sample_claims_def not_expired_def JWTIssuer_keyfunc_def)

theorem access_token_hmac_only_witness:
  "\<exists>t n. ext_jwt_ParseWithClaims sample_jwt_ext (5 * time_Second) ''jwt'' (JWTIssuer_keyfunc sample_issuer) = Inr t \<and>
    jt_Method t = SigningMethodHMAC n \<and> jc_Subject (jt_Claims t) = ''u''"
  using access_token_hmac_only [OF _ sample_verify] sample_jwt_laws(3)
  by (simp add: sample_jwt_world_def) (simp add: sample_jwt_ext_def)

section \<open>The console logger\<close>

text \<open>C39. A call of the console logger writes exactly one line: whatever bytes the message and the fields
  contain, the text before the final newline has no control character, so no caller can forge a second
  log line; and the call changes nothing else but the clock.\<close>

theorem console_writes_one_line:
  "\<exists>line. run_state (ConsoleJSONLogger_write level msg flds) w =
     ((), w\<lparr>w_tick := Suc (w_tick w), w_stdout := w_stdout w @ [line @ [CHR 0x0A]]\<rparr>) \<and>
     (\<forall>c \<in> set line. 32 \<le> byte_of c)"
proof -
  let ?l = "\<lparr>ll_Level = level, ll_Message = msg, ll_Fields = flds,
    ll_Timestamp = format_RFC3339 (ext_now (w_ext w) (w_tick w))\<rparr>"
  obtain b where b: "json_Marshal_logLine ?l = Inr b"
    by (simp add: json_Marshal_logLine_def)
  with printable_Marshal have "\<forall>c \<in> set b. 32 \<le> byte_of c"
    by (simp add: printable_def)
  with b show ?thesis by (auto simp: run_ConsoleJSONLogger_write)
qed

theorem console_writes_one_line_witness:
  "\<exists>line. run_state (ConsoleJSONLogger_write ''info'' [CHR 0x0A] []) (sample_world NewMemoryDB) =
     ((), (sample_world NewMemoryDB)\<lparr>w_tick := 2, w_stdout := [line @ [CHR 0x0A]]\<rparr>) \<and> CHR 0x0A \<notin> set line"
proof -
  obtain line where line: "run_state (ConsoleJSONLogger_write ''info'' [CHR 0x0A] []) (sample_world NewMemoryDB) =
      ((), (sample_world NewMemoryDB)\<lparr>w_tick := 2, w_stdout := [line @ [CHR 0x0A]]\<rparr>)"
    and "\<forall>c \<in> set line. 32 \<le> byte_of c"
    using console_writes_one_line [of "''info''" "[CHR 0x0A]" "[]" "sample_world NewMemoryDB"]
    by (auto simp: sample_world_def)
  then have "CHR 0x0A \<notin> set line" by force
  with line show ?thesis by blast
qed

section \<open>The audit store\<close>

text \<open>The loop of the in-memory \<open>ListByUser\<close> returns the user's events newest first, cut to the limit
  (none for a limit that is not positive), and leaves the store as it is.\<close>

theorem audit_list_newest_first:
  "run_state (mem_AuditStore_ListByUser userID limit) w =
     (Inr (take (nat limit) (rev (filter (\<lambda>e. ev_UserID e = userID) (md_events (w_db w))))), w)"
  by (simp add: mem_AuditStore_ListByUser_def audit_scan_eq rev_filter)

section \<open>Construction of an engine\<close>

lemmas New_unfold = New_def Config_validate_def Config_applyDefaults_def or_default_def NewBcryptHasher_def
  NewCryptoRandTokenGenerator_def NewJWTIssuer_def Let_def install_limiter_def

text \<open>C40. Which configurations \<open>New\<close> accepts, and what it makes of them. A value of zero, and only zero, stands for the
  default: 15 minutes for the lifetime of access tokens, cost 10, 32 bytes, 10 attempts a minute, 5 failures, 15
  minutes of lockout. A configuration is accepted exactly when it has a secret and the three stores, and its cost is in
  the range of the bcrypt package, its token length at least 16 bytes and its lifetime positive. A refused one changes
  nothing and is answered with its first defect, in this order; an accepted one gives an engine that is wired to the
  stores, the logger and the values of the configuration, with an empty limiter.\<close>

theorem New_decides:
  assumes "run_state (New c) w = (r, w')"
  shows "let ttl = (if cfg_AccessTokenTTL c = 0 then 15 * time_Minute else cfg_AccessTokenTTL c);
      cost = (if cfg_BcryptCost c = 0 then 10 else cfg_BcryptCost c);
      len = (if cfg_RefreshTokenByteLength c = 0 then 32 else cfg_RefreshTokenByteLength c)
    in ((\<exists>e. r = Inr e) \<longleftrightarrow> cfg_JWTSecret c \<noteq> [] \<and> cfg_Users c \<noteq> None \<and> cfg_Sessions c \<noteq> None \<and> cfg_Audit c \<noteq> None \<and>
         ext_bcrypt_MinCost (w_ext w) \<le> cost \<and> cost \<le> ext_bcrypt_MaxCost (w_ext w) \<and> 16 \<le> len \<and> 0 < ttl) \<and>
       (\<forall>err. r = Inl err \<longrightarrow> w' = w \<and> err =
         (if cfg_JWTSecret c = [] then ErrMissingJWTSecret else if cfg_Users c = None then ErrMissingUserStore
          else if cfg_Sessions c = None then ErrMissingSessionStore else if cfg_Audit c = None then ErrMissingAuditStore
          else if cost < ext_bcrypt_MinCost (w_ext w) \<or> ext_bcrypt_MaxCost (w_ext w) < cost then ErrInvalidBcryptCost
          else if len < 16 then ErrTokenByteLengthTooShort else ErrInvalidTTL)) \<and>
       (\<forall>e. r = Inr e \<longrightarrow> cfg_Users c = Some (en_users e) \<and> cfg_Sessions c = Some (en_sessions e) \<and> cfg_Audit c = Some (en_audit e) \<and>
          en_verifications e = cfg_Verifications c \<and> en_emailSender e = cfg_EmailSender c \<and> en_hasher e = BcryptHasher_Hasher \<lparr>bh_Cost = cost\<rparr> \<and>
          en_ids e = UUIDv7Generator \<and> en_rateLimiter e = InMemoryRateLimiter_RateLimiter \<and>
          en_refreshGen e = CryptoRandTokenGenerator_TokenGenerator \<lparr>cr_ByteLength = len\<rparr> \<and>
          en_jwtIssuer e = \<lparr>ji_secret = cfg_JWTSecret c, ji_ttl = ttl\<rparr> \<and>
          en_log e = (case cfg_Logger c of None \<Rightarrow> NewConsoleJSONLogger | Some l \<Rightarrow> l) \<and>
          en_lockoutThreshold e = (if cfg_LockoutThreshold c = 0 then 5 else cfg_LockoutThreshold c) \<and>
          en_lockoutDuration e = (if cfg_LockoutDuration c = 0 then 15 * time_Minute else cfg_LockoutDuration c) \<and>
          w' = w\<lparr>w_limiter := NewInMemoryRateLimiter (if cfg_RateLimitAttempts c = 0 then 10 else cfg_RateLimitAttempts c)
            (if cfg_RateLimitWindow c = 0 then time_Minute else cfg_RateLimitWindow c)\<rparr>)"
proof (cases "cfg_JWTSecret c = [] \<or> cfg_Users c = None \<or> cfg_Sessions c = None \<or> cfg_Audit c = None")
  case True
  with assms have "w' = w" "r = Inl (if cfg_JWTSecret c = [] then ErrMissingJWTSecret else if cfg_Users c = None then ErrMissingUserStore
      else if cfg_Sessions c = None then ErrMissingSessionStore else ErrMissingAuditStore)"
    by (auto simp: New_def Config_validate_def split: if_splits)
  with True show ?thesis unfolding Let_def by (intro conjI allI impI) (simp_all, auto)
next
  case False
  then obtain us ss au where cfg: "cfg_JWTSecret c \<noteq> []" "cfg_Users c = Some us" "cfg_Sessions c = Some ss" "cfg_Audit c = Some au" by auto
  define ttl where "ttl = (if cfg_AccessTokenTTL c = 0 then 15 * time_Minute else cfg_AccessTokenTTL c)"
  define cost where "cost = (if cfg_BcryptCost c = 0 then 10 else cfg_BcryptCost c)"
  define len where "len = (if cfg_RefreshTokenByteLength c = 0 then 32 else cfg_RefreshTokenByteLength c)"
  note defaults = ttl_def [symmetric] cost_def [symmetric] len_def [symmetric]
  consider (cost) "cost < ext_bcrypt_MinCost (w_ext w) \<or> ext_bcrypt_MaxCost (w_ext w) < cost"
    | (len) "\<not> (cost < ext_bcrypt_MinCost (w_ext w) \<or> ext_bcrypt_MaxCost (w_ext w) < cost)" "len < 16"
    | (ttl) "\<not> (cost < ext_bcrypt_MinCost (w_ext w) \<or> ext_bcrypt_MaxCost (w_ext w) < cost)" "\<not> len < 16" "ttl \<le> 0"
    | (ok) "\<not> (cost < ext_bcrypt_MinCost (w_ext w) \<or> ext_bcrypt_MaxCost (w_ext w) < cost)" "\<not> len < 16" "\<not> ttl \<le> 0"
    by blast
  then show ?thesis
  proof cases
    case cost
    with assms cfg have "r = Inl ErrInvalidBcryptCost" "w' = w" by (auto simp: New_unfold defaults)
    with cost cfg show ?thesis unfolding Let_def defaults by auto
  next
    case len
    with assms cfg have "r = Inl ErrTokenByteLengthTooShort" "w' = w" by (auto simp: New_unfold defaults)
    with len cfg show ?thesis unfolding Let_def defaults by auto
  next
    case ttl
    with assms cfg have "r = Inl ErrInvalidTTL" "w' = w" by (auto simp: New_unfold defaults)
    with ttl cfg show ?thesis unfolding Let_def defaults by auto
  next
    case ok
    with assms cfg show ?thesis
      unfolding Let_def defaults by (auto simp: New_unfold defaults split: option.splits)
  qed
qed

theorem New_decides_witness:
  "(\<exists>e w'. run_state (New (memory_config ''secret'' 0 0 0 0 0 0 0 None)) (sample_world NewMemoryDB) = (Inr e, w') \<and>
     en_jwtIssuer e = \<lparr>ji_secret = ''secret'', ji_ttl = 15 * time_Minute\<rparr> \<and> en_lockoutThreshold e = 5) \<and>
   run_state (New (memory_config ''secret'' (- 1) 0 0 0 0 0 0 None)) (sample_world NewMemoryDB) = (Inl ErrInvalidTTL, sample_world NewMemoryDB)"
proof -
  obtain r w' where ok: "run_state (New (memory_config ''secret'' 0 0 0 0 0 0 0 None)) (sample_world NewMemoryDB) = (r, w')" by fastforce
  obtain r2 w2 where bad: "run_state (New (memory_config ''secret'' (- 1) 0 0 0 0 0 0 None)) (sample_world NewMemoryDB) = (r2, w2)" by fastforce
  from New_decides [OF ok] have e: "\<exists>e. r = Inr e \<and> en_jwtIssuer e = \<lparr>ji_secret = ''secret'', ji_ttl = 15 * time_Minute\<rparr> \<and> en_lockoutThreshold e = 5"
    by (auto simp: memory_config_def time_Minute_def time_Second_def)
  from New_decides [OF bad] have "r2 = Inl ErrInvalidTTL \<and> w2 = sample_world NewMemoryDB"
    by (cases r2) (simp_all add: memory_config_def)
  with ok bad e show ?thesis by auto
qed

text \<open>Over the memory stores an accepted configuration gives the engine of the other theories, within the limits.\<close>

lemma New_memory_engine:
  assumes "run_state (New (memory_config secret ttl cost len attempts window threshold duration provider)) w = (Inr e, w')"
  obtains p where "e = memory_engine p" "ep_jwt p = \<lparr>ji_secret = secret, ji_ttl = (if ttl = 0 then 15 * time_Minute else ttl)\<rparr>"
    "16 \<le> cr_ByteLength (ep_gen p)"
proof -
  let ?p = "\<lparr>ep_hasher = \<lparr>bh_Cost = or_default 10 cost\<rparr>, ep_gen = \<lparr>cr_ByteLength = or_default 32 len\<rparr>,
    ep_jwt = \<lparr>ji_secret = secret, ji_ttl = or_default (15 * time_Minute) ttl\<rparr>, ep_threshold = or_default 5 threshold,
    ep_duration = or_default (15 * time_Minute) duration, ep_provider = provider\<rparr>"
  from assms have "e = memory_engine ?p" "16 \<le> or_default 32 len"
    by (auto simp: New_def Config_validate_def memory_config_def Config_applyDefaults_def NewBcryptHasher_def
        NewCryptoRandTokenGenerator_def NewJWTIssuer_def Let_def memory_engine_def install_limiter_def split: if_splits)
  then show thesis by (intro that [of ?p]) (simp_all add: or_default_def)
qed

end
