(* ===== verification/Auth_Properties.thy ===== *)
theory Auth_Properties
  imports Sample_World
begin

text \<open>
  Properties of the public functions of the engine over the memory stores, one call or a few calls at
  a time. They are read off the contracts of \<open>Engine\<close> through the interpretations \<open>mem\<close> and \<open>mem_email\<close>.
\<close>

section \<open>Reading the promises without faults\<close>

lemma audited_no_faults:
  "audited {} e v v' \<longleftrightarrow> (\<exists>i t. v' = v\<lparr>v_events := v_events v @ [e\<lparr>ev_ID := i, ev_CreatedAt := t\<rparr>]\<rparr>)"
  by (simp add: audited_def)

text \<open>A recorded event, up to the identifier and the time the store gives it.\<close>

definition recorded :: "AuditEvent \<Rightarrow> AuditEvent list \<Rightarrow> AuditEvent list \<Rightarrow> bool" where
  "recorded e es es' \<longleftrightarrow> (\<exists>i t. es' = es @ [e\<lparr>ev_ID := i, ev_CreatedAt := t\<rparr>])"

lemma audited_recorded:
  "audited {} e v v' \<Longrightarrow> recorded e (v_events v) (v_events v') \<and> v_users v' = v_users v \<and>
     v_sessions v' = v_sessions v \<and> v_verifs v' = v_verifs v"
  unfolding audited_no_faults recorded_def by (elim exE) (simp, blast)

definition limiter_allows :: "mem_world \<Rightarrow> string \<Rightarrow> bool" where
  "limiter_allows w key = fst (Allow_at (ext_now (w_ext w) (w_tick w)) (w_limiter w) key)"

text \<open>The world after the limiter has been asked.\<close>

definition after_limiter :: "mem_world \<Rightarrow> string \<Rightarrow> mem_world" where
  "after_limiter w key = w\<lparr>w_tick := Suc (w_tick w),
     w_limiter := snd (Allow_at (ext_now (w_ext w) (w_tick w)) (w_limiter w) key)\<rparr>"

lemma after_limiter_simps [simp]:
  "w_db (after_limiter w key) = w_db w" "w_ext (after_limiter w key) = w_ext w"
  "w_tick (after_limiter w key) = Suc (w_tick w)"
  by (simp_all add: after_limiter_def)

lemma limiter_verdict:
  "run_state (lm_Allow (en_rateLimiter (memory_engine p)) key) w = (Inr (limiter_allows w key), after_limiter w key)"
  by (simp add: run_InMemoryRateLimiter_Allow Let_def limiter_allows_def after_limiter_def)

text \<open>
  The sources the engine draws from do not fail. Whether bcrypt takes a password is a separate matter: the package
  refuses a password of more than 72 bytes.
\<close>

definition sources_work :: "EngineParams \<Rightarrow> externals \<Rightarrow> bool" where
  "sources_work p x \<longleftrightarrow>
     (\<forall>k. \<exists>s. ext_uuid_NewV7 x k = Inr s) \<and> (\<forall>k. \<exists>f. ext_rand x k = Inr f) \<and>
     (\<forall>u n. \<exists>s. ext_jwt_SignedString x SigningMethodHS256 (access_claims x (ep_jwt p) u (ext_now x n))
        (ji_secret (ep_jwt p)) = Inr s)"

definition bcrypt_takes :: "EngineParams \<Rightarrow> externals \<Rightarrow> string \<Rightarrow> bool" where
  "bcrypt_takes p x pw \<longleftrightarrow> (\<forall>k. \<exists>h. ext_bcrypt_GenerateFromPassword x k pw (bh_Cost (ep_hasher p)) = Inr h)"

lemma bcrypt_takesD: "bcrypt_takes p x pw \<Longrightarrow> \<not> bcrypt_fails (ep_hasher p) x pw e"
  unfolding bcrypt_takes_def bcrypt_fails_def by (metis Inl_Inr_False)

lemma sources_workD:
  assumes "sources_work p x"
  shows "\<not> failed_between ext_uuid_NewV7 x k k' e" "\<not> failed_between (token_drawn (ep_gen p)) x k k' e"
    "ext_jwt_SignedString x SigningMethodHS256 (access_claims x (ep_jwt p) u (ext_now x n)) (ji_secret (ep_jwt p)) \<noteq> Inl e"
proof -
  from assms have fails: "ext_uuid_NewV7 x n \<noteq> Inl e" "ext_rand x n \<noteq> Inl e" for n
    unfolding sources_work_def by (metis Inl_Inr_False)+
  show "\<not> failed_between ext_uuid_NewV7 x k k' e"
    using fails by (auto simp: failed_between_def)
  have "token_drawn (ep_gen p) x n \<noteq> Inl e" for n
    using fails(2) [of n] by (cases "ext_rand x n") (auto simp: token_drawn_def)
  then show "\<not> failed_between (token_drawn (ep_gen p)) x k k' e" by (auto simp: failed_between_def)
  show "ext_jwt_SignedString x SigningMethodHS256 (access_claims x (ep_jwt p) u (ext_now x n)) (ji_secret (ep_jwt p)) \<noteq> Inl e"
    using assms unfolding sources_work_def by (metis Inl_Inr_False)
qed

lemma sample_sources_work [simp]: "sources_work sample_params sample_ext"
  by (simp add: sources_work_def)

lemma sample_bcrypt_takes [simp]: "bcrypt_takes sample_params sample_ext pw"
  by (simp add: bcrypt_takes_def)

lemma sample_email_taken [simp]:
  "email_taken (mem_view (sample_store us ss vs)) email \<longleftrightarrow> (\<exists>u \<in> set us. u_Email u = email)"
  if "distinct (map u_ID us)"
proof -
  have "distinct (map fst (map (\<lambda>u. (u_ID u, u)) us))" using that by (simp add: comp_def)
  then have "map_of (map (\<lambda>u. (u_ID u, u)) us) i = Some u \<longleftrightarrow> u \<in> set us \<and> i = u_ID u" for i u
    by (auto simp: map_of_eq_Some_iff)
  then show ?thesis by (auto simp: email_taken_def)
qed

lemma sample_allows [simp]: "limiter_allows (sample_world d) key"
  by (simp add: limiter_allows_def NewInMemoryRateLimiter_def Allow_at_def)

section \<open>Signing up\<close>

lemma signup_checked_run:
  assumes "mem_inv (w_db w)" and "limiter_allows w (''signup:'' @ ip)"
    and "run_state (cryden_SignUp (memory_engine p) email pw ip) w = (r, w')"
  shows "signup_checked_spec {} password_matches bcrypt_sound (bcrypt_fails (ep_hasher p)) ext_uuid_NewV7
      email pw ip (w_ext w) (Suc (w_tick w)) (w_tick w') (db_of w) r (db_of w')"
proof -
  have "run_state (lm_Allow (en_rateLimiter (memory_engine p)) (''signup:'' @ ip)) w =
      (Inr True, after_limiter w (''signup:'' @ ip))"
    using assms(2) by (simp only: limiter_verdict)
  from run_SignUp_allowed [OF this] assms(3)
  have "run_state (signup_checked (en_users (memory_engine p)) (en_hasher (memory_engine p)) (en_ids (memory_engine p))
      (en_audit (memory_engine p)) (en_log (memory_engine p)) email pw ip) (after_limiter w (''signup:'' @ ip)) = (r, w')"
    unfolding cryden_SignUp_def by simp
  from engine_opD(5) [OF mem.signup_checked_meets this] assms(1) show ?thesis by simp
qed

lemma signup_unhashed:
  assumes "mem_inv (w_db w)" and "\<not> email_taken (db_of w) email"
    and refused: "\<And>k. ext_bcrypt_GenerateFromPassword (w_ext w) k pw (bh_Cost (ep_hasher p)) = Inl err"
    and "run_state (signup_checked mem_UserStore (BcryptHasher_Hasher (ep_hasher p)) ids audit log email pw ip) w = (r, w')"
  shows "r = Inl err"
proof -
  obtain g w1 where get: "run_state (us_GetByEmail mem_UserStore email) w = (g, w1)" by fastforce
  note op = db_opD [OF mem_us.user_GetByEmail get assms(1)]
  from op(3) assms(2) obtain e where "g = Inl e"
    by (auto simp: user_GetByEmail_spec_def email_taken_def split: sum.splits)
  with assms(4) get refused op(2) show ?thesis
    by (simp add: signup_checked_def signup_hash_def BcryptHasher_Hasher_def BcryptHasher_Hash_def db_only_def run_simps)
qed

lemma SignUp_verdicts:
  assumes "mem_inv (w_db w)" and "sources_work p (w_ext w)"
    and "run_state (cryden_SignUp (memory_engine p) email pw ip) w = (r, w')"
  shows "if \<not> limiter_allows w (''signup:'' @ ip) then r = Inl ErrRateLimited
    else if email_taken (db_of w) email then r = Inl ErrUserExists
    else (\<exists>u. r = Inr u) \<or> (\<exists>err. r = Inl err \<and> bcrypt_fails (ep_hasher p) (w_ext w) pw err)"
proof (cases "limiter_allows w (''signup:'' @ ip)")
  case True
  from signup_checked_run [OF assms(1) True assms(3)] sources_workD [OF assms(2)] True show ?thesis
    by (cases r) (auto simp: signup_checked_spec_def)
next
  case False
  then have "run_state (lm_Allow (en_rateLimiter (memory_engine p)) (''signup:'' @ ip)) w =
      (Inr False, after_limiter w (''signup:'' @ ip))"
    by (simp only: limiter_verdict)
  from wpD [OF mem.SignUp_limited [OF this] assms(3) [unfolded cryden_SignUp_def]] False show ?thesis by simp
qed

lemma SignUp_succeeds:
  assumes "mem_inv (w_db w)" and "sources_work p (w_ext w)" and "bcrypt_takes p (w_ext w) pw"
    and "run_state (cryden_SignUp (memory_engine p) email pw ip) w = (r, w')" and "limiter_allows w (''signup:'' @ ip)"
    and "\<not> email_taken (db_of w) email"
  shows "\<exists>u. r = Inr u"
  using SignUp_verdicts [OF assms(1,2,4)] bcrypt_takesD [OF assms(3)] assms(5,6) by auto

abbreviation sample_SignUp :: "(mem_world, error + User) state" where
  "sample_SignUp \<equiv> cryden_SignUp (memory_engine sample_params) ''bob@x.org'' ''pw'' ''10.0.0.1''"

lemma sample_SignUp_run:
  obtains u w' where "run_state sample_SignUp (sample_world (sample_db [])) = (Inr u, w')"
proof -
  obtain r w' where run: "run_state sample_SignUp (sample_world (sample_db [])) = (r, w')" by fastforce
  from SignUp_succeeds [OF _ _ _ run] obtain u where "r = Inr u" by auto
  with run that show thesis by blast
qed

text \<open>C27. Which answer \<open>SignUp\<close> gives: a refused call gets \<open>ErrRateLimited\<close>, an address that is taken gets
  \<open>ErrUserExists\<close>. In every other case, when the sources of randomness work, the password decides: if bcrypt takes
  this password a user is returned, and if bcrypt refuses it, as it does with more than 72 bytes, the call is answered
  with the error of bcrypt and nothing is stored.\<close>

theorem signup_answers:
  assumes "mem_inv (w_db w)" and "sources_work p (w_ext w)"
    and "run_state (cryden_SignUp (memory_engine p) email pw ip) w = (r, w')"
  shows "if \<not> limiter_allows w (''signup:'' @ ip) then r = Inl ErrRateLimited
    else if email_taken (db_of w) email then r = Inl ErrUserExists
    else (bcrypt_takes p (w_ext w) pw \<longrightarrow> (\<exists>u. r = Inr u)) \<and>
      (\<forall>err. (\<forall>k. ext_bcrypt_GenerateFromPassword (w_ext w) k pw (bh_Cost (ep_hasher p)) = Inl err) \<longrightarrow>
         r = Inl err \<and> db_of w' = db_of w)"
proof -
  have "r = Inl err \<and> db_of w' = db_of w" if "limiter_allows w (''signup:'' @ ip)" "\<not> email_taken (db_of w) email"
    "\<And>k. ext_bcrypt_GenerateFromPassword (w_ext w) k pw (bh_Cost (ep_hasher p)) = Inl err" for err
  proof -
    from that(1) have "run_state (lm_Allow (en_rateLimiter (memory_engine p)) (''signup:'' @ ip)) w =
        (Inr True, after_limiter w (''signup:'' @ ip))"
      by (simp only: limiter_verdict)
    from run_SignUp_allowed [OF this] assms(3) have
      "run_state (signup_checked mem_UserStore (BcryptHasher_Hasher (ep_hasher p)) UUIDv7Generator mem_AuditStore NewConsoleJSONLogger
         email pw ip) (after_limiter w (''signup:'' @ ip)) = (r, w')"
      unfolding cryden_SignUp_def by simp
    from signup_unhashed [OF _ _ _ this] that(2,3) assms(1) have "r = Inl err" by simp
    with signup_checked_run [OF assms(1) that(1) assms(3)] show ?thesis by (simp add: signup_checked_spec_def)
  qed
  with SignUp_verdicts [OF assms] SignUp_succeeds [OF assms(1,2) _ assms(3)] show ?thesis by (auto split: if_splits)
qed

theorem signup_answers_witness:
  "\<exists>r w'. run_state sample_SignUp (sample_world (sample_db [])) = (r, w') \<and> (\<exists>u. r = Inr u)"
proof -
  obtain r w' where run: "run_state sample_SignUp (sample_world (sample_db [])) = (r, w')" by fastforce
  from signup_answers [OF _ _ run] run show ?thesis by auto
qed

lemma SignUp_effect:
  assumes "mem_inv (w_db w)"
    and "run_state (cryden_SignUp (memory_engine p) email pw ip) w = (r, w')"
  shows "case r of
      Inl e \<Rightarrow> db_of w' = db_of w
    | Inr u \<Rightarrow> \<not> email_taken (db_of w) email \<and>
        (bcrypt_sound (w_ext w) \<longrightarrow> password_matches (w_ext w) (u_PasswordHash u) pw) \<and>
        u_Email u = email \<and> u_FailedAttempts u = 0 \<and> u_LockedUntil u = None \<and>
        drawn_between ext_uuid_NewV7 (w_ext w) (w_tick w) (w_tick w') (u_ID u) \<and>
        (run_ok mem_inv mem_view w \<longrightarrow> v_users (db_of w) (u_ID u) = None) \<and>
        (\<exists>t. v_users (db_of w') = (v_users (db_of w))(u_ID u \<mapsto> u\<lparr>u_CreatedAt := t, u_UpdatedAt := t\<rparr>)) \<and>
        v_sessions (db_of w') = v_sessions (db_of w) \<and> v_verifs (db_of w') = v_verifs (db_of w) \<and>
        recorded (new_AuditEvent EventSignupSuccess (u_ID u) ip None) (v_events (db_of w)) (v_events (db_of w'))"
proof (cases r)
  case (Inl e)
  with engine_opD(5) [OF mem.SignUp_meets assms(2) [unfolded cryden_SignUp_def] assms(1)] show ?thesis
    by (auto simp: SignUp_spec_def signup_checked_spec_def)
next
  case (Inr u)
  with engine_opD(5) [OF mem.SignUp_meets assms(2) [unfolded cryden_SignUp_def] assms(1)]
  obtain t where sp: "\<not> email_taken (db_of w) email"
    "bcrypt_sound (w_ext w) \<longrightarrow> password_matches (w_ext w) (u_PasswordHash u) pw"
    "u = zero_User\<lparr>u_ID := u_ID u, u_Email := email, u_PasswordHash := u_PasswordHash u\<rparr>"
    "drawn_between ext_uuid_NewV7 (w_ext w) (w_tick w) (w_tick w') (u_ID u)"
    "audited {} (new_AuditEvent EventSignupSuccess (u_ID u) ip None)
       (put_user (u\<lparr>u_CreatedAt := t, u_UpdatedAt := t\<rparr>) (db_of w)) (db_of w')"
    by (auto simp: SignUp_spec_def signup_checked_spec_def)
  from sp(3) have "u_Email u = email" "u_FailedAttempts u = 0" "u_LockedUntil u = None"
    by (metis User.select_convs User.update_convs zero_User_def User.surjective)+
  moreover have "v_users (db_of w) (u_ID u) = None" if "run_ok mem_inv mem_view w"
    using fresh_draw [OF run_okD(2) [OF that] sp(4)] run_okD(4) [OF that] by fastforce
  ultimately show ?thesis using sp audited_recorded [OF sp(5)] Inr by (auto simp: put_user_def)
qed

text \<open>C28. What \<open>SignUp\<close> leaves behind. When it returns a user, the address was free, the record is stored
  under an identifier that was drawn during the call, and in every state that runs reach no other user has that
  identifier; it has that address and (for a sound bcrypt) a hash of that password, no failed
  attempts and no lock, and exactly one signup event is recorded; all other users, all sessions and all
  verification tokens are untouched. When it returns an error, nothing at all has changed.\<close>

theorem signup_effect:
  assumes "mem_inv (w_db w)"
    and "run_state (cryden_SignUp (memory_engine p) email pw ip) w = (r, w')"
  shows "case r of
      Inl e \<Rightarrow> db_of w' = db_of w
    | Inr u \<Rightarrow> \<not> email_taken (db_of w) email \<and>
        (bcrypt_sound (w_ext w) \<longrightarrow> password_matches (w_ext w) (u_PasswordHash u) pw) \<and>
        u_Email u = email \<and> u_FailedAttempts u = 0 \<and> u_LockedUntil u = None \<and>
        drawn_between ext_uuid_NewV7 (w_ext w) (w_tick w) (w_tick w') (u_ID u) \<and>
        (run_ok mem_inv mem_view w \<longrightarrow> v_users (db_of w) (u_ID u) = None) \<and>
        (\<exists>t. v_users (db_of w') = (v_users (db_of w))(u_ID u \<mapsto> u\<lparr>u_CreatedAt := t, u_UpdatedAt := t\<rparr>)) \<and>
        v_sessions (db_of w') = v_sessions (db_of w) \<and> v_verifs (db_of w') = v_verifs (db_of w) \<and>
        recorded (new_AuditEvent EventSignupSuccess (u_ID u) ip None) (v_events (db_of w)) (v_events (db_of w'))"
  using assms by (rule SignUp_effect)

theorem signup_effect_witness:
  "\<exists>u w'. run_state sample_SignUp ((sample_world (sample_db []))\<lparr>w_tick := 3\<rparr>) = (Inr u, w') \<and> u_Email u = ''bob@x.org'' \<and>
     u_ID u \<noteq> ''u'' \<and> v_users (db_of w') ''u'' = Some sample_user \<and> (\<exists>u'. v_users (db_of w') (u_ID u) = Some u')"
proof -
  let ?w = "(sample_world (sample_db []))\<lparr>w_tick := 3\<rparr>"
  have ok: "run_ok mem_inv mem_view ?w"
    by (auto simp: run_ok_def sample_unique sample_drawn session_inv_def split: if_splits)
  obtain r w' where run: "run_state sample_SignUp ?w = (r, w')" by fastforce
  have "limiter_allows ?w ''signup:10.0.0.1''"
    by (simp add: limiter_allows_def NewInMemoryRateLimiter_def Allow_at_def)
  with SignUp_succeeds [OF run_okD(1) [OF ok] _ _ run] obtain u where r: "r = Inr u" by auto
  from signup_effect [OF run_okD(1) [OF ok] run] r ok have
    "v_users (db_of ?w) (u_ID u) = None" "u_Email u = ''bob@x.org''"
    "\<exists>t. v_users (db_of w') = (v_users (db_of ?w))(u_ID u \<mapsto> u\<lparr>u_CreatedAt := t, u_UpdatedAt := t\<rparr>)"
    by auto
  with run r show ?thesis by (auto split: if_splits)
qed

section \<open>Logging in\<close>

lemma login_checked_run:
  assumes "mem_inv (w_db w)" and "limiter_allows w (login_key ip email)"
    and "run_state (cryden_Login (memory_engine p) email pw ip ua) w = (r, w')"
  shows "login_checked_spec {} id password_matches ext_uuid_NewV7 (token_drawn (ep_gen p)) (ep_jwt p)
      email pw ip ua (ep_threshold p) (ep_duration p) (w_ext w) (Suc (w_tick w)) (w_tick w') (db_of w) r (db_of w')"
proof -
  have "run_state (lm_Allow (en_rateLimiter (memory_engine p)) (login_key ip email)) w =
      (Inr True, after_limiter w (login_key ip email))"
    using assms(2) by (simp only: limiter_verdict)
  from run_Login_allowed [OF this] assms(3)
  have "run_state (login_checked (en_users (memory_engine p)) (en_sessions (memory_engine p)) (en_hasher (memory_engine p))
      (en_ids (memory_engine p)) (en_refreshGen (memory_engine p)) (en_jwtIssuer (memory_engine p))
      (en_audit (memory_engine p)) (en_log (memory_engine p)) email pw ip ua
      (en_lockoutThreshold (memory_engine p)) (en_lockoutDuration (memory_engine p)))
      (after_limiter w (login_key ip email)) = (r, w')"
    unfolding cryden_Login_def by simp
  from engine_opD(5) [OF mem.login_checked_meets this] assms(1) show ?thesis by simp
qed

text \<open>The account of an address: the one user that has it.\<close>

definition account_of :: "dbview \<Rightarrow> string \<Rightarrow> User \<Rightarrow> bool" where
  "account_of v email u \<longleftrightarrow> found_user v email u \<and> (\<forall>u'. found_user v email u' \<longrightarrow> u' = u)"

lemma account_taken: "account_of v email u \<Longrightarrow> email_taken v email"
  by (auto simp: account_of_def found_user_def email_taken_def)

lemma login_of_account:
  assumes "mem_inv (w_db w)" and "limiter_allows w (login_key ip email)" and "account_of (db_of w) email u"
    and "run_state (cryden_Login (memory_engine p) email pw ip ua) w = (r, w')"
  shows "login_locked (w_ext w) (Suc (w_tick w)) (w_tick w') u (db_of w) r (db_of w') \<or>
    lock_open (w_ext w) (Suc (w_tick w)) (w_tick w') u \<and> \<not> password_matches (w_ext w) (u_PasswordHash u) pw \<and>
      login_wrong {} id (ep_threshold p) (ep_duration p) ip (w_ext w) (Suc (w_tick w)) (w_tick w') u (db_of w) r (db_of w') \<or>
    lock_open (w_ext w) (Suc (w_tick w)) (w_tick w') u \<and> password_matches (w_ext w) (u_PasswordHash u) pw \<and>
      login_session_spec {} ext_uuid_NewV7 (token_drawn (ep_gen p)) (ep_jwt p) ip ua (w_ext w) (Suc (w_tick w))
        (w_tick w') u (db_of w) r (db_of w')"
  using login_checked_run [OF assms(1,2,4)] account_taken [OF assms(3)] assms(3)
  unfolding login_checked_spec_def login_unknown_def account_of_def by blast

text \<open>The account is locked, or is not, at every reading of the clock that the call can take.\<close>

definition locked_throughout :: "mem_world \<Rightarrow> mem_world \<Rightarrow> User \<Rightarrow> bool" where
  "locked_throughout w w' u \<longleftrightarrow>
     (\<exists>until. u_LockedUntil u = Some until \<and> (\<forall>k. w_tick w < k \<longrightarrow> k < w_tick w' \<longrightarrow> ext_now (w_ext w) k < until))"

definition unlocked_throughout :: "mem_world \<Rightarrow> mem_world \<Rightarrow> User \<Rightarrow> bool" where
  "unlocked_throughout w w' u \<longleftrightarrow>
     (\<forall>until k. u_LockedUntil u = Some until \<longrightarrow> w_tick w < k \<longrightarrow> k < w_tick w' \<longrightarrow> until \<le> ext_now (w_ext w) k)"

lemma locked_throughoutD:
  "locked_throughout w w' u \<Longrightarrow> \<not> lock_open (w_ext w) (Suc (w_tick w)) (w_tick w') u"
  by (force simp: locked_throughout_def lock_open_def Suc_le_eq)

lemma unlocked_throughoutD:
  "unlocked_throughout w w' u \<Longrightarrow> \<not> login_locked (w_ext w) (Suc (w_tick w)) (w_tick w') u v r v'"
  by (force simp: unlocked_throughout_def login_locked_def Suc_le_eq)

text \<open>A locked account cannot be logged into, with any password, and not even its counter moves.\<close>

lemma Login_locked:
  assumes "mem_inv (w_db w)" and "limiter_allows w (login_key ip email)" and "account_of (db_of w) email u"
    and "run_state (cryden_Login (memory_engine p) email pw ip ua) w = (r, w')"
    and "locked_throughout w w' u"
  shows "r = Inl ErrAccountLocked \<and> db_of w' = db_of w"
  using login_of_account [OF assms(1-4)] locked_throughoutD [OF assms(5)] by (auto simp: login_locked_def)

lemma sample_account [simp]: "account_of (mem_view (sample_store [u] ss vs)) email u \<longleftrightarrow> u_Email u = email"
  by (auto simp: account_of_def found_user_def split: if_splits)

lemma Login_success:
  assumes "mem_inv (w_db w)"
    and "run_state (cryden_Login (memory_engine p) email pw ip ua) w = (Inr tk, w')"
  shows "\<exists>u i t n. found_user (db_of w) email u \<and> password_matches (w_ext w) (u_PasswordHash u) pw \<and>
    lock_open (w_ext w) (w_tick w) (w_tick w') u \<and>
    v_users (db_of w') = (v_users (db_of w))(u_ID u \<mapsto> u\<lparr>u_FailedAttempts := 0, u_LockedUntil := None\<rparr>) \<and>
    drawn_between ext_uuid_NewV7 (w_ext w) (w_tick w) (w_tick w') i \<and>
    drawn_between (token_drawn (ep_gen p)) (w_ext w) (w_tick w) (w_tick w') (tk_RefreshToken tk) \<and>
    v_sessions (db_of w') = (v_sessions (db_of w))(i \<mapsto>
      \<lparr>s_ID = i, s_FamilyID = i, s_UserID = u_ID u, s_TokenHash = HashToken (tk_RefreshToken tk), s_IP = ip,
       s_UserAgent = ua, s_CreatedAt = t, s_RevokedAt = None\<rparr>) \<and>
    v_verifs (db_of w') = v_verifs (db_of w) \<and> w_tick w \<le> n \<and> n < w_tick w' \<and>
    ext_jwt_SignedString (w_ext w) SigningMethodHS256
      (access_claims (w_ext w) (ep_jwt p) (u_ID u) (ext_now (w_ext w) n)) (ji_secret (ep_jwt p)) =
      Inr (tk_AccessToken tk) \<and>
    recorded (new_AuditEvent EventLoginSuccess (u_ID u) ip None) (v_events (db_of w)) (v_events (db_of w'))"
proof -
  from engine_opD(5) [OF mem.Login_meets assms(2) [unfolded cryden_Login_def] assms(1)]
  obtain u where u: "found_user (db_of w) email u" "password_matches (w_ext w) (u_PasswordHash u) pw"
    "lock_open (w_ext w) (w_tick w) (w_tick w') u"
    "login_session_spec {} ext_uuid_NewV7 (token_drawn (ep_gen p)) (ep_jwt p) ip ua (w_ext w) (w_tick w)
        (w_tick w') u (db_of w) (Inr tk) (db_of w')"
    by (auto simp: Login_spec_def login_checked_spec_def login_unknown_def login_locked_def login_wrong_def)
  from u(4) obtain i t n where s: "drawn_between ext_uuid_NewV7 (w_ext w) (w_tick w) (w_tick w') i"
    "drawn_between (token_drawn (ep_gen p)) (w_ext w) (w_tick w) (w_tick w') (tk_RefreshToken tk)"
    "w_tick w \<le> n" "n < w_tick w'"
    "ext_jwt_SignedString (w_ext w) SigningMethodHS256
      (access_claims (w_ext w) (ep_jwt p) (u_ID u) (ext_now (w_ext w) n)) (ji_secret (ep_jwt p)) =
      Inr (tk_AccessToken tk)"
    "audited {} (new_AuditEvent EventLoginSuccess (u_ID u) ip None)
      (put_session (fresh_session i u (tk_RefreshToken tk) ip ua t) (put_user (unlocked u) (db_of w))) (db_of w')"
    by (auto simp: login_session_spec_def login_reset_def)
  from audited_recorded [OF s(6)] show ?thesis
    by (intro exI [of _ u] exI [of _ i] exI [of _ t] exI [of _ n])
      (use u s in \<open>simp add: put_session_def put_user_def unlocked_def fresh_session_def\<close>)
qed

text \<open>C23. What a successful login means. There is an account with this address whose stored hash matches the
  password and whose lock, if it has one, was over. Its failed attempts and lock are cleared; one session
  is added, under a new identifier that is also its family, for that account and the caller's address and
  agent, holding the hash of the returned refresh token; the access token is signed for that account, and
  exactly one event is recorded. No other user, session or verification token changes.\<close>

theorem login_success:
  assumes "mem_inv (w_db w)"
    and "run_state (cryden_Login (memory_engine p) email pw ip ua) w = (Inr tk, w')"
  shows "\<exists>u i t n. found_user (db_of w) email u \<and> password_matches (w_ext w) (u_PasswordHash u) pw \<and>
    lock_open (w_ext w) (w_tick w) (w_tick w') u \<and>
    v_users (db_of w') = (v_users (db_of w))(u_ID u \<mapsto> u\<lparr>u_FailedAttempts := 0, u_LockedUntil := None\<rparr>) \<and>
    drawn_between ext_uuid_NewV7 (w_ext w) (w_tick w) (w_tick w') i \<and>
    drawn_between (token_drawn (ep_gen p)) (w_ext w) (w_tick w) (w_tick w') (tk_RefreshToken tk) \<and>
    v_sessions (db_of w') = (v_sessions (db_of w))(i \<mapsto>
      \<lparr>s_ID = i, s_FamilyID = i, s_UserID = u_ID u, s_TokenHash = HashToken (tk_RefreshToken tk), s_IP = ip,
       s_UserAgent = ua, s_CreatedAt = t, s_RevokedAt = None\<rparr>) \<and>
    v_verifs (db_of w') = v_verifs (db_of w) \<and> w_tick w \<le> n \<and> n < w_tick w' \<and>
    ext_jwt_SignedString (w_ext w) SigningMethodHS256
      (access_claims (w_ext w) (ep_jwt p) (u_ID u) (ext_now (w_ext w) n)) (ji_secret (ep_jwt p)) =
      Inr (tk_AccessToken tk) \<and>
    recorded (new_AuditEvent EventLoginSuccess (u_ID u) ip None) (v_events (db_of w)) (v_events (db_of w'))"
  using Login_success [OF assms] by blast

lemma Login_decides:
  assumes "mem_inv (w_db w)" and "limiter_allows w (login_key ip email)" and "account_of (db_of w) email u"
    and "sources_work p (w_ext w)" and "run_state (cryden_Login (memory_engine p) email pw ip ua) w = (r, w')"
    and "unlocked_throughout w w' u"
  shows "if password_matches (w_ext w) (u_PasswordHash u) pw then \<exists>tk. r = Inr tk else r = Inl ErrInvalidCredentials"
proof (cases "password_matches (w_ext w) (u_PasswordHash u) pw")
  case True
  with login_of_account [OF assms(1-3,5)] unlocked_throughoutD [OF assms(6)]
  have "login_session_spec {} ext_uuid_NewV7 (token_drawn (ep_gen p)) (ep_jwt p) ip ua (w_ext w) (Suc (w_tick w))
        (w_tick w') u (db_of w) r (db_of w')"
    by blast
  with sources_workD [OF assms(4)] have "\<exists>tk. r = Inr tk"
    by (cases r) (auto simp: login_session_spec_def)
  with True show ?thesis by simp
next
  case False
  with login_of_account [OF assms(1-3,5)] unlocked_throughoutD [OF assms(6)] show ?thesis
    by (auto simp: login_wrong_def)
qed

abbreviation sample_Login :: "string \<Rightarrow> (mem_world, error + Tokens) state" where
  "sample_Login pw \<equiv> cryden_Login (memory_engine sample_params) ''ann@x.org'' pw ''10.0.0.1'' ''agent''"

lemma sample_unlocked: "unlocked_throughout w w' sample_user"
  by (simp add: unlocked_throughout_def)

lemma sample_Login_run:
  "distinct (map s_ID ss) \<Longrightarrow> \<exists>tk w'. run_state (sample_Login ''pw'') (sample_world (sample_db ss)) = (Inr tk, w')"
proof -
  assume "distinct (map s_ID ss)"
  obtain r w' where run: "run_state (sample_Login ''pw'') (sample_world (sample_db ss)) = (r, w')" by fastforce
  from Login_decides [OF _ _ _ _ run sample_unlocked] \<open>distinct (map s_ID ss)\<close> obtain tk where "r = Inr tk" by auto
  with run show ?thesis by blast
qed

theorem login_success_witness:
  "\<exists>tk w' i. run_state (sample_Login ''pw'') (sample_world (sample_db [])) = (Inr tk, w') \<and>
     (\<exists>s. v_sessions (db_of w') i = Some s \<and> s_TokenHash s = HashToken (tk_RefreshToken tk))"
proof -
  obtain tk w' where run: "run_state (sample_Login ''pw'') (sample_world (sample_db [])) = (Inr tk, w')"
    using sample_Login_run [of "[]"] by auto
  have "mem_inv (w_db (sample_world (sample_db [])))" by simp
  from login_success [OF this run] obtain u :: User and i t where
    "v_sessions (db_of w') = (v_sessions (db_of (sample_world (sample_db []))))(i \<mapsto>
      \<lparr>s_ID = i, s_FamilyID = i, s_UserID = u_ID u, s_TokenHash = HashToken (tk_RefreshToken tk), s_IP = ''10.0.0.1'',
       s_UserAgent = ''agent'', s_CreatedAt = t, s_RevokedAt = None\<rparr>)"
    by blast
  with run show ?thesis by (intro exI [of _ tk] exI [of _ w'] exI [of _ i]) simp
qed

text \<open>C22. For an account that is not locked, and sources that work, the password alone decides: the call
  returns tokens when the stored hash matches it, and \<open>ErrInvalidCredentials\<close> when it does not.\<close>

theorem login_decides:
  assumes "mem_inv (w_db w)" and "limiter_allows w (login_key ip email)" and "account_of (db_of w) email u"
    and "sources_work p (w_ext w)" and "run_state (cryden_Login (memory_engine p) email pw ip ua) w = (r, w')"
    and "unlocked_throughout w w' u"
  shows "if password_matches (w_ext w) (u_PasswordHash u) pw then \<exists>tk. r = Inr tk else r = Inl ErrInvalidCredentials"
  using assms by (rule Login_decides)

theorem login_decides_witness:
  "\<exists>r w'. run_state (sample_Login ''pw'') (sample_world (sample_db [])) = (r, w') \<and> (\<exists>tk. r = Inr tk)"
proof -
  obtain r w' where run: "run_state (sample_Login ''pw'') (sample_world (sample_db [])) = (r, w')" by fastforce
  from login_decides [OF _ _ _ _ run sample_unlocked] run show ?thesis by auto
qed

lemma Login_hides:
  assumes "mem_inv (w_db w)" and "limiter_allows w (login_key ip email)"
    and "run_state (cryden_Login (memory_engine p) email pw ip ua) w = (r, w')"
    and "\<not> email_taken (db_of w) email \<or>
      (\<exists>u. account_of (db_of w) email u \<and> unlocked_throughout w w' u \<and>
         \<not> password_matches (w_ext w) (u_PasswordHash u) pw)"
  shows "r = Inl ErrInvalidCredentials \<and> v_sessions (db_of w') = v_sessions (db_of w)"
  using assms(4)
proof
  assume free: "\<not> email_taken (db_of w) email"
  then have "\<not> found_user (db_of w) email u" for u
    unfolding email_taken_def found_user_def by blast
  with login_checked_run [OF assms(1-3)] have "login_unknown {} email ip (db_of w) r (db_of w')"
    unfolding login_checked_spec_def by blast
  then show ?thesis unfolding login_unknown_def using audited_recorded by blast
next
  assume "\<exists>u. account_of (db_of w) email u \<and> unlocked_throughout w w' u \<and> \<not> password_matches (w_ext w) (u_PasswordHash u) pw"
  then obtain u where u: "account_of (db_of w) email u" "unlocked_throughout w w' u"
    "\<not> password_matches (w_ext w) (u_PasswordHash u) pw" by blast
  from login_of_account [OF assms(1,2) u(1) assms(3)] unlocked_throughoutD [OF u(2)] u(3)
  obtain v1 where "r = Inl ErrInvalidCredentials"
    "audited {} (login_failure_event (u_ID u) ip ''wrong_password'') (db_of w) v1"
    "lockout_spec {} id (ep_threshold p) (ep_duration p) (w_ext w) (Suc (w_tick w)) (w_tick w') u ip v1 (db_of w')"
    unfolding login_wrong_def by blast
  then show ?thesis using audited_recorded lockout_users by metis
qed

text \<open>C24. The answer does not tell whether an account exists: a call for an address that nobody has and a
  call with a wrong password for an account that is not locked both return \<open>ErrInvalidCredentials\<close> and
  neither creates a session.\<close>

theorem login_hides_accounts:
  assumes "mem_inv (w_db w)" and "limiter_allows w (login_key ip email)"
    and "run_state (cryden_Login (memory_engine p) email pw ip ua) w = (r, w')"
    and "\<not> email_taken (db_of w) email \<or>
      (\<exists>u. account_of (db_of w) email u \<and> unlocked_throughout w w' u \<and>
         \<not> password_matches (w_ext w) (u_PasswordHash u) pw)"
  shows "r = Inl ErrInvalidCredentials \<and> v_sessions (db_of w') = v_sessions (db_of w)"
  using assms by (rule Login_hides)

theorem login_hides_accounts_witness:
  "\<exists>r w'. run_state (sample_Login ''wrong'') (sample_world (sample_db [])) = (r, w') \<and> r = Inl ErrInvalidCredentials"
proof -
  obtain r w' where run: "run_state (sample_Login ''wrong'') (sample_world (sample_db [])) = (r, w')" by fastforce
  have "\<not> email_taken (db_of (sample_world (sample_db []))) ''ann@x.org'' \<or>
      (\<exists>u. account_of (db_of (sample_world (sample_db []))) ''ann@x.org'' u \<and>
         unlocked_throughout (sample_world (sample_db [])) w' u \<and>
         \<not> password_matches (w_ext (sample_world (sample_db []))) (u_PasswordHash u) ''wrong'')"
    by (intro disjI2 exI [of _ sample_user]) (simp add: sample_unlocked)
  from login_hides_accounts [OF _ _ run this] run show ?thesis by simp
qed

lemma Login_failure_counts:
  assumes "mem_inv (w_db w)" and "limiter_allows w (login_key ip email)" and "account_of (db_of w) email u"
    and "run_state (cryden_Login (memory_engine p) email pw ip ua) w = (r, w')"
    and "unlocked_throughout w w' u" and "\<not> password_matches (w_ext w) (u_PasswordHash u) pw"
  shows "\<exists>lock. v_users (db_of w') = (v_users (db_of w))(u_ID u \<mapsto>
      u\<lparr>u_FailedAttempts := wrap64 (u_FailedAttempts u + 1), u_LockedUntil := lock\<rparr>) \<and>
    (if wrap64 (u_FailedAttempts u + 1) < ep_threshold p then lock = u_LockedUntil u
     else \<exists>k. w_tick w \<le> k \<and> k < w_tick w' \<and> lock = Some (ext_now (w_ext w) k + ep_duration p)) \<and>
    (\<exists>e \<in> set (v_events (db_of w')). ev_Type e = EventLoginFailed \<and> ev_UserID e = u_ID u)"
proof -
  from login_of_account [OF assms(1-4)] unlocked_throughoutD [OF assms(5)] assms(6)
  obtain v1 where v1: "audited {} (login_failure_event (u_ID u) ip ''wrong_password'') (db_of w) v1"
    and lock: "lockout_spec {} id (ep_threshold p) (ep_duration p) (w_ext w) (Suc (w_tick w)) (w_tick w') u ip v1 (db_of w')"
    unfolding login_wrong_def by blast
  have ev: "\<exists>e \<in> set (v_events v1). ev_Type e = EventLoginFailed \<and> ev_UserID e = u_ID u"
    using v1 by (auto simp: audited_no_faults login_failure_event_def)
  have u1: "v_users v1 = v_users (db_of w)" using audited_recorded [OF v1] by blast
  let ?n = "wrap64 (u_FailedAttempts u + 1)"
  show ?thesis
  proof (cases "?n < ep_threshold p")
    case True
    with lock have "db_of w' = put_user (counted u) v1"
      by (auto simp: lockout_spec_def counted_def)
    with True ev u1 show ?thesis
      by (intro exI [of _ "u_LockedUntil u"]) (auto simp: put_user_def counted_def)
  next
    case False
    with lock obtain k where k: "Suc (w_tick w) \<le> k" "k < w_tick w'"
      "audited {} (new_AuditEvent EventAccountLocked (u_ID u) ip None)
         (put_user ((counted u)\<lparr>u_LockedUntil := Some (ext_now (w_ext w) k + ep_duration p)\<rparr>) v1) (db_of w')"
      by (auto simp: lockout_spec_def counted_def)
    show ?thesis
      by (intro exI [of _ "Some (ext_now (w_ext w) k + ep_duration p)"] conjI)
        (use k ev u1 False in \<open>auto simp: audited_no_faults put_user_def counted_def intro!: exI [of _ k]\<close>)
  qed
qed

text \<open>A wrong password on an account that is not locked is counted. Below the threshold only the counter
  of this account moves, by one; at the threshold the account is also locked until a reading of the clock
  plus the configured duration. Either way the failure is recorded for the account.\<close>

lemma login_failure_counts:
  assumes "mem_inv (w_db w)" and "limiter_allows w (login_key ip email)" and "account_of (db_of w) email u"
    and "run_state (cryden_Login (memory_engine p) email pw ip ua) w = (r, w')"
    and "unlocked_throughout w w' u" and "\<not> password_matches (w_ext w) (u_PasswordHash u) pw"
  shows "\<exists>lock. v_users (db_of w') = (v_users (db_of w))(u_ID u \<mapsto>
      u\<lparr>u_FailedAttempts := wrap64 (u_FailedAttempts u + 1), u_LockedUntil := lock\<rparr>) \<and>
    (if wrap64 (u_FailedAttempts u + 1) < ep_threshold p then lock = u_LockedUntil u
     else \<exists>k. w_tick w \<le> k \<and> k < w_tick w' \<and> lock = Some (ext_now (w_ext w) k + ep_duration p)) \<and>
    (\<exists>e \<in> set (v_events (db_of w')). ev_Type e = EventLoginFailed \<and> ev_UserID e = u_ID u)"
  using assms by (rule Login_failure_counts)

end
