(* ===== verification/Account_Properties.thy ===== *)
theory Account_Properties
  imports Auth_Properties
begin

text \<open>
  Properties of the calls that change or end an account, end sessions and rotate refresh tokens.
\<close>

section \<open>Changing the password and deleting the account\<close>

text \<open>C26. A stolen access token is not enough: without the current password, \<open>ChangePassword\<close> and
  \<open>DeleteAccount\<close> change nothing at all, and say \<open>ErrInvalidCredentials\<close>, or \<open>ErrNotFound\<close> for a user that
  does not exist.\<close>

theorem reconfirmation_required:
  assumes "mem_inv (w_db w)"
    and "\<forall>u. v_users (db_of w) uid = Some u \<longrightarrow> \<not> password_matches (w_ext w) (u_PasswordHash u) current"
    and "run_state (cryden_ChangePassword (memory_engine p) uid current new) w = (r1, w1)"
    and "run_state (cryden_DeleteAccount (memory_engine p) uid current) w = (r2, w2)"
  shows "r1 = Some (if v_users (db_of w) uid = None then ErrNotFound else ErrInvalidCredentials) \<and>
    r2 = r1 \<and> db_of w1 = db_of w \<and> db_of w2 = db_of w"
proof -
  have "reconfirm_refused {} password_matches uid current (w_ext w) (db_of w) r1 (db_of w1)"
    using engine_opD(5) [OF mem.ChangePassword_meets assms(3) [unfolded cryden_ChangePassword_def] assms(1)] assms(2)
    unfolding ChangePassword_spec_def by blast
  moreover have "reconfirm_refused {} password_matches uid current (w_ext w) (db_of w) r2 (db_of w2)"
    using engine_opD(5) [OF mem.DeleteAccount_meets assms(4) [unfolded cryden_DeleteAccount_def] assms(1)] assms(2)
    unfolding DeleteAccount_spec_def by blast
  ultimately show ?thesis by (auto simp: reconfirm_refused_def)
qed

theorem reconfirmation_required_witness:
  "\<exists>r1 w1 r2 w2.
     run_state (cryden_ChangePassword (memory_engine sample_params) ''u'' ''wrong'' ''new'') (sample_world (sample_db [])) = (r1, w1) \<and>
     run_state (cryden_DeleteAccount (memory_engine sample_params) ''u'' ''wrong'') (sample_world (sample_db [])) = (r2, w2) \<and>
     r1 = Some ErrInvalidCredentials \<and> r2 = Some ErrInvalidCredentials"
proof -
  let ?w = "sample_world (sample_db [])"
  obtain r1 w1 r2 w2 where
    run: "run_state (cryden_ChangePassword (memory_engine sample_params) ''u'' ''wrong'' ''new'') ?w = (r1, w1)"
      "run_state (cryden_DeleteAccount (memory_engine sample_params) ''u'' ''wrong'') ?w = (r2, w2)"
    by fastforce
  from reconfirmation_required [OF _ _ run] run show ?thesis by auto
qed

text \<open>C25. When \<open>ChangePassword\<close> returns without an error, the current password matched, the stored hash is
  replaced by one that (for a sound bcrypt) matches the new password, every active session of the user is
  revoked, including the caller's own, and one event is recorded; nothing else changes.\<close>

theorem change_password_effect:
  assumes "mem_inv (w_db w)"
    and "run_state (cryden_ChangePassword (memory_engine p) uid current new) w = (None, w')"
  shows "\<exists>u hash t t'. v_users (db_of w) uid = Some u \<and> password_matches (w_ext w) (u_PasswordHash u) current \<and>
    (bcrypt_sound (w_ext w) \<longrightarrow> password_matches (w_ext w) hash new) \<and>
    v_users (db_of w') = (v_users (db_of w))(uid \<mapsto> u\<lparr>u_PasswordHash := hash, u_UpdatedAt := t\<rparr>) \<and>
    v_sessions (db_of w') = revoke_where (\<lambda>s. s_UserID s = uid) t' (v_sessions (db_of w)) \<and>
    v_verifs (db_of w') = v_verifs (db_of w) \<and>
    recorded (new_AuditEvent EventPasswordChanged uid [] None) (v_events (db_of w)) (v_events (db_of w'))"
proof -
  from engine_opD(5) [OF mem.ChangePassword_meets assms(2) [unfolded cryden_ChangePassword_def] assms(1)]
  obtain u hash t v1 where u: "v_users (db_of w) uid = Some u" "u_ID u = uid"
    "password_matches (w_ext w) (u_PasswordHash u) current"
    "bcrypt_sound (w_ext w) \<longrightarrow> password_matches (w_ext w) hash new"
    "all_revoked {} uid (put_user (u\<lparr>u_PasswordHash := hash, u_UpdatedAt := t\<rparr>) (db_of w)) v1"
    "audited {} (new_AuditEvent EventPasswordChanged uid [] None) v1 (db_of w')"
    by (auto simp: ChangePassword_spec_def reconfirm_refused_def)
  from u(5) obtain t' where v1: "v1 = (put_user (u\<lparr>u_PasswordHash := hash, u_UpdatedAt := t\<rparr>) (db_of w))
      \<lparr>v_sessions := revoke_where (\<lambda>s. s_UserID s = uid) t' (v_sessions (db_of w))\<rparr>"
    by (auto simp: all_revoked_def put_user_def)
  from audited_recorded [OF u(6)] show ?thesis
    by (intro exI [of _ u] exI [of _ hash] exI [of _ t] exI [of _ t'])
      (use u v1 in \<open>simp add: put_user_def\<close>)
qed

lemma ChangePassword_succeeds:
  assumes "mem_inv (w_db w)" and "v_users (db_of w) uid = Some u" and "bcrypt_takes p (w_ext w) new"
    and "password_matches (w_ext w) (u_PasswordHash u) current"
  shows "\<exists>w'. run_state (cryden_ChangePassword (memory_engine p) uid current new) w = (None, w')"
proof -
  obtain r w' where run: "run_state (cryden_ChangePassword (memory_engine p) uid current new) w = (r, w')" by fastforce
  from engine_opD(5) [OF mem.ChangePassword_meets run [unfolded cryden_ChangePassword_def] assms(1)]
    bcrypt_takesD [OF assms(3)] assms(2,4) have "r = None"
    by (auto simp: ChangePassword_spec_def reconfirm_refused_def)
  with run show ?thesis by blast
qed

theorem change_password_effect_witness:
  "\<exists>w'. run_state (cryden_ChangePassword (memory_engine sample_params) ''u'' ''pw'' ''new'')
      (sample_world (sample_db [sample_session ''s'' ''s'' ''abc'' None])) = (None, w') \<and>
     (\<exists>t. v_sessions (db_of w') ''s'' = Some (sample_session ''s'' ''s'' ''abc'' (Some t)))"
proof -
  let ?w = "sample_world (sample_db [sample_session ''s'' ''s'' ''abc'' None])"
  have inv: "mem_inv (w_db ?w)" by simp
  have "\<exists>w'. run_state (cryden_ChangePassword (memory_engine sample_params) ''u'' ''pw'' ''new'') ?w = (None, w')"
    by (rule ChangePassword_succeeds [OF inv, where u = sample_user]) simp_all
  then obtain w' where run: "run_state (cryden_ChangePassword (memory_engine sample_params) ''u'' ''pw'' ''new'') ?w = (None, w')"
    by blast
  from change_password_effect [OF inv run] obtain t' where
    "v_sessions (db_of w') = revoke_where (\<lambda>s. s_UserID s = ''u'') t' (v_sessions (db_of ?w))"
    by blast
  then have "v_sessions (db_of w') ''s'' = Some (sample_session ''s'' ''s'' ''abc'' (Some t'))"
    by (simp add: revoke_where_def sample_session_def)
  with run show ?thesis by blast
qed

text \<open>When \<open>DeleteAccount\<close> returns without an error, the password matched, the user is gone, none of the
  user's sessions is active any more, the other users and their sessions are untouched, and the deletion is
  recorded.\<close>

lemma delete_account_effect:
  assumes "mem_inv (w_db w)"
    and "run_state (cryden_DeleteAccount (memory_engine p) uid current) w = (None, w')"
  shows "(\<exists>u. v_users (db_of w) uid = Some u \<and> password_matches (w_ext w) (u_PasswordHash u) current) \<and>
    v_users (db_of w') = (v_users (db_of w))(uid := None) \<and>
    (\<forall>i s. v_sessions (db_of w') i = Some s \<longrightarrow> s_UserID s = uid \<longrightarrow> s_RevokedAt s \<noteq> None) \<and>
    (\<forall>i s. v_sessions (db_of w) i = Some s \<longrightarrow> s_UserID s \<noteq> uid \<longrightarrow> v_sessions (db_of w') i = Some s) \<and>
    map ev_Type (v_events (db_of w')) = map ev_Type (v_events (db_of w)) @ [EventAccountDeleted]"
proof -
  from engine_opD(5) [OF mem.DeleteAccount_meets assms(2) [unfolded cryden_DeleteAccount_def] assms(1)]
  obtain u v1 v2 where u: "v_users (db_of w) uid = Some u" "password_matches (w_ext w) (u_PasswordHash u) current"
    "all_revoked {} uid (db_of w) v1" "audited {} (new_AuditEvent EventAccountDeleted uid [] None) v1 v2"
    "user_Delete_spec {} uid v2 None (db_of w')"
    by (auto simp: DeleteAccount_spec_def reconfirm_refused_def)
  note rev = all_revoked_stamped [OF u(3)] and aud = audited_data [OF u(4)]
  from u(3) obtain t where v1: "v1 = (db_of w)\<lparr>v_sessions := revoke_where (\<lambda>s. s_UserID s = uid) t (v_sessions (db_of w))\<rparr>"
    by (auto simp: all_revoked_def)
  from u(5) have del: "v_users (db_of w') = (v_users v2)(uid := None)" "v_sessions (db_of w') \<subseteq>\<^sub>m v_sessions v2"
    "\<forall>j s. v_sessions v2 j = Some s \<longrightarrow> s_UserID s \<noteq> uid \<longrightarrow> v_sessions (db_of w') j = Some s"
    "map (\<lambda>e. e\<lparr>ev_UserID := []\<rparr>) (v_events (db_of w')) = map (\<lambda>e. e\<lparr>ev_UserID := []\<rparr>) (v_events v2)"
    by (auto simp: user_Delete_spec_def fault_option_def)
  have gone: "s_RevokedAt s \<noteq> None" if "v_sessions (db_of w') i = Some s" "s_UserID s = uid" for i s
  proof -
    have "v_sessions v1 i = Some s"
      using del(2) that(1) aud(2) unfolding map_le_def by (metis domI)
    with rev(3) that(2) show ?thesis unfolding active_def by blast
  qed
  have others: "v_sessions (db_of w') i = Some s" if "v_sessions (db_of w) i = Some s" "s_UserID s \<noteq> uid" for i s
    using del(3) aud(2) v1 that by (simp add: revoke_where_def)
  have "map ev_Type (map (\<lambda>e. e\<lparr>ev_UserID := []\<rparr>) (v_events (db_of w'))) =
      map ev_Type (map (\<lambda>e. e\<lparr>ev_UserID := []\<rparr>) (v_events v2))"
    using del(4) by simp
  then have types: "map ev_Type (v_events (db_of w')) = map ev_Type (v_events v2)" by (simp add: comp_def)
  have "map ev_Type (v_events v2) = map ev_Type (v_events (db_of w)) @ [EventAccountDeleted]"
    using u(4) v1 by (auto simp: audited_no_faults)
  with types u(1,2) del(1) aud(1) rev(2) gone others show ?thesis by auto
qed

lemma DeleteAccount_succeeds:
  assumes "mem_inv (w_db w)" and "v_users (db_of w) uid = Some u"
    and "password_matches (w_ext w) (u_PasswordHash u) current"
  shows "\<exists>w'. run_state (cryden_DeleteAccount (memory_engine p) uid current) w = (None, w')"
proof -
  obtain r w' where run: "run_state (cryden_DeleteAccount (memory_engine p) uid current) w = (r, w')" by fastforce
  from engine_opD(5) [OF mem.DeleteAccount_meets run [unfolded cryden_DeleteAccount_def] assms(1)] assms(2,3)
  have "r = None" by (auto simp: DeleteAccount_spec_def reconfirm_refused_def)
  with run show ?thesis by blast
qed

lemma DeleteAccount_removes:
  assumes "mem_inv (w_db w)" and "run_state (cryden_DeleteAccount (memory_engine p) uid current) w = (None, w')"
  shows "v_users (db_of w') uid = None"
  using engine_opD(5) [OF mem.DeleteAccount_meets assms(2) [unfolded cryden_DeleteAccount_def] assms(1)]
  by (auto simp: DeleteAccount_spec_def reconfirm_refused_def user_Delete_spec_def fault_option_def)

end
