(* ===== verification/Session_Properties.thy ===== *)
theory Session_Properties
  imports Account_Properties
begin

text \<open>
  Properties of the calls on sessions: ending one, ending all, listing them, and exchanging a refresh
  token for a new pair.
\<close>

section \<open>Ending and listing sessions\<close>

lemma end_session_answers:
  assumes "mem_inv (w_db w)"
    and "(m, event) \<in> {(cryden_Logout (memory_engine p) sid uid, new_AuditEvent EventLogout uid [] None),
      (RevokeSession (memory_engine p) sid uid,
       new_AuditEvent EventSessionRevoked uid [] (Some [(''session_id'', sid)]))}"
    and "run_state m w = (r, w')"
  shows "case v_sessions (db_of w) sid of
      None \<Rightarrow> r = Some ErrNotFound \<and> db_of w' = db_of w
    | Some s \<Rightarrow>
        if s_UserID s \<noteq> uid then r = Some ErrSessionNotOwned \<and> db_of w' = db_of w
        else if r = None
        then (\<exists>t. v_sessions (db_of w') = (v_sessions (db_of w))(sid \<mapsto> s\<lparr>s_RevokedAt := Some t\<rparr>)) \<and>
          v_users (db_of w') = v_users (db_of w) \<and> v_verifs (db_of w') = v_verifs (db_of w) \<and>
          recorded event (v_events (db_of w)) (v_events (db_of w'))
        else r = Some ErrNotFound \<and> s_RevokedAt s \<noteq> None \<and> db_of w' = db_of w"
proof -
  have spec: "end_session_spec {} event sid uid (db_of w) r (db_of w')"
    using assms(2)
  proof (elim insertE singletonE emptyE)
    assume "(m, event) = (cryden_Logout (memory_engine p) sid uid, new_AuditEvent EventLogout uid [] None)"
    with engine_opD(5) [OF mem.Logout_meets _ assms(1)] assms(3) show ?thesis by (simp add: cryden_Logout_def)
  next
    assume "(m, event) = (RevokeSession (memory_engine p) sid uid,
      new_AuditEvent EventSessionRevoked uid [] (Some [(''session_id'', sid)]))"
    with engine_opD(5) [OF mem.session_Revoke_meets _ assms(1)] assms(3) show ?thesis by (simp add: RevokeSession_def)
  qed
  show ?thesis
  proof (cases r)
    case None
    with spec obtain s t where s: "v_sessions (db_of w) sid = Some s" "s_UserID s = uid"
      "audited {} event ((db_of w)\<lparr>v_sessions := (v_sessions (db_of w))(sid \<mapsto> s\<lparr>s_RevokedAt := Some t\<rparr>)\<rparr>) (db_of w')"
      by (auto simp: end_session_spec_def)
    from audited_recorded [OF s(3)] s(1,2) None show ?thesis by auto
  next
    case (Some e)
    with spec show ?thesis by (auto simp: end_session_spec_def split: option.splits)
  qed
qed

text \<open>C29. \<open>Logout\<close> and \<open>RevokeSession\<close> end a session only for its owner. For a session of somebody else the
  answer is \<open>ErrSessionNotOwned\<close> and for an unknown one \<open>ErrNotFound\<close>, and nothing changes; a call that
  returns no error has stamped exactly this session and recorded its event.\<close>

theorem only_the_owner_ends_a_session:
  assumes "mem_inv (w_db w)"
    and "(m, event) \<in> {(cryden_Logout (memory_engine p) sid uid, new_AuditEvent EventLogout uid [] None),
      (RevokeSession (memory_engine p) sid uid,
       new_AuditEvent EventSessionRevoked uid [] (Some [(''session_id'', sid)]))}"
    and "run_state m w = (r, w')"
  shows "case v_sessions (db_of w) sid of
      None \<Rightarrow> r = Some ErrNotFound \<and> db_of w' = db_of w
    | Some s \<Rightarrow>
        if s_UserID s \<noteq> uid then r = Some ErrSessionNotOwned \<and> db_of w' = db_of w
        else if r = None
        then (\<exists>t. v_sessions (db_of w') = (v_sessions (db_of w))(sid \<mapsto> s\<lparr>s_RevokedAt := Some t\<rparr>)) \<and>
          v_users (db_of w') = v_users (db_of w) \<and> v_verifs (db_of w') = v_verifs (db_of w) \<and>
          recorded event (v_events (db_of w)) (v_events (db_of w'))
        else r = Some ErrNotFound \<and> s_RevokedAt s \<noteq> None \<and> db_of w' = db_of w"
  using assms by (rule end_session_answers)

theorem only_the_owner_ends_a_session_witness:
  "\<exists>r w'. run_state (cryden_Logout (memory_engine sample_params) ''s'' ''mallory'')
      (sample_world (sample_db [sample_session ''s'' ''s'' ''abc'' None])) = (r, w') \<and> r = Some ErrSessionNotOwned"
proof -
  let ?w = "sample_world (sample_db [sample_session ''s'' ''s'' ''abc'' None])"
  let ?m = "cryden_Logout (memory_engine sample_params) ''s'' ''mallory''"
  obtain r w' where run: "run_state ?m ?w = (r, w')" by fastforce
  have "(?m, new_AuditEvent EventLogout ''mallory'' [] None) \<in>
      {(?m, new_AuditEvent EventLogout ''mallory'' [] None),
       (RevokeSession (memory_engine sample_params) ''s'' ''mallory'',
        new_AuditEvent EventSessionRevoked ''mallory'' [] (Some [(''session_id'', ''s'')]))}"
    by simp
  from only_the_owner_ends_a_session [OF _ this run] run show ?thesis by simp
qed

text \<open>\<open>ListSessions\<close> returns every active session of the user, each once, and no other session.\<close>

lemma ListSessions_exact:
  assumes "mem_inv (w_db w)" and "run_state (ListSessions (memory_engine p) uid) w = (r, w')"
  shows "\<exists>ss. r = Inr ss \<and> distinct (map s_ID ss) \<and> db_of w' = db_of w \<and>
    set ss = {s. v_sessions (db_of w) (s_ID s) = Some s \<and> s_UserID s = uid \<and> s_RevokedAt s = None}"
  using engine_opD(5) [OF mem.session_List_meets assms(2) [unfolded ListSessions_def] assms(1)]
  by (cases r) (auto simp: session_ListByUser_spec_def)

lemma LogoutAll_run:
  assumes "mem_inv (w_db w)" and "run_state (cryden_LogoutAll (memory_engine p) uid) w = (r, w')"
  shows "r = None \<and> mem_inv (w_db w') \<and>
    (\<exists>t. v_sessions (db_of w') = revoke_where (\<lambda>s. s_UserID s = uid) t (v_sessions (db_of w))) \<and>
    v_users (db_of w') = v_users (db_of w) \<and>
    recorded (new_AuditEvent EventLogoutAll uid [] None) (v_events (db_of w)) (v_events (db_of w'))"
proof -
  note op = engine_opD [OF mem.LogoutAll_meets assms(2) [unfolded cryden_LogoutAll_def] assms(1)]
  from op(5) obtain t where r: "r = None" and aud: "audited {} (new_AuditEvent EventLogoutAll uid [] None)
      ((db_of w)\<lparr>v_sessions := revoke_where (\<lambda>s. s_UserID s = uid) t (v_sessions (db_of w))\<rparr>) (db_of w')"
    by (auto simp: LogoutAll_spec_def split: option.splits)
  from audited_recorded [OF aud] r op(1) show ?thesis by auto
qed

text \<open>\<open>LogoutAll\<close> always succeeds and ends every session of the user: listing the sessions afterwards
  gives the empty list. Sessions of other users are exactly as before.\<close>

lemma logout_all_ends_everything:
  assumes "mem_inv (w_db w)" and "run_state (cryden_LogoutAll (memory_engine p) uid) w = (r, w1)"
    and "run_state (ListSessions (memory_engine p) uid) w1 = (l, w2)"
  shows "r = None \<and> l = Inr [] \<and>
    (\<forall>i s. s_UserID s \<noteq> uid \<longrightarrow> (v_sessions (db_of w1) i = Some s \<longleftrightarrow> v_sessions (db_of w) i = Some s))"
proof -
  from LogoutAll_run [OF assms(1,2)] obtain t where r: "r = None" "mem_inv (w_db w1)"
    and v1: "v_sessions (db_of w1) = revoke_where (\<lambda>s. s_UserID s = uid) t (v_sessions (db_of w))" by blast
  from engine_opD(5) [OF mem.session_List_meets assms(3) [unfolded ListSessions_def] r(2)]
  obtain ss where ss: "l = Inr ss"
    "set ss = {s. v_sessions (db_of w1) (s_ID s) = Some s \<and> s_UserID s = uid \<and> s_RevokedAt s = None}"
    by (cases l) (auto simp: session_ListByUser_spec_def)
  have "s \<notin> set ss" for s :: Session
    using ss(2) v1 revoke_where_active [of "\<lambda>s. s_UserID s = uid" t "v_sessions (db_of w)" "s_ID s" s]
    by (auto simp: active_def)
  then have "ss = []" by (cases ss) auto
  moreover have "v_sessions (db_of w1) i = Some s \<longleftrightarrow> v_sessions (db_of w) i = Some s" if "s_UserID s \<noteq> uid" for i s
    using v1 that by (auto simp: revoke_where_def split: if_splits)
  ultimately show ?thesis using r ss(1) by simp
qed

section \<open>Refreshing\<close>

lemma RefreshToken_run:
  assumes "mem_inv (w_db w)" and "run_state (RefreshToken (memory_engine p) raw) w = (r, w')"
  shows "mem_inv (w_db w')" "w_ext w' = w_ext w" "w_tick w \<le> w_tick w'"
    "RefreshToken_spec {} ext_uuid_NewV7 (token_drawn (ep_gen p)) (ep_jwt p) raw (w_ext w) (w_tick w) (w_tick w')
       (db_of w) r (db_of w')"
  using engine_opD [OF mem.RefreshToken_meets assms(2,1)] by simp_all

lemma RefreshToken_rotates:
  assumes "mem_inv (w_db w)" and "run_state (RefreshToken (memory_engine p) raw) w = (Inr tk, w')"
  shows "\<exists>s i t t' n. v_sessions (db_of w) (s_ID s) = Some s \<and> s_TokenHash s = HashToken raw \<and> s_RevokedAt s = None \<and>
    drawn_between ext_uuid_NewV7 (w_ext w) (w_tick w) (w_tick w') i \<and>
    drawn_between (token_drawn (ep_gen p)) (w_ext w) (w_tick w) (w_tick w') (tk_RefreshToken tk) \<and>
    v_sessions (db_of w') = (v_sessions (db_of w))(s_ID s \<mapsto> s\<lparr>s_RevokedAt := Some t\<rparr>,
      i \<mapsto> \<lparr>s_ID = i, s_FamilyID = s_FamilyID s, s_UserID = s_UserID s, s_TokenHash = HashToken (tk_RefreshToken tk),
            s_IP = s_IP s, s_UserAgent = s_UserAgent s, s_CreatedAt = t', s_RevokedAt = None\<rparr>) \<and>
    v_users (db_of w') = v_users (db_of w) \<and> v_verifs (db_of w') = v_verifs (db_of w) \<and>
    ext_jwt_SignedString (w_ext w) SigningMethodHS256
      (access_claims (w_ext w) (ep_jwt p) (s_UserID s) (ext_now (w_ext w) n)) (ji_secret (ep_jwt p)) =
      Inr (tk_AccessToken tk) \<and>
    recorded (new_AuditEvent EventTokenRotated (s_UserID s) [] None) (v_events (db_of w)) (v_events (db_of w'))"
proof -
  from RefreshToken_run(4) [OF assms] obtain res v1 n where
    ok: "rotate_ok ext_uuid_NewV7 (token_drawn (ep_gen p)) (w_ext w) (w_tick w) (w_tick w') raw (db_of w) res None v1"
    and res: "rr_RawToken res = tk_RefreshToken tk"
      "ext_jwt_SignedString (w_ext w) SigningMethodHS256
        (access_claims (w_ext w) (ep_jwt p) (s_UserID (rr_Session res)) (ext_now (w_ext w) n)) (ji_secret (ep_jwt p)) =
        Inr (tk_AccessToken tk)"
      "audited {} (new_AuditEvent EventTokenRotated (s_UserID (rr_Session res)) [] None) v1 (db_of w')"
    by (auto simp: RefreshToken_spec_def)
  from ok obtain s i t t' where s: "stored_token (db_of w) raw s" "s_RevokedAt s = None"
    "rr_Session res = successor s i (rr_RawToken res)"
    "drawn_between (token_drawn (ep_gen p)) (w_ext w) (w_tick w) (w_tick w') (rr_RawToken res)"
    "drawn_between ext_uuid_NewV7 (w_ext w) (w_tick w) (w_tick w') i"
    "v1 = (db_of w)\<lparr>v_sessions := (v_sessions (db_of w))(s_ID s \<mapsto> s\<lparr>s_RevokedAt := Some t\<rparr>,
       i \<mapsto> (rr_Session res)\<lparr>s_CreatedAt := t'\<rparr>)\<rparr>"
    unfolding rotate_ok_def by blast
  have succ: "(successor s i (tk_RefreshToken tk))\<lparr>s_CreatedAt := t'\<rparr> =
      \<lparr>s_ID = i, s_FamilyID = s_FamilyID s, s_UserID = s_UserID s, s_TokenHash = HashToken (tk_RefreshToken tk),
       s_IP = s_IP s, s_UserAgent = s_UserAgent s, s_CreatedAt = t', s_RevokedAt = None\<rparr>"
    by (cases s) (simp add: successor_def)
  from audited_recorded [OF res(3)] show ?thesis
    by (intro exI [of _ s] exI [of _ i] exI [of _ t] exI [of _ t'] exI [of _ n])
      (use s res(1,2) in \<open>simp add: stored_token_def succ\<close>)
qed

text \<open>C20. A successful refresh rotates: the presented token belonged to an active session; that session is
  revoked, and one new session continues its family for the same user, address and agent, holding the hash
  of the returned refresh token; the access token is signed for that user and the rotation is recorded.
  Everything else is as before.\<close>

theorem refresh_rotates:
  assumes "mem_inv (w_db w)" and "run_state (RefreshToken (memory_engine p) raw) w = (Inr tk, w')"
  shows "\<exists>s i t t' n. v_sessions (db_of w) (s_ID s) = Some s \<and> s_TokenHash s = HashToken raw \<and> s_RevokedAt s = None \<and>
    drawn_between ext_uuid_NewV7 (w_ext w) (w_tick w) (w_tick w') i \<and>
    drawn_between (token_drawn (ep_gen p)) (w_ext w) (w_tick w) (w_tick w') (tk_RefreshToken tk) \<and>
    v_sessions (db_of w') = (v_sessions (db_of w))(s_ID s \<mapsto> s\<lparr>s_RevokedAt := Some t\<rparr>,
      i \<mapsto> \<lparr>s_ID = i, s_FamilyID = s_FamilyID s, s_UserID = s_UserID s, s_TokenHash = HashToken (tk_RefreshToken tk),
            s_IP = s_IP s, s_UserAgent = s_UserAgent s, s_CreatedAt = t', s_RevokedAt = None\<rparr>) \<and>
    v_users (db_of w') = v_users (db_of w) \<and> v_verifs (db_of w') = v_verifs (db_of w) \<and>
    ext_jwt_SignedString (w_ext w) SigningMethodHS256
      (access_claims (w_ext w) (ep_jwt p) (s_UserID s) (ext_now (w_ext w) n)) (ji_secret (ep_jwt p)) =
      Inr (tk_AccessToken tk) \<and>
    recorded (new_AuditEvent EventTokenRotated (s_UserID s) [] None) (v_events (db_of w)) (v_events (db_of w'))"
  using assms by (rule RefreshToken_rotates)

lemma Rotate_succeeds:
  assumes "stored_token v raw s" and "s_RevokedAt s = None" and "\<forall>s'. stored_token v raw s' \<longrightarrow> s' = s"
    and "\<And>e. \<not> failed_between d_id x k k' e" and "\<And>e. \<not> failed_between d_tok x k k' e"
  shows "\<not> Rotate_spec {} d_id d_tok x k k' raw v (res, Some e) v'"
proof -
  have "\<not> rotate_unknown {} raw v res (Some e) v'"
    using assms(1) by (auto simp: rotate_unknown_def stored_token_def)
  moreover have "\<not> rotate_reused {} raw v res (Some e) v'"
    using assms(2,3) by (auto simp: rotate_reused_def)
  moreover have "\<not> rotate_failed {} d_id d_tok x k k' raw v res (Some e) v'"
    using assms(4,5) by (simp add: rotate_failed_def)
  moreover have "\<not> rotate_ok d_id d_tok x k k' raw v res (Some e) v'" by (simp add: rotate_ok_def)
  ultimately show ?thesis by (simp add: Rotate_spec_def)
qed

lemma RefreshToken_succeeds:
  assumes "mem_inv (w_db w)" and "sources_work p (w_ext w)" and "stored_token (db_of w) raw s" and "s_RevokedAt s = None"
    and "\<forall>s'. stored_token (db_of w) raw s' \<longrightarrow> s' = s"
  shows "\<exists>tk w'. run_state (RefreshToken (memory_engine p) raw) w = (Inr tk, w')"
proof -
  obtain r w' where run: "run_state (RefreshToken (memory_engine p) raw) w = (r, w')" by fastforce
  have "r \<noteq> Inl e" for e
    using RefreshToken_run(4) [OF assms(1) run] sources_workD(3) [OF assms(2)]
      Rotate_succeeds [OF assms(3-5) sources_workD(1,2) [OF assms(2)]]
    by (auto simp: RefreshToken_spec_def)
  with run show ?thesis by (cases r) auto
qed

lemma sample_stored_token:
  "stored_token (mem_view (sample_db [sample_session i f raw t])) raw' s \<longleftrightarrow>
     s = sample_session i f raw t \<and> HashToken raw = HashToken raw'"
  by (cases "s = sample_session i f raw t") (auto simp: stored_token_def split: if_splits)

theorem refresh_rotates_witness:
  "\<exists>tk w'. run_state (RefreshToken (memory_engine sample_params) ''abc'')
      (sample_world (sample_db [sample_session ''s'' ''f'' ''abc'' None])) = (Inr tk, w') \<and>
     (\<exists>s. v_sessions (db_of w') ''s'' = Some s \<and> s_RevokedAt s \<noteq> None)"
proof -
  let ?w = "sample_world (sample_db [sample_session ''s'' ''f'' ''abc'' None])"
  obtain tk w' where run: "run_state (RefreshToken (memory_engine sample_params) ''abc'') ?w = (Inr tk, w')"
    using RefreshToken_succeeds [of ?w sample_params "''abc''" "sample_session ''s'' ''f'' ''abc'' None"]
    by (auto simp: sample_stored_token)
  from refresh_rotates [OF _ run] obtain s i t n where
    s: "v_sessions (db_of ?w) (s_ID s) = Some s" "v_sessions (db_of w') = (v_sessions (db_of ?w))(s_ID s \<mapsto> s\<lparr>s_RevokedAt := Some t\<rparr>, i \<mapsto> n)"
    "drawn_between ext_uuid_NewV7 sample_ext 1 (w_tick w') i"
    by auto
  from s(1) have "s_ID s = ''s''" by (auto split: if_splits)
  moreover have "i \<noteq> ''s''"
  proof
    assume "i = ''s''"
    with s(3) obtain k where "replicate k (CHR ''u'') = ''s''" by (auto simp: drawn_between_def)
    then show False by (cases k) auto
  qed
  ultimately show ?thesis using run s(2) by auto
qed

lemma RefreshToken_reused:
  assumes "mem_inv (w_db w)" and "run_state (RefreshToken (memory_engine p) raw) w = (r, w')"
    and "stored_token (db_of w) raw s" and "\<forall>s'. stored_token (db_of w) raw s' \<longrightarrow> s' = s"
    and "s_RevokedAt s \<noteq> None"
  shows "r = Inl ErrTokenReused \<and>
    (\<forall>i s'. v_sessions (db_of w') i = Some s' \<longrightarrow> s_FamilyID s' = s_FamilyID s \<longrightarrow> s_RevokedAt s' \<noteq> None) \<and>
    (\<forall>i s'. s_FamilyID s' \<noteq> s_FamilyID s \<longrightarrow>
       (v_sessions (db_of w') i = Some s' \<longleftrightarrow> v_sessions (db_of w) i = Some s')) \<and>
    v_users (db_of w') = v_users (db_of w) \<and> v_verifs (db_of w') = v_verifs (db_of w) \<and>
    recorded (new_AuditEvent EventTokenReuseDetected (s_UserID s) [] None) (v_events (db_of w)) (v_events (db_of w'))"
proof -
  have no_ok: "\<not> rotate_ok ext_uuid_NewV7 (token_drawn (ep_gen p)) (w_ext w) (w_tick w) (w_tick w') raw (db_of w) res err v1"
    for res err v1
    using assms(4,5) by (auto simp: rotate_ok_def)
  have no_fail: "\<not> rotate_failed {} ext_uuid_NewV7 (token_drawn (ep_gen p)) (w_ext w) (w_tick w) (w_tick w') raw (db_of w) res err v1"
    for res err v1
    using assms(4,5) by (auto simp: rotate_failed_def)
  have no_unknown: "\<not> rotate_unknown {} raw (db_of w) res err v1" for res err v1
    using assms(3) by (auto simp: rotate_unknown_def stored_token_def)
  from RefreshToken_run(4) [OF assms(1,2)] no_ok no_fail no_unknown obtain res e v1 where
    r: "r = Inl e" and reused: "rotate_reused {} raw (db_of w) res (Some e) v1"
    and v': "if e = ErrTokenReused
       then audited {} (new_AuditEvent EventTokenReuseDetected (s_UserID (rr_Session res)) [] None) v1 (db_of w')
       else db_of w' = v1"
    by (cases r) (auto simp: RefreshToken_spec_def Rotate_spec_def)
  from reused assms(4) obtain t where res: "e = ErrTokenReused" "rr_Session res = s"
    "v1 = (db_of w)\<lparr>v_sessions := revoke_where (\<lambda>s'. s_FamilyID s' = s_FamilyID s) t (v_sessions (db_of w))\<rparr>"
    by (auto simp: rotate_reused_def)
  have "recorded (new_AuditEvent EventTokenReuseDetected (s_UserID s) [] None) (v_events (db_of w)) (v_events (db_of w'))"
    "v_users (db_of w') = v_users (db_of w)" "v_verifs (db_of w') = v_verifs (db_of w)"
    "v_sessions (db_of w') = revoke_where (\<lambda>s'. s_FamilyID s' = s_FamilyID s) t (v_sessions (db_of w))"
    using audited_recorded [of "new_AuditEvent EventTokenReuseDetected (s_UserID s) [] None" v1 "db_of w'"] v' res
    by simp_all
  moreover have "s_RevokedAt s' \<noteq> None" if "v_sessions (db_of w') i = Some s'" "s_FamilyID s' = s_FamilyID s" for i s'
    using that revoke_where_active [of "\<lambda>s'. s_FamilyID s' = s_FamilyID s" t "v_sessions (db_of w)" i s']
    by (auto simp: calculation(4) active_def)
  moreover have "v_sessions (db_of w') i = Some s' \<longleftrightarrow> v_sessions (db_of w) i = Some s'"
    if "s_FamilyID s' \<noteq> s_FamilyID s" for i s'
    using that by (auto simp: calculation(4) revoke_where_def split: if_splits)
  ultimately show ?thesis using r res(1) by blast
qed

text \<open>C21. Presenting a refresh token whose session is already revoked (and whose hash no other session
  has) is answered with \<open>ErrTokenReused\<close>. Afterwards no session of the family is active, whatever it was
  before; sessions of other families, users and verification tokens are untouched, and the reuse is
  recorded for the owner.\<close>

theorem refresh_reuse_ends_the_family:
  assumes "mem_inv (w_db w)" and "run_state (RefreshToken (memory_engine p) raw) w = (r, w')"
    and "stored_token (db_of w) raw s" and "\<forall>s'. stored_token (db_of w) raw s' \<longrightarrow> s' = s"
    and "s_RevokedAt s \<noteq> None"
  shows "r = Inl ErrTokenReused \<and>
    (\<forall>i s'. v_sessions (db_of w') i = Some s' \<longrightarrow> s_FamilyID s' = s_FamilyID s \<longrightarrow> s_RevokedAt s' \<noteq> None) \<and>
    (\<forall>i s'. s_FamilyID s' \<noteq> s_FamilyID s \<longrightarrow>
       (v_sessions (db_of w') i = Some s' \<longleftrightarrow> v_sessions (db_of w) i = Some s')) \<and>
    v_users (db_of w') = v_users (db_of w) \<and> v_verifs (db_of w') = v_verifs (db_of w) \<and>
    recorded (new_AuditEvent EventTokenReuseDetected (s_UserID s) [] None) (v_events (db_of w)) (v_events (db_of w'))"
  using assms by (rule RefreshToken_reused)

theorem refresh_reuse_ends_the_family_witness:
  "\<exists>r w'. run_state (RefreshToken (memory_engine sample_params) ''abc'')
      (sample_world (sample_store [sample_user]
         [sample_session ''s'' ''f'' ''abc'' (Some 0), (sample_session ''s2'' ''f'' [] None)\<lparr>s_TokenHash := ''other''\<rparr>] [])) =
       (r, w') \<and>
     r = Inl ErrTokenReused \<and> (\<forall>s. v_sessions (db_of w') ''s2'' = Some s \<longrightarrow> s_FamilyID s = ''f'' \<longrightarrow> s_RevokedAt s \<noteq> None)"
proof -
  let ?s = "sample_session ''s'' ''f'' ''abc'' (Some 0)"
  let ?w = "sample_world (sample_store [sample_user] [?s, (sample_session ''s2'' ''f'' [] None)\<lparr>s_TokenHash := ''other''\<rparr>] [])"
  obtain r w' where run: "run_state (RefreshToken (memory_engine sample_params) ''abc'') ?w = (r, w')" by fastforce
  have "length (HashToken ''abc'') \<noteq> length ''other''" by simp
  then have "HashToken ''abc'' \<noteq> ''other''" by metis
  then have "stored_token (db_of ?w) ''abc'' s' \<longleftrightarrow> s' = ?s" for s'
    by (cases "s' = ?s") (auto simp: stored_token_def split: if_splits)
  then show ?thesis using refresh_reuse_ends_the_family [OF _ run, of ?s] run by simp
qed

text \<open>A refresh token that no session has is refused, and nothing is recorded or changed.\<close>

lemma RefreshToken_unknown:
  assumes "mem_inv (w_db w)" and "run_state (RefreshToken (memory_engine p) raw) w = (r, w')"
    and "\<forall>i s. v_sessions (db_of w) i = Some s \<longrightarrow> s_TokenHash s \<noteq> HashToken raw"
  shows "r = Inl ErrInvalidToken \<and> db_of w' = db_of w"
proof -
  have "\<not> stored_token (db_of w) raw s" for s using assms(3) by (auto simp: stored_token_def)
  with RefreshToken_run(4) [OF assms(1,2)] show ?thesis
    by (cases r) (auto simp: RefreshToken_spec_def Rotate_spec_def rotate_defs)
qed

end
