(* ===== verification/Email_Properties.thy ===== *)
theory Email_Properties
  imports Session_Properties
begin

text \<open>
  Properties of the two halves of an email change: what a request stores and sends, what a confirmation
  needs and does, and the two calls one after the other.
\<close>

section \<open>Requesting\<close>

lemma RequestEmailChange_run:
  assumes "mem_inv (w_db w)" and "ep_provider p = Some provider"
    and "run_state (cryden_RequestEmailChange (memory_engine p) uid email) w = (r, w')"
  shows "\<exists>mails. mem_inv (w_db w') \<and> w_ext w' = w_ext w \<and> w_tick w \<le> w_tick w' \<and> w_outbox w' = w_outbox w @ mails \<and>
    RequestEmailChange_spec {} id (provider_rejections provider) ext_uuid_NewV7 (token_drawn (ep_gen p)) uid email
      (w_ext w) (w_tick w) (w_tick w') (db_of w) r (db_of w') mails"
proof -
  have "run_state (RequestEmailChange mem_UserStore mem_VerificationStore (app_EmailSender provider)
      (CryptoRandTokenGenerator_TokenGenerator (ep_gen p)) UUIDv7Generator mem_AuditStore NewConsoleJSONLogger uid email) w = (r, w')"
    using assms(2,3) by (simp add: cryden_RequestEmailChange_def)
  from wpD [OF mem_email.RequestEmailChange_meets [OF assms(1)] this] show ?thesis by blast
qed

lemma RequestEmailChange_succeeds:
  assumes "mem_inv (w_db w)" and "sources_work p (w_ext w)" and "ep_provider p = Some provider"
    and "\<forall>k to tok. provider k to tok = None" and "\<not> email_taken (db_of w) email"
    and run: "run_state (cryden_RequestEmailChange (memory_engine p) uid email) w = (r, w')"
  shows "r = None"
proof -
  have "provider_rejections provider = {}" using assms(4) by (simp add: provider_rejections_def)
  with RequestEmailChange_run [OF assms(1,3) run] sources_workD(1,2) [OF assms(2)] assms(5) show ?thesis
    by (auto simp: RequestEmailChange_spec_def split: if_splits)
qed

text \<open>What a request stores: one verification token under an identifier drawn during the call, with the hash of \<open>raw\<close>.\<close>

definition change_stored :: "EngineParams \<Rightarrow> string \<Rightarrow> string \<Rightarrow> string \<Rightarrow> mem_world \<Rightarrow> mem_world \<Rightarrow> bool" where
  "change_stored p uid email raw w w' \<longleftrightarrow>
     drawn_between (token_drawn (ep_gen p)) (w_ext w) (w_tick w) (w_tick w') raw \<and>
     (\<exists>i n t. drawn_between ext_uuid_NewV7 (w_ext w) (w_tick w) (w_tick w') i \<and> w_tick w \<le> n \<and> n < w_tick w' \<and>
        v_verifs (db_of w') = (v_verifs (db_of w))(i \<mapsto> \<lparr>vt_ID = i, vt_UserID = uid, vt_Purpose = PurposeEmailChange,
          vt_TokenHash = HashToken raw, vt_NewEmail = email, vt_ExpiresAt = ext_now (w_ext w) n + 1 * time_Hour,
          vt_UsedAt = None, vt_CreatedAt = t\<rparr>))"

lemma change_storedI:
  assumes "drawn_between ext_uuid_NewV7 (w_ext w) (w_tick w) (w_tick w') i" and "w_tick w \<le> n" and "n < w_tick w'"
    and "drawn_between (token_drawn (ep_gen p)) (w_ext w) (w_tick w) (w_tick w') raw"
    and "v_verifs (db_of w') = v_verifs (put_verif (email_change_token i uid raw email (ext_now (w_ext w) n + changeEmailTokenTTL) t) (db_of w))"
  shows "change_stored p uid email raw w w'"
  using assms unfolding change_stored_def by (auto simp: put_verif_def email_change_token_def changeEmailTokenTTL_def)

text \<open>C31. A request never touches users or sessions. For an address that a user has it is answered with
  \<open>ErrUserExists\<close>, stores nothing and sends nothing. For a free address it succeeds whenever the sources of
  randomness work and the mail provider takes the mail; then exactly one mail has gone out, to the new address,
  carrying a token drawn during the call, exactly one verification token is stored, with the hash of the mailed token,
  the user, the new address and an expiry one hour after a reading of the clock, and the request is recorded. It fails
  only with an error of a source of randomness, and nothing is stored or sent, or with an error of the provider, and
  the token is stored but not sent.\<close>

theorem request_email_change_effect:
  assumes "mem_inv (w_db w)" and "ep_provider p = Some provider"
    and "run_state (cryden_RequestEmailChange (memory_engine p) uid email) w = (r, w')"
  shows "v_users (db_of w') = v_users (db_of w) \<and> v_sessions (db_of w') = v_sessions (db_of w) \<and>
    (if email_taken (db_of w) email
     then r = Some ErrUserExists \<and> db_of w' = db_of w \<and> w_outbox w' = w_outbox w
     else (sources_work p (w_ext w) \<longrightarrow> (\<forall>k to tok. provider k to tok = None) \<longrightarrow> r = None) \<and>
       (case r of
          None \<Rightarrow> (\<exists>raw. change_stored p uid email raw w w' \<and> w_outbox w' = w_outbox w @ [(email, raw)] \<and>
            recorded (new_AuditEvent EventEmailChangeRequested uid [] None) (v_events (db_of w)) (v_events (db_of w')))
        | Some err \<Rightarrow> w_outbox w' = w_outbox w \<and>
            (db_of w' = db_of w \<and> (failed_between ext_uuid_NewV7 (w_ext w) (w_tick w) (w_tick w') err \<or>
               failed_between (token_drawn (ep_gen p)) (w_ext w) (w_tick w) (w_tick w') err) \<or>
             (\<exists>k to tok. provider k to tok = Some err) \<and> (\<exists>raw. change_stored p uid email raw w w') \<and>
               v_events (db_of w') = v_events (db_of w))))"
proof -
  from RequestEmailChange_run [OF assms] obtain mails where mails: "w_outbox w' = w_outbox w @ mails" and
    spec: "RequestEmailChange_spec {} id (provider_rejections provider) ext_uuid_NewV7 (token_drawn (ep_gen p)) uid email
      (w_ext w) (w_tick w) (w_tick w') (db_of w) r (db_of w') mails"
    by blast
  have works: "r = None" if "sources_work p (w_ext w)" "\<forall>k to tok. provider k to tok = None" "\<not> email_taken (db_of w) email"
    by (rule RequestEmailChange_succeeds [OF assms(1) that(1) assms(2) that(2,3) assms(3)])
  show ?thesis
  proof (cases r)
    case (Some err)
    have stored: "\<exists>raw. change_stored p uid email raw w w'" if "drawn_between ext_uuid_NewV7 (w_ext w) (w_tick w) (w_tick w') i"
      "w_tick w \<le> n" "n < w_tick w'" "drawn_between (token_drawn (ep_gen p)) (w_ext w) (w_tick w) (w_tick w') raw"
      "db_of w' = put_verif (email_change_token i uid raw email (ext_now (w_ext w) n + changeEmailTokenTTL) t) (db_of w)" for i n raw t
      using change_storedI [OF that(1-4)] that(5) by auto
    from spec Some mails works sources_workD(1,2) [of p "w_ext w" "w_tick w" "w_tick w'" err] show ?thesis
      by (auto simp: RequestEmailChange_spec_def provider_rejections_def delivered_def put_verif_def dest: stored [unfolded put_verif_def])
  next
    case None
    with spec obtain i raw n t where tok: "\<not> email_taken (db_of w) email"
      "drawn_between ext_uuid_NewV7 (w_ext w) (w_tick w) (w_tick w') i"
      "drawn_between (token_drawn (ep_gen p)) (w_ext w) (w_tick w) (w_tick w') raw" "w_tick w \<le> n" "n < w_tick w'"
      "mails = delivered r email raw"
      and aud: "audited {} (new_AuditEvent EventEmailChangeRequested uid [] None)
        (put_verif (email_change_token i uid raw email (ext_now (w_ext w) n + changeEmailTokenTTL) t) (db_of w)) (db_of w')"
      unfolding RequestEmailChange_spec_def by auto
    note rec = audited_recorded [OF aud]
    from rec have "change_stored p uid email raw w w'" by (intro change_storedI [OF tok(2,4,5,3)]) simp
    with rec tok None mails show ?thesis by (auto simp: put_verif_def delivered_def)
  qed
qed

theorem request_email_change_effect_witness:
  "(\<exists>r w'. run_state (cryden_RequestEmailChange (memory_engine sample_params) ''u'' ''ann@x.org'')
      (sample_world (sample_db [])) = (r, w') \<and> r = Some ErrUserExists) \<and>
   (\<exists>r w' raw. run_state (cryden_RequestEmailChange (memory_engine sample_params) ''u'' ''new@x.org'')
      (sample_world (sample_db [])) = (r, w') \<and> r = None \<and> w_outbox w' = [(''new@x.org'', raw)] \<and>
      change_stored sample_params ''u'' ''new@x.org'' raw (sample_world (sample_db [])) w')"
proof -
  let ?w = "sample_world (sample_db [])"
  obtain r w' where taken: "run_state (cryden_RequestEmailChange (memory_engine sample_params) ''u'' ''ann@x.org'') ?w = (r, w')"
    by fastforce
  obtain r2 w2 where free: "run_state (cryden_RequestEmailChange (memory_engine sample_params) ''u'' ''new@x.org'') ?w = (r2, w2)"
    by fastforce
  have "r = Some ErrUserExists" using request_email_change_effect [OF _ _ taken] by simp
  moreover have "r2 = None" using request_email_change_effect [OF _ _ free] by simp
  moreover from this have "\<exists>raw. w_outbox w2 = [(''new@x.org'', raw)] \<and> change_stored sample_params ''u'' ''new@x.org'' raw ?w w2"
    using request_email_change_effect [OF _ _ free] by auto
  ultimately show ?thesis using taken free by blast
qed

text \<open>Without a verification store or an email sender the email change is off: a request, and without a
  store a confirmation too, is answered with \<open>ErrEmailChangeNotConfigured\<close> and nothing happens, whatever the
  engine is built on.\<close>

theorem email_change_not_configured:
  "en_verifications e = None \<or> en_emailSender e = None \<Longrightarrow>
     run_state (cryden_RequestEmailChange e uid email) w = (Some ErrEmailChangeNotConfigured, w) \<and>
     (en_verifications e = None \<longrightarrow>
        run_state (cryden_ConfirmEmailChange e raw) w = (Some ErrEmailChangeNotConfigured, w))"
  by (auto simp: cryden_RequestEmailChange_def cryden_ConfirmEmailChange_def split: option.splits)

theorem email_change_not_configured_witness:
  "run_state (cryden_RequestEmailChange (memory_engine (sample_params\<lparr>ep_provider := None\<rparr>)) ''u'' ''new@x.org'')
     (sample_world (sample_db [])) = (Some ErrEmailChangeNotConfigured, sample_world (sample_db []))"
  using email_change_not_configured [of "memory_engine (sample_params\<lparr>ep_provider := None\<rparr>)"] by simp

section \<open>Confirming\<close>

lemma ConfirmEmailChange_run:
  assumes "mem_inv (w_db w)" and "run_state (cryden_ConfirmEmailChange (memory_engine p) raw) w = (r, w')"
  shows "mem_inv (w_db w')" "w_ext w' = w_ext w" "w_tick w \<le> w_tick w'"
    "ConfirmEmailChange_spec {} raw (w_ext w) (w_tick w) (w_tick w') (db_of w) r (db_of w')"
proof -
  have "run_state (ConfirmEmailChange mem_UserStore mem_VerificationStore mem_AuditStore NewConsoleJSONLogger raw) w = (r, w')"
    using assms(2) by (simp add: cryden_ConfirmEmailChange_def)
  note op = engine_opD [OF mem_email.ConfirmEmailChange_meets this assms(1)]
  then show "mem_inv (w_db w')" "w_ext w' = w_ext w" "w_tick w \<le> w_tick w'"
    "ConfirmEmailChange_spec {} raw (w_ext w) (w_tick w) (w_tick w') (db_of w) r (db_of w')"
    by simp_all
qed

text \<open>The one verification token with the hash of a raw token.\<close>

definition verif_of :: "dbview \<Rightarrow> string \<Rightarrow> VerificationToken \<Rightarrow> bool" where
  "verif_of v raw vt \<longleftrightarrow> stored_verif v raw vt \<and> (\<forall>vt'. stored_verif v raw vt' \<longrightarrow> vt' = vt)"

text \<open>A confirmed change: the user has the new address, the token is used, the event recorded.\<close>

definition email_changed :: "VerificationToken \<Rightarrow> dbview \<Rightarrow> dbview \<Rightarrow> bool" where
  "email_changed vt v v' \<longleftrightarrow> (\<exists>u t t'. v_users v (vt_UserID vt) = Some u \<and>
     v_users v' = (v_users v)(vt_UserID vt \<mapsto> u\<lparr>u_Email := vt_NewEmail vt, u_UpdatedAt := t\<rparr>) \<and>
     v_verifs v' = (v_verifs v)(vt_ID vt \<mapsto> vt\<lparr>vt_UsedAt := Some t'\<rparr>) \<and> v_sessions v' = v_sessions v \<and>
     recorded (new_AuditEvent EventEmailChanged (vt_UserID vt) [] None) (v_events v) (v_events v'))"

text \<open>The clock is past the expiry, or not past it, at every reading the call can take.\<close>

definition fresh_throughout :: "mem_world \<Rightarrow> mem_world \<Rightarrow> VerificationToken \<Rightarrow> bool" where
  "fresh_throughout w w' vt \<longleftrightarrow> (\<forall>n. w_tick w \<le> n \<longrightarrow> n < w_tick w' \<longrightarrow> ext_now (w_ext w) n \<le> vt_ExpiresAt vt)"

definition expired_throughout :: "mem_world \<Rightarrow> mem_world \<Rightarrow> VerificationToken \<Rightarrow> bool" where
  "expired_throughout w w' vt \<longleftrightarrow> (\<forall>n. w_tick w \<le> n \<longrightarrow> n < w_tick w' \<longrightarrow> vt_ExpiresAt vt < ext_now (w_ext w) n)"

lemma ConfirmEmailChange_outcomes:
  assumes "mem_inv (w_db w)" and "run_state (cryden_ConfirmEmailChange (memory_engine p) raw) w = (r, w')"
    and "verif_of (db_of w) raw vt"
  obtains "r = Some ErrVerificationTokenInvalid" "db_of w' = db_of w" "vt_Purpose vt \<noteq> PurposeEmailChange \<or> vt_UsedAt vt \<noteq> None"
    | "r = Some ErrVerificationTokenExpired" "db_of w' = db_of w" "vt_Purpose vt = PurposeEmailChange" "vt_UsedAt vt = None"
      "\<not> fresh_throughout w w' vt"
    | "r = Some ErrNotFound" "db_of w' = db_of w" "vt_Purpose vt = PurposeEmailChange" "vt_UsedAt vt = None"
      "v_users (db_of w) (vt_UserID vt) = None" "\<not> expired_throughout w w' vt"
    | "r = None" "email_changed vt (db_of w) (db_of w')" "vt_Purpose vt = PurposeEmailChange" "vt_UsedAt vt = None"
      "\<not> expired_throughout w w' vt"
proof -
  have vt: "stored_verif (db_of w) raw vt" "stored_verif (db_of w) raw vt' \<Longrightarrow> vt' = vt" for vt'
    using assms(3) by (simp_all add: verif_of_def)
  note spec = ConfirmEmailChange_run(4) [OF assms(1,2)]
  show ?thesis
  proof (cases "confirm_refused {} raw (w_ext w) (w_tick w) (w_tick w') (db_of w) r (db_of w')")
    case True
    have "\<not> (\<forall>i vt. v_verifs (db_of w) i = Some vt \<longrightarrow> vt_TokenHash vt \<noteq> HashToken raw)"
      using vt(1) by (auto simp: stored_verif_def)
    with True obtain vt' where vt': "stored_verif (db_of w) raw vt'"
      "r = Some ErrVerificationTokenInvalid \<and> (vt_Purpose vt' \<noteq> PurposeEmailChange \<or> vt_UsedAt vt' \<noteq> None) \<or>
       vt_Purpose vt' = PurposeEmailChange \<and> vt_UsedAt vt' = None \<and>
         (\<exists>n. w_tick w \<le> n \<and> n < w_tick w' \<and>
           (r = Some ErrVerificationTokenExpired \<and> vt_ExpiresAt vt' < ext_now (w_ext w) n \<or>
            ext_now (w_ext w) n \<le> vt_ExpiresAt vt' \<and> r = Some ErrNotFound \<and> v_users (db_of w) (vt_UserID vt') = None))"
      and "db_of w' = db_of w"
      unfolding confirm_refused_def by (elim conjE disjE exE) auto
    from vt'(2) [unfolded vt(2) [OF vt'(1)]] this(3) that(1-3) show ?thesis
      unfolding fresh_throughout_def expired_throughout_def by (metis not_less)
  next
    case False
    with spec obtain vt' u n t v1 where ok: "r = None" "stored_verif (db_of w) raw vt'" "vt_Purpose vt' = PurposeEmailChange"
      "vt_UsedAt vt' = None" "w_tick w \<le> n" "n < w_tick w'" "ext_now (w_ext w) n \<le> vt_ExpiresAt vt'"
      "v_users (db_of w) (vt_UserID vt') = Some u"
      and mu: "marked_used {} vt' ((db_of w)\<lparr>v_users := (v_users (db_of w))(vt_UserID vt' \<mapsto>
        u\<lparr>u_Email := vt_NewEmail vt', u_UpdatedAt := t\<rparr>)\<rparr>) v1"
      and aud: "audited {} (new_AuditEvent EventEmailChanged (vt_UserID vt') [] None) v1 (db_of w')"
      unfolding ConfirmEmailChange_spec_def by blast
    have [simp]: "vt' = vt" by (rule vt(2) [OF ok(2)])
    from mu audited_recorded [OF aud] ok(8) have "email_changed vt (db_of w) (db_of w')"
      by (auto simp: email_changed_def marked_used_def put_verif_def)
    moreover have "\<not> expired_throughout w w' vt" using ok(5-7) by (auto simp: expired_throughout_def not_less)
    ultimately show ?thesis using ok that(4) by simp
  qed
qed

lemma Confirm_decides:
  assumes "mem_inv (w_db w)" and "run_state (cryden_ConfirmEmailChange (memory_engine p) raw) w = (r, w')"
    and "verif_of (db_of w) raw vt" and "fresh_throughout w w' vt \<or> expired_throughout w w' vt"
  shows "if vt_Purpose vt \<noteq> PurposeEmailChange \<or> vt_UsedAt vt \<noteq> None
       then r = Some ErrVerificationTokenInvalid \<and> db_of w' = db_of w
     else if \<not> fresh_throughout w w' vt then r = Some ErrVerificationTokenExpired \<and> db_of w' = db_of w
     else if v_users (db_of w) (vt_UserID vt) = None then r = Some ErrNotFound \<and> db_of w' = db_of w
     else r = None \<and> email_changed vt (db_of w) (db_of w')"
  using assms(1-3)
proof (cases rule: ConfirmEmailChange_outcomes)
  case 4
  then have "v_users (db_of w) (vt_UserID vt) \<noteq> None" by (auto simp: email_changed_def)
  with 4 assms(4) show ?thesis by simp
qed (use assms(4) in simp_all)

text \<open>C30. What a confirmation answers, for a token that one stored verification token has: \<open>ErrVerificationTokenInvalid\<close>
  for another purpose or a token already used, \<open>ErrVerificationTokenExpired\<close> past the expiry, \<open>ErrNotFound\<close>
  when the user is gone, and otherwise no error. Only the call without an error changes anything: it
  sets the user's address, marks the token used and records the change.\<close>

theorem confirm_email_change_decides:
  assumes "mem_inv (w_db w)" and "run_state (cryden_ConfirmEmailChange (memory_engine p) raw) w = (r, w')"
    and "verif_of (db_of w) raw vt" and "fresh_throughout w w' vt \<or> expired_throughout w w' vt"
  shows "if vt_Purpose vt \<noteq> PurposeEmailChange \<or> vt_UsedAt vt \<noteq> None
       then r = Some ErrVerificationTokenInvalid \<and> db_of w' = db_of w
     else if \<not> fresh_throughout w w' vt then r = Some ErrVerificationTokenExpired \<and> db_of w' = db_of w
     else if v_users (db_of w) (vt_UserID vt) = None then r = Some ErrNotFound \<and> db_of w' = db_of w
     else r = None \<and> email_changed vt (db_of w) (db_of w')"
  using assms by (rule Confirm_decides)

definition sample_verif :: VerificationToken where
  "sample_verif = email_change_token ''v'' ''u'' ''abc'' ''new@x.org'' (2000 * time_Second) 0"

lemma sample_verif_simps [simp]:
  "vt_ID sample_verif = ''v''" "vt_UserID sample_verif = ''u''" "vt_Purpose sample_verif = PurposeEmailChange"
  "vt_TokenHash sample_verif = HashToken ''abc''" "vt_NewEmail sample_verif = ''new@x.org''" "vt_UsedAt sample_verif = None"
  by (simp_all add: sample_verif_def email_change_token_def)

lemma sample_verif_of:
  "verif_of (mem_view (sample_store us ss [sample_verif])) ''abc'' sample_verif"
  by (auto simp: verif_of_def stored_verif_def split: if_splits)

lemma sample_fresh: "w_ext w = sample_ext \<Longrightarrow> fresh_throughout w w' sample_verif"
  by (simp add: fresh_throughout_def sample_verif_def email_change_token_def time_Second_def min_def)

theorem confirm_email_change_decides_witness:
  "\<exists>r w'. run_state (cryden_ConfirmEmailChange (memory_engine sample_params) ''abc'')
      (sample_world (sample_store [sample_user] [] [sample_verif])) = (r, w') \<and> r = None \<and>
     email_changed sample_verif (mem_view (sample_store [sample_user] [] [sample_verif])) (db_of w')"
proof -
  let ?w = "sample_world (sample_store [sample_user] [] [sample_verif])"
  obtain r w' where run: "run_state (cryden_ConfirmEmailChange (memory_engine sample_params) ''abc'') ?w = (r, w')"
    by fastforce
  from confirm_email_change_decides [OF _ run, of sample_verif] sample_verif_of sample_fresh [of ?w] run
  show ?thesis by simp
qed

section \<open>The two halves together\<close>

lemma verif_of_marked:
  assumes "verif_of v raw vt" and "v_verifs v' = (v_verifs v)(vt_ID vt \<mapsto> vt\<lparr>vt_UsedAt := t\<rparr>)"
  shows "verif_of v' raw (vt\<lparr>vt_UsedAt := t\<rparr>)"
  using assms by (auto simp: verif_of_def stored_verif_def split: if_splits)

lemma verif_of_new:
  assumes "\<forall>i vt. v_verifs v i = Some vt \<longrightarrow> vt_TokenHash vt \<noteq> HashToken raw"
    and "v_verifs v' = (v_verifs v)(vt_ID vt \<mapsto> vt)" and "vt_TokenHash vt = HashToken raw"
  shows "verif_of v' raw vt"
  using assms by (auto simp: verif_of_def stored_verif_def split: if_splits)

text \<open>C15. The mailed token confirms the change, once: after a request that returned no error, confirming with the
  token of its mail within the hour gives the user the new address, leaving all sessions and all other
  users as they are; confirming with it again is answered with \<open>ErrVerificationTokenInvalid\<close> and changes
  nothing. The hash of the new token is assumed to differ from those stored before.\<close>

theorem email_change_roundtrip:
  assumes "mem_inv (w_db w)" and "ep_provider p = Some provider"
    and "run_state (cryden_RequestEmailChange (memory_engine p) uid email) w = (None, w1)"
    and "raw = snd (last (w_outbox w1))"
    and "run_state (cryden_ConfirmEmailChange (memory_engine p) raw) w1 = (r, w2)"
    and "run_state (cryden_ConfirmEmailChange (memory_engine p) raw) w2 = (r', w3)"
    and "v_users (db_of w) uid = Some u"
    and "\<forall>i vt. v_verifs (db_of w) i = Some vt \<longrightarrow> vt_TokenHash vt \<noteq> HashToken raw"
    and "\<forall>n m. w_tick w \<le> n \<longrightarrow> n \<le> m \<longrightarrow> m < w_tick w2 \<longrightarrow> ext_now (w_ext w) m \<le> ext_now (w_ext w) n + 1 * time_Hour"
  shows "r = None \<and> (\<exists>t. v_users (db_of w2) = (v_users (db_of w))(uid \<mapsto> u\<lparr>u_Email := email, u_UpdatedAt := t\<rparr>)) \<and>
    v_sessions (db_of w2) = v_sessions (db_of w) \<and>
    r' = Some ErrVerificationTokenInvalid \<and> db_of w3 = db_of w2"
proof -
  from RequestEmailChange_run [OF assms(1-3)] obtain i raw' n t where
    w1: "mem_inv (w_db w1)" "w_ext w1 = w_ext w" "n < w_tick w1" "w_tick w \<le> n" "w_outbox w1 = w_outbox w @ [(email, raw')]"
    and aud: "audited {} (new_AuditEvent EventEmailChangeRequested uid [] None)
      (put_verif (email_change_token i uid raw' email (ext_now (w_ext w) n + changeEmailTokenTTL) t) (db_of w)) (db_of w1)"
    unfolding RequestEmailChange_spec_def delivered_def by auto
  define vt where "vt = email_change_token i uid raw' email (ext_now (w_ext w) n + changeEmailTokenTTL) t"
  have [simp]: "raw' = raw" using w1(5) assms(4) by simp
  have vt [simp]: "vt_UserID vt = uid" "vt_Purpose vt = PurposeEmailChange" "vt_UsedAt vt = None" "vt_NewEmail vt = email"
    "vt_TokenHash vt = HashToken raw" "vt_ExpiresAt vt = ext_now (w_ext w) n + 1 * time_Hour"
    by (simp_all add: vt_def email_change_token_def changeEmailTokenTTL_def)
  from audited_recorded [OF aud] have v1: "v_users (db_of w1) = v_users (db_of w)" "v_sessions (db_of w1) = v_sessions (db_of w)"
    "v_verifs (db_of w1) = (v_verifs (db_of w))(vt_ID vt \<mapsto> vt)"
    by (simp_all add: put_verif_def vt_def)
  have one: "verif_of (db_of w1) raw vt" by (rule verif_of_new [OF assms(8) v1(3) vt(5)])
  moreover have "fresh_throughout w1 w2 vt"
    using assms(9) w1(2-4) by (simp add: fresh_throughout_def)
  ultimately have c: "r = None" "email_changed vt (db_of w1) (db_of w2)"
    using Confirm_decides [OF w1(1) assms(5), of vt] v1(1) assms(7) by simp_all
  then obtain t1 t2 where v2: "v_users (db_of w2) = (v_users (db_of w1))(uid \<mapsto> u\<lparr>u_Email := email, u_UpdatedAt := t1\<rparr>)"
    "v_verifs (db_of w2) = (v_verifs (db_of w1))(vt_ID vt \<mapsto> vt\<lparr>vt_UsedAt := Some t2\<rparr>)"
    "v_sessions (db_of w2) = v_sessions (db_of w1)"
    using v1(1) assms(7) by (auto simp: email_changed_def)
  from ConfirmEmailChange_run(1) [OF w1(1) assms(5)] assms(6) verif_of_marked [OF one v2(2)]
  have "r' = Some ErrVerificationTokenInvalid \<and> db_of w3 = db_of w2"
    by (cases rule: ConfirmEmailChange_outcomes) simp_all
  with c(1) v1 v2 show ?thesis by auto
qed

theorem email_change_roundtrip_witness:
  "\<exists>w1 r w2. run_state (cryden_RequestEmailChange (memory_engine sample_params) ''u'' ''new@x.org'')
       (sample_world (sample_db [])) = (None, w1) \<and>
     run_state (cryden_ConfirmEmailChange (memory_engine sample_params) (snd (last (w_outbox w1)))) w1 = (r, w2) \<and>
     r = None \<and> (\<exists>u. v_users (db_of w2) ''u'' = Some u \<and> u_Email u = ''new@x.org'')"
proof -
  let ?w = "sample_world (sample_db [])"
  obtain r1 w1 where req: "run_state (cryden_RequestEmailChange (memory_engine sample_params) ''u'' ''new@x.org'') ?w = (r1, w1)"
    by fastforce
  have "r1 = None" by (rule RequestEmailChange_succeeds [OF _ _ _ _ _ req, of "\<lambda>k to tok. None"]) simp_all
  with req have run1: "run_state (cryden_RequestEmailChange (memory_engine sample_params) ''u'' ''new@x.org'') ?w = (None, w1)" by simp
  obtain r w2 where run2: "run_state (cryden_ConfirmEmailChange (memory_engine sample_params) (snd (last (w_outbox w1)))) w1 = (r, w2)"
    by fastforce
  obtain r' w3 where run3: "run_state (cryden_ConfirmEmailChange (memory_engine sample_params) (snd (last (w_outbox w1)))) w2 = (r', w3)"
    by fastforce
  have "int (min m 1000) * time_Second \<le> int (min n 1000) * time_Second + 1 * time_Hour" for m n
    by (simp add: time_Second_def time_Hour_def time_Minute_def min_def)
  with email_change_roundtrip [OF _ _ run1 refl run2 run3, of "\<lambda>k to tok. None" sample_user] run1 run2
  show ?thesis by auto
qed

text \<open>C32. Over the memory stores a confirmation does not look at the address again: when another user has
  taken it since the request, the confirmation succeeds all the same, and both users then have this
  address.\<close>

theorem confirm_allows_taken_address:
  assumes "mem_inv (w_db w)" and "run_state (cryden_ConfirmEmailChange (memory_engine p) raw) w = (r, w')"
    and "verif_of (db_of w) raw vt" and "vt_Purpose vt = PurposeEmailChange" and "vt_UsedAt vt = None"
    and "fresh_throughout w w' vt" and "v_users (db_of w) (vt_UserID vt) = Some u"
    and "v_users (db_of w) j = Some u'" and "j \<noteq> vt_UserID vt" and "u_Email u' = vt_NewEmail vt"
  shows "r = None \<and> (\<exists>a b. v_users (db_of w') (vt_UserID vt) = Some a \<and> v_users (db_of w') j = Some b \<and>
    u_Email a = u_Email b)"
  using Confirm_decides [OF assms(1-3)] assms(4-10) by (auto simp: email_changed_def)

theorem confirm_allows_taken_address_witness:
  "\<exists>r w'. run_state (cryden_ConfirmEmailChange (memory_engine sample_params) ''abc'')
      (sample_world (sample_store [sample_user, sample_user\<lparr>u_ID := ''j'', u_Email := ''new@x.org''\<rparr>] [] [sample_verif])) = (r, w') \<and>
     (\<exists>a b. v_users (db_of w') ''u'' = Some a \<and> v_users (db_of w') ''j'' = Some b \<and> u_Email a = u_Email b)"
proof -
  let ?w = "sample_world (sample_store [sample_user, sample_user\<lparr>u_ID := ''j'', u_Email := ''new@x.org''\<rparr>] [] [sample_verif])"
  obtain r w' where run: "run_state (cryden_ConfirmEmailChange (memory_engine sample_params) ''abc'') ?w = (r, w')"
    by fastforce
  from confirm_allows_taken_address [OF _ run, of sample_verif sample_user "''j''"] sample_verif_of sample_fresh [of ?w] run
  show ?thesis by simp
qed

end
