(* ===== verification/Lockout_Properties.thy ===== *)
theory Lockout_Properties
  imports Session_Properties
begin

text \<open>
  How many passwords can be guessed: the lockout of \<open>Login\<close> along a sequence of calls.
\<close>

section \<open>Guessing a password\<close>

text \<open>A sequence of logins for one address: the password, the caller's address and the agent of each.\<close>

fun after_logins :: "EngineParams \<Rightarrow> string \<Rightarrow> (string \<times> string \<times> string) list \<Rightarrow> mem_world \<Rightarrow> mem_world" where
  "after_logins p email [] w = w"
| "after_logins p email ((pw, ip, ua) # cs) w =
     after_logins p email cs (snd (run_state (cryden_Login (memory_engine p) email pw ip ua) w))"

fun logins_allowed :: "EngineParams \<Rightarrow> string \<Rightarrow> (string \<times> string \<times> string) list \<Rightarrow> mem_world \<Rightarrow> bool" where
  "logins_allowed p email [] w \<longleftrightarrow> True"
| "logins_allowed p email ((pw, ip, ua) # cs) w \<longleftrightarrow> limiter_allows w (login_key ip email) \<and>
     logins_allowed p email cs (snd (run_state (cryden_Login (memory_engine p) email pw ip ua) w))"

lemma account_of_put:
  assumes "account_of v email u" and "v_users v' = (v_users v)(u_ID u \<mapsto> u')" and "u_ID u' = u_ID u" and "u_Email u' = u_Email u"
  shows "account_of v' email u'"
  using assms unfolding account_of_def found_user_def by (metis fun_upd_apply option.inject)

lemma wrong_logins_count:
  assumes "mem_inv (w_db w)" and "account_of (db_of w) email u" and "u_LockedUntil u = None"
    and "\<forall>(pw, ip, ua) \<in> set cs. \<not> password_matches (w_ext w) (u_PasswordHash u) pw" and "logins_allowed p email cs w"
    and "0 \<le> u_FailedAttempts u" and "u_FailedAttempts u + int (length cs) \<le> ep_threshold p" and "ep_threshold p < 2 ^ 63"
    and "cs \<noteq> []"
  shows "\<exists>lock. mem_inv (w_db (after_logins p email cs w)) \<and> w_ext (after_logins p email cs w) = w_ext w \<and>
    w_tick w \<le> w_tick (after_logins p email cs w) \<and>
    account_of (db_of (after_logins p email cs w)) email
      (u\<lparr>u_FailedAttempts := u_FailedAttempts u + int (length cs), u_LockedUntil := lock\<rparr>) \<and>
    (if u_FailedAttempts u + int (length cs) < ep_threshold p then lock = None
     else \<exists>k. w_tick w \<le> k \<and> k < w_tick (after_logins p email cs w) \<and> lock = Some (ext_now (w_ext w) k + ep_duration p))"
  using assms
proof (induction cs arbitrary: w u)
  case (Cons c cs)
  obtain pw ip ua where c: "c = (pw, ip, ua)" by (cases c)
  obtain r w1 where run: "run_state (cryden_Login (memory_engine p) email pw ip ua) w = (r, w1)" by fastforce
  have frame: "mem_inv (w_db w1)" "w_ext w1 = w_ext w" "w_tick w \<le> w_tick w1"
    using engine_opD [OF mem.Login_meets run [unfolded cryden_Login_def] Cons.prems(1)] by simp_all
  let ?n = "u_FailedAttempts u + 1"
  have n: "wrap64 ?n = ?n" using Cons.prems(6-8) by (intro wrap64_id) simp_all
  have "unlocked_throughout w w1 u" using Cons.prems(3) by (simp add: unlocked_throughout_def)
  from Login_failure_counts [OF Cons.prems(1) _ Cons.prems(2) run this] Cons.prems(4,5) obtain lock where
    users: "v_users (db_of w1) = (v_users (db_of w))(u_ID u \<mapsto> u\<lparr>u_FailedAttempts := ?n, u_LockedUntil := lock\<rparr>)"
    and lock: "if ?n < ep_threshold p then lock = None
      else \<exists>k. w_tick w \<le> k \<and> k < w_tick w1 \<and> lock = Some (ext_now (w_ext w) k + ep_duration p)"
    by (auto simp: c n Cons.prems(3))
  let ?u1 = "u\<lparr>u_FailedAttempts := ?n, u_LockedUntil := lock\<rparr>"
  have acc: "account_of (db_of w1) email ?u1" by (rule account_of_put [OF Cons.prems(2) users]) simp_all
  show ?case
  proof (cases "cs = []")
    case True
    with frame acc lock show ?thesis by (intro exI [of _ lock]) (simp add: c run split: if_splits)
  next
    case False
    with Cons.prems(7) have below: "?n < ep_threshold p" by (cases cs) auto
    with lock have [simp]: "lock = None" by simp
    have "\<exists>lock. mem_inv (w_db (after_logins p email cs w1)) \<and> w_ext (after_logins p email cs w1) = w_ext w1 \<and>
      w_tick w1 \<le> w_tick (after_logins p email cs w1) \<and>
      account_of (db_of (after_logins p email cs w1)) email
        (?u1\<lparr>u_FailedAttempts := u_FailedAttempts ?u1 + int (length cs), u_LockedUntil := lock\<rparr>) \<and>
      (if u_FailedAttempts ?u1 + int (length cs) < ep_threshold p then lock = None
       else \<exists>k. w_tick w1 \<le> k \<and> k < w_tick (after_logins p email cs w1) \<and> lock = Some (ext_now (w_ext w1) k + ep_duration p))"
      by (rule Cons.IH [OF frame(1) acc]) (use Cons.prems frame False in \<open>auto simp: c run\<close>)
    then obtain lock' where IH: "mem_inv (w_db (after_logins p email cs w1))"
      "w_ext (after_logins p email cs w1) = w_ext w1" "w_tick w1 \<le> w_tick (after_logins p email cs w1)"
      "account_of (db_of (after_logins p email cs w1)) email
        (?u1\<lparr>u_FailedAttempts := u_FailedAttempts ?u1 + int (length cs), u_LockedUntil := lock'\<rparr>)"
      "if u_FailedAttempts ?u1 + int (length cs) < ep_threshold p then lock' = None
       else \<exists>k. w_tick w1 \<le> k \<and> k < w_tick (after_logins p email cs w1) \<and> lock' = Some (ext_now (w_ext w1) k + ep_duration p)"
      by blast
    have n': "u_FailedAttempts ?u1 + int (length cs) = u_FailedAttempts u + int (length (c # cs))" by simp
    have run': "after_logins p email (c # cs) w = after_logins p email cs w1" by (simp add: c run)
    show ?thesis
      unfolding run'
      by (intro exI [of _ lock'] conjI) (use IH [unfolded n' frame(2)] frame(3) in \<open>auto split: if_splits intro: le_trans\<close>)
  qed
qed simp

text \<open>C3. Guessing is bounded: after as many wrong passwords in a row as the threshold says, from any
  addresses, the account is locked, and any further login, even with the right password, is answered with
  \<open>ErrAccountLocked\<close> and changes nothing, as long as the clock has not moved past the readings during
  the guesses by the lockout duration.\<close>

theorem lockout_after_threshold:
  assumes "mem_inv (w_db w)" and "account_of (db_of w) email u" and "u_LockedUntil u = None" and "u_FailedAttempts u = 0"
    and "1 \<le> ep_threshold p" and "ep_threshold p < 2 ^ 63" and "int (length cs) = ep_threshold p"
    and "\<forall>(pw, ip, ua) \<in> set cs. \<not> password_matches (w_ext w) (u_PasswordHash u) pw" and "logins_allowed p email cs w"
    and "limiter_allows (after_logins p email cs w) (login_key ip email)"
    and "run_state (cryden_Login (memory_engine p) email pw ip ua) (after_logins p email cs w) = (r, w2)"
    and "\<forall>k j. w_tick w \<le> k \<longrightarrow> k \<le> j \<longrightarrow> j < w_tick w2 \<longrightarrow> ext_now (w_ext w) j < ext_now (w_ext w) k + ep_duration p"
  shows "r = Inl ErrAccountLocked \<and> db_of w2 = db_of (after_logins p email cs w)"
proof -
  let ?w1 = "after_logins p email cs w"
  from assms(5,7) have "cs \<noteq> []" by auto
  with wrong_logins_count [OF assms(1-3,8,9)] assms(4-7) obtain k where w1: "mem_inv (w_db ?w1)" "w_ext ?w1 = w_ext w"
    "w_tick w \<le> k" "k < w_tick ?w1"
    "account_of (db_of ?w1) email (u\<lparr>u_FailedAttempts := ep_threshold p, u_LockedUntil := Some (ext_now (w_ext w) k + ep_duration p)\<rparr>)"
    by auto
  have "locked_throughout ?w1 w2 (u\<lparr>u_FailedAttempts := ep_threshold p, u_LockedUntil := Some (ext_now (w_ext w) k + ep_duration p)\<rparr>)"
    using assms(12) w1(2-4) by (auto simp: locked_throughout_def)
  from Login_locked [OF w1(1) assms(10) w1(5) assms(11) this] show ?thesis .
qed

definition one_guess_params :: EngineParams where
  "one_guess_params = sample_params\<lparr>ep_threshold := 1, ep_duration := 60 * time_Minute\<rparr>"

lemma one_guess_simps [simp]:
  "ep_hasher one_guess_params = \<lparr>bh_Cost = 10\<rparr>" "ep_threshold one_guess_params = 1"
  "ep_duration one_guess_params = 60 * time_Minute"
  by (simp_all add: one_guess_params_def)

lemma sample_guess:
  "\<exists>r w1. run_state (cryden_Login (memory_engine (one_guess_params)) ''ann@x.org'' ''wrong'' ''10.0.0.1'' ''agent'')
     (sample_world (sample_db [])) = (r, w1) \<and> limiter_allows w1 (login_key ''10.0.0.2'' ''ann@x.org'')"
  by (simp add: cryden_Login_def Login_def rate_limited_def run_simps run_InMemoryRateLimiter_Allow Let_def login_checked_def login_verify_def mem_UserStore_def
    mem_UserStore_GetByEmail_def range_find_def range_order_def locked_now_def login_mismatch_def recordLoginFailure_def
    mem_AuditStore_def mem_AuditStore_Record_def Allow_at_def NewInMemoryRateLimiter_def BcryptHasher_Hasher_def BcryptHasher_Compare_def
    mem_UserStore_IncrementFailedAttempts_def mem_UserStore_LockAccount_def limiter_allows_def login_key_def
    NewConsoleJSONLogger_def run_ConsoleJSONLogger_write)

theorem lockout_after_threshold_witness:
  "\<exists>r w2. run_state (cryden_Login (memory_engine (one_guess_params)) ''ann@x.org'' ''pw'' ''10.0.0.2'' ''agent'')
      (after_logins (one_guess_params) ''ann@x.org'' [(''wrong'', ''10.0.0.1'', ''agent'')] (sample_world (sample_db []))) =
      (r, w2) \<and> r = Inl ErrAccountLocked"
proof -
  let ?p = "one_guess_params" and ?w = "sample_world (sample_db [])"
  let ?cs = "[(''wrong'', ''10.0.0.1'', ''agent'')]"
  have allowed: "limiter_allows (after_logins ?p ''ann@x.org'' ?cs ?w) (login_key ''10.0.0.2'' ''ann@x.org'')"
    using sample_guess by auto
  obtain r w2 where run: "run_state (cryden_Login (memory_engine ?p) ''ann@x.org'' ''pw'' ''10.0.0.2'' ''agent'')
      (after_logins ?p ''ann@x.org'' ?cs ?w) = (r, w2)" by fastforce
  have clock: "\<forall>k j. w_tick ?w \<le> k \<longrightarrow> k \<le> j \<longrightarrow> j < w_tick w2 \<longrightarrow> ext_now (w_ext ?w) j < ext_now (w_ext ?w) k + ep_duration ?p"
    by (auto simp: time_Second_def time_Minute_def min_def)
  have acc: "account_of (db_of ?w) ''ann@x.org'' sample_user" by simp
  have "r = Inl ErrAccountLocked \<and> db_of w2 = db_of (after_logins ?p ''ann@x.org'' ?cs ?w)"
    by (rule lockout_after_threshold [OF _ acc _ _ _ _ _ _ _ allowed run clock]) simp_all
  with run show ?thesis by blast
qed

end
