(* ===== verification/Sample_Digest.thy ===== *)
theory Sample_Digest
  imports Token
begin

text \<open>
  A second digest, for a token of 32 digits: it shows that two concrete refresh tokens have different
  hashes. Nothing here models the program.
\<close>

definition sample_token :: string where
  "sample_token = concat (replicate 16 ''04'')"

lemma sample_block:
  "words_be (sha_pad (string_bytes sample_token)) =
     [0x30343034, 0x30343034, 0x30343034, 0x30343034, 0x30343034, 0x30343034, 0x30343034, 0x30343034, 0x80000000, 0, 0, 0, 0, 0, 0, 0x100]"
  by code_simp

lemma sample_rounds:
  "sha_rounds sha_K [0x30343034, 0x30343034, 0x30343034, 0x30343034, 0x30343034, 0x30343034, 0x30343034, 0x30343034, 0x80000000, 0, 0, 0, 0, 0, 0, 0x100] sha_init =
    (0x8cfb2193, 0x6110aea2, 0xa62db6ae, 0xcd1c825b, 0xb661be7a, 0xb0ab97de, 0xe8dfbdc1, 0xf208ad12)"
  by (simp add: sha_K_def sha_K_table_def sha_init_def sha_eval del: sha_round.simps)

lemma sample_sum:
  "sha256_Sum256 (string_bytes sample_token) \<noteq> sha256_Sum256 (string_bytes ''abc'')"
proof -
  have "string_bytes ''abc'' = [0x61, 0x62, 0x63]" by (simp add: string_bytes_def)
  then have abc: "sha256_Sum256 (string_bytes ''abc'') =
    sha_digest (sha_compress sha_init [0x61626380, 0, 0, 0, 0, 0, 0, 0, 0, 0, 0, 0, 0, 0, 0, 0x18])"
    by (simp add: sha256_Sum256_def sha_abc_block)
  have tok: "sha256_Sum256 (string_bytes sample_token) =
    sha_digest (sha_compress sha_init [0x30343034, 0x30343034, 0x30343034, 0x30343034, 0x30343034, 0x30343034, 0x30343034, 0x30343034, 0x80000000, 0, 0, 0, 0, 0, 0, 0x100])"
    by (simp add: sha256_Sum256_def sample_block)
  show ?thesis
    unfolding abc tok
    by (simp add: sha_compress_def sha_abc_rounds [unfolded sha_init_def] sample_rounds [unfolded sha_init_def]
        sha_init_def bytes_be32_def)
qed

lemma sample_hashes_differ: "HashToken sample_token \<noteq> HashToken ''abc''"
  using sample_sum by (simp add: HashToken_eq_iff)

end
