(* ===== verification/Sample_Postgres.thy ===== *)
theory Sample_Postgres
  imports Sample_World Sample_Digest
begin

text \<open>
  A concrete database server and database, to show that the hypotheses of the theorems about Postgres can
  hold: no statement fails, the clock of the server stands still, and times are kept as they are.
\<close>

section \<open>Entropy that works once\<close>

definition sample_once_ext :: externals where
  "sample_once_ext = sample_ext\<lparr>ext_rand := (\<lambda>k. if k = 4 then Inr (\<lambda>i. 4) else Inl (ExternalError ''entropy''))\<rparr>"

lemma sample_once_ext_simps [simp]:
  "ext_rand sample_once_ext = (\<lambda>k. if k = 4 then Inr (\<lambda>i. 4) else Inl (ExternalError ''entropy''))"
  "ext_uuid_NewV7 sample_once_ext = ext_uuid_NewV7 sample_ext" "ext_now sample_once_ext = ext_now sample_ext"
  "ext_range sample_once_ext = ext_range sample_ext"
  "ext_bcrypt_CompareHashAndPassword sample_once_ext = ext_bcrypt_CompareHashAndPassword sample_ext"
  "ext_jwt_SignedString sample_once_ext = ext_jwt_SignedString sample_ext"
  "drawn_between ext_uuid_NewV7 sample_once_ext k k' i = drawn_between ext_uuid_NewV7 sample_ext k k' i"
  "unique_draws ext_uuid_NewV7 sample_once_ext = unique_draws ext_uuid_NewV7 sample_ext"
  by (simp_all add: sample_once_ext_def drawn_between_def unique_draws_def)

lemma sample_once_draws:
  "token_drawn (ep_gen sample_params) sample_once_ext i = Inr a \<longleftrightarrow> i = 4 \<and> a = sample_token"
proof -
  have "hex_EncodeToString (replicate 16 (4 :: 8 word)) = sample_token" by code_simp
  moreover have "map (\<lambda>i. 4) [0..<16] = replicate 16 (4 :: 8 word)" by (simp add: map_replicate_const)
  ultimately show ?thesis by (auto simp: token_drawn_def split: if_splits)
qed

section \<open>A server\<close>

definition sample_server :: pg_server where
  "sample_server = \<lparr>sv_fault = (\<lambda>n. None), sv_now = (\<lambda>n. 0), sv_gen_random_uuid = (\<lambda>n. replicate n (CHR ''e'')),
     sv_scan = (\<lambda>n. []), sv_round = id\<rparr>"

definition sample_tables :: "User list \<Rightarrow> Session list \<Rightarrow> verification_row list \<Rightarrow> PostgresDB" where
  "sample_tables us ss vs =
     \<lparr>pg_users = us, pg_sessions = ss, pg_verifs = vs, pg_events = [], pg_stmts = 0, pg_server = sample_server\<rparr>"

definition sample_pg :: "PostgresDB \<Rightarrow> pg_world" where
  "sample_pg d =
     \<lparr>w_db = d, w_limiter = NewInMemoryRateLimiter 10 time_Minute, w_stdout = [], w_outbox = [],
      w_ext = sample_once_ext, w_tick = 4\<rparr>"

lemma sample_pg_simps [simp]:
  "w_db (sample_pg d) = d" "w_ext (sample_pg d) = sample_once_ext" "w_tick (sample_pg d) = 4"
  by (simp_all add: sample_pg_def)

lemma sample_tables_simps [simp]:
  "pg_users (sample_tables us ss vs) = us" "pg_sessions (sample_tables us ss vs) = ss"
  "pg_verifs (sample_tables us ss vs) = vs" "pg_events (sample_tables us ss vs) = []"
  "pg_server (sample_tables us ss vs) = sample_server" "pg_stmts (sample_tables us ss vs) = 0"
  by (simp_all add: sample_tables_def)

lemma sample_tables_inv:
  assumes "distinct (map u_ID us)" "distinct (map u_Email us)" "distinct (map s_ID ss)" "distinct (map s_TokenHash ss)"
    "distinct (map vr_id vs)" "distinct (map vr_token_hash vs)" "s_UserID ` set ss \<subseteq> u_ID ` set us"
    "vr_user_id ` set vs \<subseteq> u_ID ` set us" "\<forall>u \<in> set us. u_FailedAttempts u = 0"
  shows "pg_inv id (sample_tables us ss vs)"
  using assms by (simp add: pg_inv_def sample_server_def)

definition sample_verif_row :: verification_row where
  "sample_verif_row = \<lparr>vr_id = ''v'', vr_user_id = ''u'', vr_purpose = PurposeEmailChange, vr_token_hash = HashToken ''abc'',
     vr_new_email = Some ''new@x.org'', vr_expires_at = 10000 * time_Second, vr_used_at = None, vr_created_at = 0\<rparr>"

end
