(* ===== verification/Postgres_Properties.thy ===== *)
theory Postgres_Properties
  imports Sample_Postgres
begin

text \<open>
  What holds of the engine over Postgres: the constraints of the schema and the invariants of the runs,
  whatever statement the server fails; and how the two backends differ.
\<close>

section \<open>The transaction of a rotation\<close>

text \<open>C8. \<open>RotateToken\<close> over Postgres is all or nothing, whichever of its statements fails: an error leaves every
  table as it was, and success means that the old session was active, is now revoked, and that the new
  session is stored, with nothing else changed.\<close>

theorem postgres_rotation_atomic:
  assumes "pg_inv rnd (w_db w)" and "s_RevokedAt n = None" and "run_state (pg_SessionStore_RotateToken i n) w = (r, w')"
  shows "case r of
      Some err \<Rightarrow> \<exists>k. w' = w\<lparr>w_db := (w_db w)\<lparr>pg_stmts := k\<rparr>\<rparr>
    | None \<Rightarrow> pg_inv rnd (w_db w') \<and> (\<exists>s t t'. v_sessions (pg_view (w_db w)) i = Some s \<and> s_RevokedAt s = None \<and>
        pg_view (w_db w') = (pg_view (w_db w))\<lparr>v_sessions := (v_sessions (pg_view (w_db w)))
          (i \<mapsto> s\<lparr>s_RevokedAt := Some t\<rparr>, s_ID n \<mapsto> n\<lparr>s_CreatedAt := t'\<rparr>)\<rparr>)"
proof (cases r)
  case None
  note op = db_opD [OF RotateToken_op [OF assms(2)] assms(3,1)]
  from RotateToken_needs_active [OF assms(1)] assms(3) None obtain s where
    s: "v_sessions (pg_view (w_db w)) i = Some s" "s_RevokedAt s = None" by blast
  with op(3) None obtain t t' where "pg_view (w_db w') = (pg_view (w_db w))\<lparr>v_sessions := (v_sessions (pg_view (w_db w)))
      (i \<mapsto> s\<lparr>s_RevokedAt := Some t\<rparr>, s_ID n \<mapsto> n\<lparr>s_CreatedAt := t'\<rparr>)\<rparr>"
    by (auto simp: session_RotateToken_spec_def fault_option_def)
  with op(1) s None show ?thesis by auto
next
  case (Some err)
  with RotateToken_rolls_back assms(3) show ?thesis by simp
qed

theorem postgres_rotation_atomic_witness:
  "\<exists>w'. run_state (pg_SessionStore_RotateToken ''uu'' (sample_session ''n'' ''uu'' ''n'' None))
      (sample_pg (sample_tables [sample_user] [sample_session ''uu'' ''uu'' ''abc'' (Some 0)] [])) = (Some ErrNotFound, w') \<and>
     pg_sessions (w_db w') = [sample_session ''uu'' ''uu'' ''abc'' (Some 0)]"
proof -
  let ?w = "sample_pg (sample_tables [sample_user] [sample_session ''uu'' ''uu'' ''abc'' (Some 0)] [])"
  obtain w' where run: "run_state (pg_SessionStore_RotateToken ''uu'' (sample_session ''n'' ''uu'' ''n'' None)) ?w = (Some ErrNotFound, w')"
    by (simp add: pg_SessionStore_RotateToken_def pg_stmt_def Let_def sample_server_def revoke_sessions_def affected_def
        checkRowsAffected_def tx_Rollback_def)
  have "pg_inv id (w_db ?w)" by (simp add: sample_tables_inv)
  from postgres_rotation_atomic [OF this _ run] run show ?thesis by auto
qed

section \<open>Rows\<close>

lemma session_row: "pg_inv rnd d \<Longrightarrow> s \<in> set (pg_sessions d) \<longleftrightarrow> v_sessions (pg_view d) (s_ID s) = Some s"
  by (simp add: keyed_Some [OF pg_invD(3)])

lemma user_row: "pg_inv rnd d \<Longrightarrow> u \<in> set (pg_users d) \<longleftrightarrow> v_users (pg_view d) (u_ID u) = Some u"
  by (simp add: keyed_Some [OF pg_invD(1)])

lemma user_ids: "u_ID ` set (pg_users d) = dom (v_users (pg_view d))"
  using keyed_None [of u_ID "pg_users d"] by (auto simp: dom_def)

lemma pg_distinct_hashes:
  assumes "pg_inv rnd d"
  shows "distinct_hashes (v_sessions (pg_view d))"
  unfolding distinct_hashes_def
proof (intro allI impI)
  fix i s j s' assume s: "v_sessions (pg_view d) i = Some s" "v_sessions (pg_view d) j = Some s'" "s_TokenHash s = s_TokenHash s'"
  then have rows: "s \<in> set (pg_sessions d)" "s' \<in> set (pg_sessions d)" "s_ID s = i" "s_ID s' = j"
    by (auto dest!: keyed_key)
  then have "s = s'" using s(3) pg_invD(4) [OF assms] by (metis distinct_map inj_on_eq_iff)
  with rows show "i = j" by simp
qed

lemma verif_row:
  assumes "pg_inv rnd d" and "v_verifs (pg_view d) i = Some vt" and "v_verifs (pg_view d) j = Some vt'"
    and "vt_TokenHash vt = vt_TokenHash vt'"
  shows "vt_ID vt = i \<and> vt = vt'"
proof -
  from assms(2,3) obtain r r' where r: "r \<in> set (pg_verifs d)" "vr_id r = i" "vt = scan_verification r"
    and r': "r' \<in> set (pg_verifs d)" "vt' = scan_verification r'"
    by (auto dest!: keyed_key)
  with assms(4) have "vr_token_hash r = vr_token_hash r'" by (simp add: scan_verification_def)
  with r r' have "r = r'" using pg_invD(6) [OF assms(1)] by (metis distinct_map inj_on_eq_iff)
  with r r' show ?thesis by (simp add: scan_verification_def)
qed

section \<open>Runs\<close>

abbreviation pg_steps :: "EngineParams \<Rightarrow> pg_world \<Rightarrow> pg_world \<Rightarrow> bool" where
  "pg_steps p \<equiv> (call (postgres_engine p))\<^sup>*\<^sup>*"

text \<open>C17. Over Postgres too a refresh token is exchanged once: after a successful exchange and any calls, the same
  token is refused, with \<open>ErrTokenReused\<close> and no active session left in its family, with \<open>ErrInvalidToken\<close>, or
  with an error of the server. That the stored hashes are distinct is no hypothesis here, the schema sees to it.\<close>

theorem postgres_refresh_token_single_use:
  assumes "run_ok (pg_inv rnd) pg_view w"
    and "run_state (RefreshToken (postgres_engine p) raw) w = (Inr tk, w1)" and "pg_steps p w1 w2"
    and "run_state (RefreshToken (postgres_engine p) raw) w2 = (r, w3)"
    and "new_hashes (token_drawn (ep_gen p)) (w_ext w) (w_tick w) (w_tick w2) (hashes (v_sessions (pg_view (w_db w))))"
  shows "\<exists>s \<in> set (pg_sessions (w_db w)). s_TokenHash s = HashToken raw \<and>
    (r = Inl ErrTokenReused \<and>
       (\<forall>s' \<in> set (pg_sessions (w_db w3)). s_FamilyID s' = s_FamilyID s \<longrightarrow> s_RevokedAt s' \<noteq> None) \<or>
     r = Inl ErrInvalidToken \<and> pg_view (w_db w3) = pg_view (w_db w2) \<or>
     (\<exists>msg. r = Inl (ExternalError msg) \<and> set (pg_sessions (w_db w3)) = set (pg_sessions (w_db w2))))"
proof -
  note inv = run_okD(1) [OF assms(1)]
  have "pg_steps p w w2" using assms(3) step_RefreshToken [OF assms(2)] by (rule converse_rtranclp_into_rtranclp [rotated])
  from pg_runs.calls_run [OF this assms(1)] have inv2: "pg_inv rnd (w_db w2)" using run_okD(1) by blast
  have inv3: "pg_inv rnd (w_db w3)" by (rule engine_opD(1) [OF pg.RefreshToken_meets assms(4) inv2])
  obtain s where s: "stored_token (pg_view (w_db w)) raw s" and r: "r = Inl ErrTokenReused \<and>
       (\<forall>i s'. v_sessions (pg_view (w_db w3)) i = Some s' \<longrightarrow> s_FamilyID s' = s_FamilyID s \<longrightarrow> s_RevokedAt s' \<noteq> None) \<or>
     r = Inl ErrInvalidToken \<and> pg_view (w_db w3) = pg_view (w_db w2) \<or>
     (\<exists>err \<in> pg_faults. r = Inl err \<and> v_sessions (pg_view (w_db w3)) = v_sessions (pg_view (w_db w2)))"
    using pg_runs.single_use [OF assms(1) pg_distinct_hashes [OF inv] assms(2-5)] by (elim exE conjE) (rule that)
  have "s \<in> set (pg_sessions (w_db w))" "s_TokenHash s = HashToken raw"
    using s session_row [OF inv] by (simp_all add: stored_token_def)
  moreover have "set (pg_sessions (w_db w3)) = set (pg_sessions (w_db w2))"
    if "v_sessions (pg_view (w_db w3)) = v_sessions (pg_view (w_db w2))"
    using that by (intro set_eqI) (simp only: session_row [OF inv2] session_row [OF inv3])
  moreover have "s_RevokedAt s' \<noteq> None" if "s' \<in> set (pg_sessions (w_db w3))" "s_FamilyID s' = s_FamilyID s"
    "\<forall>i s'. v_sessions (pg_view (w_db w3)) i = Some s' \<longrightarrow> s_FamilyID s' = s_FamilyID s \<longrightarrow> s_RevokedAt s' \<noteq> None" for s'
    using session_row [OF inv3, of s'] that by blast
  ultimately show ?thesis
    using r by (elim disjE bexE) (auto simp: pg_faults_def)
qed

lemma sample_pg_ok:
  "run_ok (pg_inv id) pg_view (sample_pg (sample_tables [sample_user] [sample_session ''uu'' ''uu'' ''abc'' None] []))"
  by (auto simp: run_ok_def sample_tables_inv sample_unique sample_drawn session_inv_def keyed_def split: if_splits)

lemma sample_pg_hashes:
  fixes w :: pg_world
  defines "w \<equiv> sample_pg (sample_tables [sample_user] [sample_session ''uu'' ''uu'' ''abc'' None] [])"
  shows "new_hashes (token_drawn (ep_gen sample_params)) (w_ext w) (w_tick w) K (hashes (v_sessions (pg_view (w_db w))))"
proof -
  have "hashes (v_sessions (pg_view (w_db w))) = {HashToken ''abc''}" by (auto simp: w_def hashes_def ran_def keyed_def)
  then show ?thesis unfolding new_hashes_def using sample_hashes_differ sample_once_draws by (simp add: w_def)
qed

theorem postgres_refresh_token_single_use_witness:
  "\<exists>tk w1 r w2. run_state (RefreshToken (postgres_engine sample_params) ''abc'')
       (sample_pg (sample_tables [sample_user] [sample_session ''uu'' ''uu'' ''abc'' None] [])) = (Inr tk, w1) \<and>
     run_state (RefreshToken (postgres_engine sample_params) ''abc'') w1 = (r, w2) \<and> (\<forall>tk'. r \<noteq> Inr tk')"
proof -
  let ?w = "sample_pg (sample_tables [sample_user] [sample_session ''uu'' ''uu'' ''abc'' None] [])"
  have tok: "token_drawn \<lparr>cr_ByteLength = 16\<rparr> sample_once_ext 4 = Inr sample_token"
    using sample_once_draws [of 4 sample_token] by simp
  have new_id: "replicate 5 (CHR ''u'') \<noteq> ''uu''" by (simp add: numeral_eq_Suc)
  obtain tk w1 where run1: "run_state (RefreshToken (postgres_engine sample_params) ''abc'') ?w = (Inr tk, w1)"
    by (simp add: RefreshToken_def refresh_answer_def Rotate_def rotate_found_def pg_SessionStore_def pg_SessionStore_GetByTokenHash_def pg_SessionStore_scanOne_def
        pg_SessionStore_RotateToken_def select_row_def find_row_def range_order_def pg_stmt_def sample_server_def Let_def
        row_or_not_found_def revoke_sessions_def affected_def update_where_def checkRowsAffected_def insert_session_def
        CryptoRandTokenGenerator_TokenGenerator_def run_CryptoRandTokenGenerator_New tok new_id sample_hashes_differ
        UUIDv7Generator_def UUIDv7Generator_New_def run_JWTIssuer_Issue run_simps
        pg_AuditStore_def pg_AuditStore_Record_def insert_audit_event_def exec_error_def null_string_def)
  obtain r w2 where run2: "run_state (RefreshToken (postgres_engine sample_params) ''abc'') w1 = (r, w2)" by fastforce
  show ?thesis
    using postgres_refresh_token_single_use [OF sample_pg_ok run1 rtranclp.rtrancl_refl run2 sample_pg_hashes] run1 run2 by blast
qed

section \<open>Deleting an account\<close>

text \<open>What the statements of a deletion do to the rows.\<close>

lemma reconfirm_rows:
  assumes "run_state (reconfirm pg_UserStore (BcryptHasher_Hasher h) NewConsoleJSONLogger msg uid current) w = (r, w')"
  shows "\<exists>k. w_db w' = (w_db w)\<lparr>pg_stmts := k\<rparr>"
    and "r = None \<Longrightarrow> \<exists>u \<in> set (pg_users (w_db w)). u_ID u = uid \<and> password_matches (w_ext w) (u_PasswordHash u) current"
proof -
  let ?n = "pg_stmts (w_db w)"
  show "\<exists>k. w_db w' = (w_db w)\<lparr>pg_stmts := k\<rparr>"
    using assms
    by (auto simp: reconfirm_def pg_UserStore_def pg_UserStore_GetByID_def select_row_def pg_stmt_def Let_def row_or_not_found_def
        BcryptHasher_Hasher_def BcryptHasher_Compare_def NewConsoleJSONLogger_def run_ConsoleJSONLogger_write run_simps
        split: option.splits if_splits)
  show "\<exists>u \<in> set (pg_users (w_db w)). u_ID u = uid \<and> password_matches (w_ext w) (u_PasswordHash u) current" if "r = None"
    using assms that
    by (auto simp: reconfirm_def pg_UserStore_def pg_UserStore_GetByID_def select_row_def pg_stmt_def Let_def row_or_not_found_def
        BcryptHasher_Hasher_def BcryptHasher_Compare_def NewConsoleJSONLogger_def run_ConsoleJSONLogger_write run_simps password_matches_def
        dest!: find_row_Some split: option.splits if_splits)
qed

lemma revoke_all_rows:
  assumes "run_state (pg_SessionStore_RevokeAllForUser uid) w = (r, w')"
  shows "\<exists>ss k. w_db w' = (w_db w)\<lparr>pg_sessions := ss, pg_stmts := k\<rparr> \<and>
    filter (\<lambda>s. s_UserID s \<noteq> uid) ss = filter (\<lambda>s. s_UserID s \<noteq> uid) (pg_sessions (w_db w))"
proof -
  have others: "filter (\<lambda>s. s_UserID s \<noteq> uid) (update_where (\<lambda>s. s_UserID s = uid \<and> s_RevokedAt s = None) f ss) =
      filter (\<lambda>s. s_UserID s \<noteq> uid) ss" if "\<And>s. s_UserID (f s) = s_UserID s" for f ss
    using that by (induction ss) (auto simp: update_where_def)
  let ?d = "w_db w"
  let ?ss = "update_where (\<lambda>s. s_UserID s = uid \<and> s_RevokedAt s = None)
    (\<lambda>s. s\<lparr>s_RevokedAt := Some (sv_now (pg_server ?d) (pg_stmts ?d))\<rparr>) (pg_sessions ?d)"
  from assms have "w_db w' = ?d\<lparr>pg_sessions := ?ss, pg_stmts := Suc (pg_stmts ?d)\<rparr> \<or>
      w_db w' = ?d\<lparr>pg_sessions := pg_sessions ?d, pg_stmts := Suc (pg_stmts ?d)\<rparr>"
    by (auto simp: pg_SessionStore_RevokeAllForUser_def pg_stmt_def Let_def revoke_sessions_def run_simps split: option.splits)
  moreover have "filter (\<lambda>s. s_UserID s \<noteq> uid) ?ss = filter (\<lambda>s. s_UserID s \<noteq> uid) (pg_sessions ?d)" by (rule others) simp
  ultimately show ?thesis by blast
qed

lemma record_rows:
  assumes "run_state (pg_AuditStore_Record ev) w = (r, w')"
  shows "\<exists>es k. w_db w' = (w_db w)\<lparr>pg_events := pg_events (w_db w) @ es, pg_stmts := k\<rparr> \<and> length es \<le> 1 \<and>
    (\<forall>e \<in> set es. au_type e = ev_Type ev \<and> au_user_id e = null_string (ev_UserID ev)) \<and>
    ((\<forall>n. sv_fault (pg_server (w_db w)) n = None \<and> sv_gen_random_uuid (pg_server (w_db w)) n \<notin> au_id ` set (pg_events (w_db w))) \<longrightarrow>
       ev_UserID ev \<in> u_ID ` set (pg_users (w_db w)) \<longrightarrow> length es = 1)"
proof -
  let ?d = "w_db w"
  let ?n = "pg_stmts ?d"
  let ?e = "\<lparr>au_id = sv_gen_random_uuid (pg_server ?d) ?n, au_type = ev_Type ev, au_user_id = null_string (ev_UserID ev),
    au_ip = ev_IP ev, au_metadata = ev_Metadata ev, au_created_at = sv_now (pg_server ?d) ?n\<rparr>"
  show ?thesis
  proof (cases "w_db w' = ?d\<lparr>pg_events := pg_events ?d @ [?e], pg_stmts := Suc ?n\<rparr>")
    case True
    then show ?thesis by (intro exI [of _ "[?e]"] exI [of _ "Suc ?n"]) simp
  next
    case False
    with assms have "w_db w' = ?d\<lparr>pg_stmts := Suc ?n\<rparr> \<and> (sv_fault (pg_server ?d) ?n \<noteq> None \<or>
        sv_gen_random_uuid (pg_server ?d) ?n \<in> au_id ` set (pg_events ?d) \<or> ev_UserID ev \<notin> u_ID ` set (pg_users ?d))"
      by (auto simp: pg_AuditStore_Record_def pg_stmt_def Let_def insert_audit_event_def null_string_def run_simps
          split: option.splits if_splits)
    then show ?thesis by (intro exI [of _ "[]"] exI [of _ "Suc ?n"]) auto
  qed
qed

lemma delete_rows:
  assumes "run_state (pg_UserStore_Delete uid) w = (None, w')"
  shows "\<exists>k. w_db w' = (w_db w)\<lparr>pg_users := filter (\<lambda>u. u_ID u \<noteq> uid) (pg_users (w_db w)),
    pg_sessions := filter (\<lambda>s. s_UserID s \<noteq> uid) (pg_sessions (w_db w)), pg_verifs := filter (\<lambda>r. vr_user_id r \<noteq> uid) (pg_verifs (w_db w)),
    pg_events := map (\<lambda>r. if au_user_id r = Some uid then r\<lparr>au_user_id := None\<rparr> else r) (pg_events (w_db w)), pg_stmts := k\<rparr>"
proof -
  from assms have "affected (\<lambda>u. u_ID u = uid) (pg_users (w_db w)) \<noteq> 0"
    by (auto simp: pg_UserStore_Delete_def pg_stmt_def Let_def delete_user_def checkRowsAffected_def run_simps split: option.splits if_splits)
  then have "uid \<in> u_ID ` set (pg_users (w_db w))" by (auto simp: affected_zero)
  with assms show ?thesis
    by (auto simp: pg_UserStore_Delete_def pg_stmt_def Let_def delete_user_def checkRowsAffected_def update_where_def run_simps
        split: option.splits if_splits)
qed

lemma delete_confirmed_rows:
  assumes "run_state (delete_confirmed pg_UserStore pg_SessionStore pg_AuditStore NewConsoleJSONLogger uid) w = (None, w')"
    and "uid \<in> u_ID ` set (pg_users (w_db w))"
  shows "\<exists>new. pg_users (w_db w') = filter (\<lambda>u. u_ID u \<noteq> uid) (pg_users (w_db w)) \<and>
    pg_sessions (w_db w') = filter (\<lambda>s. s_UserID s \<noteq> uid) (pg_sessions (w_db w)) \<and>
    pg_verifs (w_db w') = filter (\<lambda>r. vr_user_id r \<noteq> uid) (pg_verifs (w_db w)) \<and>
    pg_events (w_db w') = map (\<lambda>r. if au_user_id r = Some uid then r\<lparr>au_user_id := None\<rparr> else r) (pg_events (w_db w)) @ new \<and>
    length new \<le> 1 \<and> (\<forall>r \<in> set new. au_type r = EventAccountDeleted \<and> au_user_id r = None) \<and>
    ((\<forall>n. sv_fault (pg_server (w_db w)) n = None \<and> sv_gen_random_uuid (pg_server (w_db w)) n \<notin> au_id ` set (pg_events (w_db w))) \<longrightarrow>
       length new = 1)"
proof -
  let ?log = "\<lambda>msg err. case err of None \<Rightarrow> State_Monad.return ()
    | Some err \<Rightarrow> lg_Error NewConsoleJSONLogger msg [(''error'', error_Error err), (''user_id'', uid)]"
  have log: "w_db (snd (run_state (?log msg err) w)) = w_db w" for msg err and w :: pg_world
    by (cases err) (simp_all add: NewConsoleJSONLogger_def run_ConsoleJSONLogger_write)
  let ?ev = "new_AuditEvent EventAccountDeleted uid [] None"
  obtain r1 w1 where 1: "run_state (pg_SessionStore_RevokeAllForUser uid) w = (r1, w1)" by fastforce
  let ?w1 = "snd (run_state (?log ''delete account: session revocation failed'' r1) w1)"
  obtain r2 w2 where 2: "run_state (pg_AuditStore_Record ?ev) ?w1 = (r2, w2)" by fastforce
  let ?w2 = "snd (run_state (?log ''delete account: audit record failed'' r2) w2)"
  obtain r3 w3 where 3: "run_state (pg_UserStore_Delete uid) ?w2 = (r3, w3)" by fastforce
  have info: "w_db (snd (run_state (lg_Info NewConsoleJSONLogger msg fs) w)) = w_db w" for msg fs and w :: pg_world
    by (simp add: NewConsoleJSONLogger_def run_ConsoleJSONLogger_write)
  have r3: "r3 = None" "w_db w' = w_db w3"
    using assms(1) 1 2 3
    by (cases r3; auto simp: delete_confirmed_def pg_UserStore_def pg_SessionStore_def pg_AuditStore_def split_beta info)+
  from revoke_all_rows [OF 1] obtain ss k1 where d1: "w_db w1 = (w_db w)\<lparr>pg_sessions := ss, pg_stmts := k1\<rparr>"
    "filter (\<lambda>s. s_UserID s \<noteq> uid) ss = filter (\<lambda>s. s_UserID s \<noteq> uid) (pg_sessions (w_db w))"
    by blast
  from record_rows [OF 2, unfolded log d1(1)] obtain es k2 where d2: "w_db w2 = (w_db w)\<lparr>pg_sessions := ss, pg_events := pg_events (w_db w) @ es, pg_stmts := k2\<rparr>"
    and es: "length es \<le> 1" "\<forall>e \<in> set es. au_type e = EventAccountDeleted \<and> au_user_id e = null_string uid"
      "(\<forall>n. sv_fault (pg_server (w_db w)) n = None \<and> sv_gen_random_uuid (pg_server (w_db w)) n \<notin> au_id ` set (pg_events (w_db w))) \<longrightarrow>
         length es = 1"
    using assms(2) by auto
  from delete_rows [OF 3 [unfolded r3], unfolded log d2] d1(2) es show ?thesis
    by (intro exI [of _ "map (\<lambda>r. if au_user_id r = Some uid then r\<lparr>au_user_id := None\<rparr> else r) es"])
      (auto simp: r3(2) null_string_def split: if_splits)
qed

text \<open>C18. A successful \<open>DeleteAccount\<close> over Postgres, row by row: the user existed and the password was the user's;
  the user's row is gone, and so are exactly the sessions and the verification tokens of the user, those of all others
  stay as they are. The audit trail keeps every event, and an event loses its user exactly if it named this one. At most
  one event is added, for the deletion, and it names no user either; it is added whenever the server fails no
  statement and draws a new identifier for it.\<close>

theorem postgres_delete_account:
  assumes "run_state (cryden_DeleteAccount (postgres_engine p) uid current) w = (None, w')"
  shows "(\<exists>u \<in> set (pg_users (w_db w)). u_ID u = uid \<and> password_matches (w_ext w) (u_PasswordHash u) current) \<and>
    (\<exists>new. pg_users (w_db w') = filter (\<lambda>u. u_ID u \<noteq> uid) (pg_users (w_db w)) \<and>
       pg_sessions (w_db w') = filter (\<lambda>s. s_UserID s \<noteq> uid) (pg_sessions (w_db w)) \<and>
       pg_verifs (w_db w') = filter (\<lambda>r. vr_user_id r \<noteq> uid) (pg_verifs (w_db w)) \<and>
       pg_events (w_db w') = map (\<lambda>r. if au_user_id r = Some uid then r\<lparr>au_user_id := None\<rparr> else r) (pg_events (w_db w)) @ new \<and>
       length new \<le> 1 \<and> (\<forall>r \<in> set new. au_type r = EventAccountDeleted \<and> au_user_id r = None) \<and>
       ((\<forall>n. sv_fault (pg_server (w_db w)) n = None \<and> sv_gen_random_uuid (pg_server (w_db w)) n \<notin> au_id ` set (pg_events (w_db w))) \<longrightarrow>
          length new = 1))"
proof -
  obtain r1 w1 where 1: "run_state (reconfirm pg_UserStore (BcryptHasher_Hasher (ep_hasher p)) NewConsoleJSONLogger
      ''delete account: password mismatch'' uid current) w = (r1, w1)" by fastforce
  have r1: "r1 = None" and del: "run_state (delete_confirmed pg_UserStore pg_SessionStore pg_AuditStore NewConsoleJSONLogger uid) w1 = (None, w')"
    using assms 1 by (auto simp: cryden_DeleteAccount_def DeleteAccount_def split: option.splits)
  from reconfirm_rows(1) [OF 1] obtain k where d1: "w_db w1 = (w_db w)\<lparr>pg_stmts := k\<rparr>" by blast
  note user = reconfirm_rows(2) [OF 1 r1]
  then have "uid \<in> u_ID ` set (pg_users (w_db w1))" by (auto simp: d1)
  from delete_confirmed_rows [OF del this] user show ?thesis by (auto simp: d1)
qed

definition sample_other :: User where
  "sample_other = sample_user\<lparr>u_ID := ''uu'', u_Email := ''bob@x.org''\<rparr>"

definition sample_event :: "string \<Rightarrow> string \<Rightarrow> audit_row" where
  "sample_event i uid = \<lparr>au_id = i, au_type = EventLogout, au_user_id = Some uid, au_ip = [], au_metadata = None, au_created_at = 0\<rparr>"

definition sample_two_users :: PostgresDB where
  "sample_two_users = (sample_tables [sample_user, sample_other] [sample_session ''uu'' ''uu'' ''abc'' None]
     [sample_verif_row, sample_verif_row\<lparr>vr_id := ''v2'', vr_user_id := ''uu'', vr_token_hash := ''h''\<rparr>])
     \<lparr>pg_events := [sample_event ''1'' ''u'', sample_event ''2'' ''uu'']\<rparr>"

theorem postgres_delete_account_witness:
  "\<exists>w'. run_state (cryden_DeleteAccount (postgres_engine sample_params) ''u'' ''pw'') (sample_pg sample_two_users) = (None, w') \<and>
     pg_users (w_db w') = [sample_other] \<and> map vr_id (pg_verifs (w_db w')) = [''v2''] \<and>
     map au_user_id (pg_events (w_db w')) = [None, Some ''uu'', None]"
proof -
  let ?w = "sample_pg sample_two_users"
  have "\<exists>w'. run_state (cryden_DeleteAccount (postgres_engine sample_params) ''u'' ''pw'') ?w = (None, w')"
    by (simp add: sample_two_users_def sample_other_def sample_event_def cryden_DeleteAccount_def DeleteAccount_def reconfirm_def
        delete_confirmed_def pg_UserStore_def pg_UserStore_GetByID_def select_row_def find_row_def
        range_order_def pg_stmt_def sample_server_def Let_def row_or_not_found_def BcryptHasher_Hasher_def BcryptHasher_Compare_def
        pg_SessionStore_def pg_SessionStore_RevokeAllForUser_def revoke_sessions_def affected_def update_where_def exec_error_def
        pg_AuditStore_def pg_AuditStore_Record_def insert_audit_event_def null_string_def pg_UserStore_Delete_def delete_user_def
        checkRowsAffected_def run_simps split_beta)
  then obtain w' where run: "run_state (cryden_DeleteAccount (postgres_engine sample_params) ''u'' ''pw'') ?w = (None, w')" by blast
  have fresh: "replicate n (CHR ''e'') \<noteq> [CHR ''1'']" "replicate n (CHR ''e'') \<noteq> [CHR ''2'']" for n by (cases n; simp)+
  from postgres_delete_account [OF run] fresh obtain new where rows: "pg_users (w_db w') = [sample_other]"
    "map vr_id (pg_verifs (w_db w')) = [''v2'']" "length new = 1" "\<forall>r \<in> set new. au_user_id r = None"
    "pg_events (w_db w') = [(sample_event ''1'' ''u'')\<lparr>au_user_id := None\<rparr>, sample_event ''2'' ''uu''] @ new"
    by (auto simp: sample_two_users_def sample_other_def sample_verif_row_def sample_event_def sample_server_def)
  then have "map au_user_id new = [None]" by (cases new) auto
  with run rows show ?thesis by (simp add: sample_event_def)
qed

section \<open>Confirming an email change\<close>

text \<open>C19. Over Postgres two users never share an address: a confirmation of an email change whose address another
  user has by then is refused, and nothing changes.\<close>

theorem postgres_keeps_addresses_unique:
  assumes "pg_inv rnd (w_db w)" and "run_state (cryden_ConfirmEmailChange (postgres_engine p) raw) w = (r, w')"
    and "v_verifs (pg_view (w_db w)) i = Some vt" and "vt_TokenHash vt = HashToken raw"
    and "u \<in> set (pg_users (w_db w))" and "u_ID u \<noteq> vt_UserID vt" and "u_Email u = vt_NewEmail vt"
  shows "r \<noteq> None \<and> pg_view (w_db w') = pg_view (w_db w)"
proof -
  have run: "run_state (ConfirmEmailChange pg_UserStore pg_VerificationStore pg_AuditStore NewConsoleJSONLogger raw) w = (r, w')"
    using assms(2) by (simp add: cryden_ConfirmEmailChange_def)
  note op = engine_opD [OF pg_email.ConfirmEmailChange_meets run assms(1)]
  have one: "vt' = vt" if "stored_verif (pg_view (w_db w)) raw vt'" for vt'
    using verif_row [OF assms(1,3), of "vt_ID vt'" vt'] that assms(4) by (simp add: stored_verif_def)
  have u: "v_users (pg_view (w_db w)) (u_ID u) = Some u" using assms(5) user_row [OF assms(1)] by blast
  show ?thesis
  proof (rule ccontr)
    assume "\<not> ?thesis"
    with op(5) obtain a t v1 ev where changed: "marked_used pg_faults vt ((pg_view (w_db w))\<lparr>v_users := (v_users (pg_view (w_db w)))
        (vt_UserID vt \<mapsto> a\<lparr>u_Email := vt_NewEmail vt, u_UpdatedAt := t\<rparr>)\<rparr>) v1" "audited pg_faults ev v1 (pg_view (w_db w'))"
      "v_users (pg_view (w_db w)) (vt_UserID vt) = Some a"
      using one unfolding ConfirmEmailChange_spec_def confirm_refused_def by blast
    then have users: "v_users (pg_view (w_db w')) = (v_users (pg_view (w_db w)))(vt_UserID vt \<mapsto> a\<lparr>u_Email := vt_NewEmail vt, u_UpdatedAt := t\<rparr>)"
      using audited_data(1) [OF changed(2)] by (auto simp: marked_used_def put_verif_def)
    let ?a = "a\<lparr>u_Email := vt_NewEmail vt, u_UpdatedAt := t\<rparr>"
    have "u_ID a = vt_UserID vt" using changed(3) by (auto dest!: keyed_key)
    then have "?a \<in> set (pg_users (w_db w'))" "u \<in> set (pg_users (w_db w'))"
      using users u assms(6) user_row [OF op(1)] by auto
    with assms(7) have "?a = u" using pg_invD(2) [OF op(1)] by (metis User.select_convs(2) User.surjective User.update_convs(2,7) distinct_map inj_on_eq_iff)
    with \<open>u_ID a = vt_UserID vt\<close> assms(6) show False by (metis User.select_convs(1) User.surjective User.update_convs(2,7))
  qed
qed

theorem postgres_keeps_addresses_unique_witness:
  "\<exists>r w'. run_state (cryden_ConfirmEmailChange (postgres_engine sample_params) ''abc'')
      (sample_pg (sample_tables [sample_user, sample_user\<lparr>u_ID := ''j'', u_Email := ''new@x.org''\<rparr>] [] [sample_verif_row])) = (r, w') \<and>
     r \<noteq> None"
proof -
  let ?j = "sample_user\<lparr>u_ID := ''j'', u_Email := ''new@x.org''\<rparr>"
  let ?w = "sample_pg (sample_tables [sample_user, ?j] [] [sample_verif_row])"
  obtain r w' where run: "run_state (cryden_ConfirmEmailChange (postgres_engine sample_params) ''abc'') ?w = (r, w')" by fastforce
  have "pg_inv id (w_db ?w)" by (simp add: sample_tables_inv sample_verif_row_def)
  moreover have "v_verifs (pg_view (w_db ?w)) ''v'' = Some (scan_verification sample_verif_row)"
    by (simp add: keyed_def sample_verif_row_def)
  moreover have "vt_TokenHash (scan_verification sample_verif_row) = HashToken ''abc''"
    "vt_UserID (scan_verification sample_verif_row) = ''u''" "vt_NewEmail (scan_verification sample_verif_row) = ''new@x.org''"
    by (simp_all add: scan_verification_def sample_verif_row_def string_or_empty_def)
  ultimately show ?thesis using postgres_keeps_addresses_unique [OF _ run, of id "''v''" _ ?j] run by simp
qed

end
