(* ===== verification/Concurrent_Properties.thy ===== *)
theory Concurrent_Properties
  imports Postgres_Properties Account_Properties
begin

text \<open>
  What holds when requests overlap. Over Postgres every interleaving keeps the invariants of the runs, because the
  constraints of the schema and the condition of the rotating statement are checked when a request acts. Over
  memory they are not, and a request that acts on what it read earlier can break them.
\<close>

section \<open>Requests as two steps\<close>

text \<open>The steps of the requests that the races below are about.\<close>

lemma serve_waits:
  "sv_pending c n = None \<Longrightarrow> run_state (ss_GetByTokenHash (en_sessions e) (HashToken raw)) (sv_world c) = (Inr s, w') \<Longrightarrow>
    serve e c (c\<lparr>sv_world := w', sv_pending := (sv_pending c)(n \<mapsto> Exchange raw s)\<rparr>)"
  "sv_pending c n = None \<Longrightarrow> run_state (login_gate e email pw ip) (sv_world c) = (Inr u, w') \<Longrightarrow>
    serve e c (c\<lparr>sv_world := w', sv_pending := (sv_pending c)(n \<mapsto> LoginOf u ip ua)\<rparr>)"
  "sv_pending c n = None \<Longrightarrow> run_state (signup_gate e email pw ip) (sv_world c) = (Inr h, w') \<Longrightarrow>
    serve e c (c\<lparr>sv_world := w', sv_pending := (sv_pending c)(n \<mapsto> SignUpOf email h ip)\<rparr>)"
  using serve_arrive [of c n e "ReqRefreshToken raw"] serve_arrive [of c n e "ReqLogin email pw ip ua"]
    serve_arrive [of c n e "ReqSignUp email pw ip"]
  by (simp_all add: run_wait)

lemma serve_acts:
  "sv_pending c n = Some (Exchange raw s) \<Longrightarrow> run_state (exchange_rest e (Inr s)) (sv_world c) = (r, w') \<Longrightarrow>
    serve e c (c\<lparr>sv_world := w', sv_pending := (sv_pending c)(n := None), sv_answers := (Exchange raw s, TokensAnswer r) # sv_answers c\<rparr>)"
  "sv_pending c n = Some (LoginOf u ip ua) \<Longrightarrow> run_state (login_rest e u ip ua) (sv_world c) = (r, w') \<Longrightarrow>
    serve e c (c\<lparr>sv_world := w', sv_pending := (sv_pending c)(n := None), sv_answers := (LoginOf u ip ua, TokensAnswer r) # sv_answers c\<rparr>)"
  "sv_pending c n = Some (SignUpOf email h ip) \<Longrightarrow> run_state (signup_rest e email h ip) (sv_world c) = (r', w') \<Longrightarrow>
    serve e c (c\<lparr>sv_world := w', sv_pending := (sv_pending c)(n := None), sv_answers := (SignUpOf email h ip, UserAnswer r') # sv_answers c\<rparr>)"
  using serve_finish [of c n "Exchange raw s" e "TokensAnswer r" w'] serve_finish [of c n "LoginOf u ip ua" e "TokensAnswer r" w']
    serve_finish [of c n "SignUpOf email h ip" e "UserAnswer r'" w']
  by (simp_all add: run_answering)

text \<open>A request that waits while another one is served from its arrival to its answer.\<close>

lemma serve_between:
  assumes "serve e (idle w) (c\<lparr>sv_pending := [0 \<mapsto> q]\<rparr>)" and "call e (sv_world c) w'"
  obtains c' where "(serve e)\<^sup>*\<^sup>* (idle w) c'" "sv_world c' = w'" "sv_pending c' 0 = Some q"
proof -
  from serve_call [of e "c\<lparr>sv_pending := [0 \<mapsto> q]\<rparr>" w' 1] assms(2) obtain c' where
    c': "(serve e)\<^sup>*\<^sup>* (c\<lparr>sv_pending := [0 \<mapsto> q]\<rparr>) c'" "sv_world c' = w'" "sv_pending c' = [0 \<mapsto> q]" by auto
  from converse_rtranclp_into_rtranclp [of "serve e", OF assms(1) c'(1)] c'(2,3) that show thesis by simp
qed

section \<open>Postgres\<close>

abbreviation pg_serves :: "EngineParams \<Rightarrow> pg_world \<Rightarrow> PostgresDB server \<Rightarrow> bool" where
  "pg_serves p w c \<equiv> (serve (postgres_engine p))\<^sup>*\<^sup>* (idle w) c"

text \<open>C6. In every state that overlapping requests reach from empty tables over Postgres, whatever statements the
  server fails on the way: the constraints of the schema hold, so no two users share an address and every session
  has a user; the sessions of a family belong to one user, and at most one of them is active.\<close>

theorem postgres_invariant:
  assumes "unique_draws ext_uuid_NewV7 (w_ext w0)" and "pg_inv rnd (w_db w0)" and "pg_users (w_db w0) = []" and "pg_serves p w0 c"
  shows "pg_inv rnd (w_db (sv_world c)) \<and> distinct (map u_Email (pg_users (w_db (sv_world c)))) \<and>
    s_UserID ` set (pg_sessions (w_db (sv_world c))) \<subseteq> u_ID ` set (pg_users (w_db (sv_world c))) \<and>
    (\<forall>s \<in> set (pg_sessions (w_db (sv_world c))). \<forall>s' \<in> set (pg_sessions (w_db (sv_world c))). s_FamilyID s' = s_FamilyID s \<longrightarrow>
       s_UserID s' = s_UserID s \<and> (s_RevokedAt s = None \<longrightarrow> s_RevokedAt s' = None \<longrightarrow> s = s'))"
proof -
  let ?d = "w_db (sv_world c)"
  from pg_invD(7) [OF assms(2)] assms(3) have "pg_sessions (w_db w0) = []" by simp
  then have "run_ok (pg_inv rnd) pg_view w0" using assms(1-3) by (intro run_ok_empty) (simp_all add: keyed_def)
  note ok = pg_guarded.serves_ok(2) [OF assms(4) this]
  note inv = run_okD(1) [OF ok]
  have row: "v_sessions (pg_view ?d) (s_ID s) = Some s" if "s \<in> set (pg_sessions ?d)" for s
    using that session_row [OF inv] by simp
  have one: "s = s'" if "s \<in> set (pg_sessions ?d)" "s' \<in> set (pg_sessions ?d)" "s_ID s = s_ID s'" for s s'
    using row [OF that(1)] row [OF that(2)] that(3) by simp
  have "\<forall>s \<in> set (pg_sessions ?d). \<forall>s' \<in> set (pg_sessions ?d). s_FamilyID s' = s_FamilyID s \<longrightarrow>
       s_UserID s' = s_UserID s \<and> (s_RevokedAt s = None \<longrightarrow> s_RevokedAt s' = None \<longrightarrow> s = s')"
    using run_ok_sessions [OF ok] row one by blast
  with inv pg_invD(2,7) [OF inv] show ?thesis by blast
qed

theorem postgres_invariant_witness:
  "\<exists>r w. run_state (cryden_SignUp (postgres_engine sample_params) ''bob@x.org'' ''pw'' ''10.0.0.1'')
      (sample_pg (sample_tables [] [] [])) = (r, w) \<and> pg_inv id (w_db w)"
proof -
  let ?w = "sample_pg (sample_tables [] [] [])"
  obtain r w where run: "run_state (cryden_SignUp (postgres_engine sample_params) ''bob@x.org'' ''pw'' ''10.0.0.1'') ?w = (r, w)"
    by fastforce
  from serve_call [of "postgres_engine sample_params" "idle ?w" w 0] step_SignUp [OF run] obtain c where
    "pg_serves sample_params ?w c" "sv_world c = w" by auto
  with postgres_invariant [of ?w id sample_params c] run show ?thesis by (simp add: sample_unique sample_tables_inv)
qed

text \<open>C9. Over Postgres no two of any number of overlapping exchanges of one refresh token succeed, whatever other
  requests run between the lookup of a token and its rotation. The tokens drawn during the run are assumed to have
  hashes that differ from each other and from those stored.\<close>

theorem postgres_concurrent_exchange:
  assumes "run_ok (pg_inv rnd) pg_view w" and "pg_serves p w c"
    and "new_hashes (token_drawn (ep_gen p)) (w_ext w) (w_tick w) (w_tick (sv_world c)) (hashes (v_sessions (pg_view (w_db w))))"
  shows "distinct (succeeded c)"
  by (rule pg_guarded.exchanged_once [OF assms(2,1) pg_distinct_hashes [OF run_okD(1) [OF assms(1)]] assms(3)])

theorem postgres_concurrent_exchange_witness:
  "\<exists>c. pg_serves sample_params (sample_pg (sample_tables [sample_user] [sample_session ''uu'' ''uu'' ''abc'' None] [])) c \<and>
     length (sv_answers c) = 2 \<and> succeeded c = [''abc'']"
proof -
  let ?d = "sample_tables [sample_user] [sample_session ''uu'' ''uu'' ''abc'' None] []" and ?e = "postgres_engine sample_params"
  let ?w = "sample_pg ?d" and ?s = "sample_session ''uu'' ''uu'' ''abc'' None"
  have lookup: "run_state (ss_GetByTokenHash (en_sessions ?e) (HashToken ''abc'')) (sample_pg (?d\<lparr>pg_stmts := n\<rparr>)) =
      (Inr ?s, sample_pg (?d\<lparr>pg_stmts := Suc n\<rparr>))" for n
    by (simp add: pg_SessionStore_def pg_SessionStore_GetByTokenHash_def pg_SessionStore_scanOne_def select_row_def pg_stmt_def
        Let_def find_row_def sample_server_def range_order_def row_or_not_found_def sample_pg_def)
  have new_id: "replicate 5 (CHR ''u'') \<noteq> ''uu''" by (simp add: numeral_eq_Suc)
  have tok: "token_drawn \<lparr>cr_ByteLength = 16\<rparr> sample_once_ext 4 = Inr sample_token"
    using sample_once_draws [of 4 sample_token] by simp
  obtain tk w1 where first: "run_state (exchange_rest ?e (Inr ?s)) (sample_pg (?d\<lparr>pg_stmts := 2\<rparr>)) = (Inr tk, w1)"
    by (simp add: exchange_rest_def rotate_found_def refresh_answer_def pg_SessionStore_def
        pg_SessionStore_RotateToken_def select_row_def find_row_def range_order_def pg_stmt_def sample_server_def Let_def
        row_or_not_found_def revoke_sessions_def affected_def update_where_def checkRowsAffected_def insert_session_def
        CryptoRandTokenGenerator_TokenGenerator_def run_CryptoRandTokenGenerator_New tok new_id sample_hashes_differ
        UUIDv7Generator_def UUIDv7Generator_New_def run_JWTIssuer_Issue run_simps
        pg_AuditStore_def pg_AuditStore_Record_def insert_audit_event_def exec_error_def null_string_def)
  obtain r w2 where second: "run_state (exchange_rest ?e (Inr ?s)) w1 = (r, w2)" by fastforce
  have start: "?d\<lparr>pg_stmts := 0\<rparr> = ?d" by (simp add: sample_tables_def)
  let ?c0 = "(idle ?w)\<lparr>sv_world := sample_pg (?d\<lparr>pg_stmts := 1\<rparr>), sv_pending := [0 \<mapsto> Exchange ''abc'' ?s]\<rparr>"
  let ?c1 = "?c0\<lparr>sv_world := sample_pg (?d\<lparr>pg_stmts := 2\<rparr>), sv_pending := [0 \<mapsto> Exchange ''abc'' ?s, 1 \<mapsto> Exchange ''abc'' ?s]\<rparr>"
  let ?c2 = "?c1\<lparr>sv_world := w1, sv_pending := (sv_pending ?c1)(0 := None), sv_answers := [(Exchange ''abc'' ?s, TokensAnswer (Inr tk))]\<rparr>"
  let ?c3 = "?c2\<lparr>sv_world := w2, sv_pending := (sv_pending ?c2)(1 := None), sv_answers := [(Exchange ''abc'' ?s, TokensAnswer r), (Exchange ''abc'' ?s, TokensAnswer (Inr tk))]\<rparr>"
  have "serve ?e (idle ?w) ?c0" using serve_waits(1) [of "idle ?w" 0 ?e "''abc''" ?s] lookup [of 0] by (simp add: start)
  moreover have "serve ?e ?c0 ?c1" using serve_waits(1) [of ?c0 1 ?e "''abc''" ?s] lookup [of 1] by (simp add: numeral_2_eq_2)
  moreover have "serve ?e ?c1 ?c2" using serve_acts(1) [of ?c1 0 "''abc''" ?s ?e "Inr tk" w1] first by simp
  moreover have "serve ?e ?c2 ?c3" using serve_acts(1) [of ?c2 1 "''abc''" ?s ?e r w2] second by simp
  ultimately have run: "pg_serves sample_params ?w ?c3" by (meson converse_rtranclp_into_rtranclp rtranclp.rtrancl_refl)
  from postgres_concurrent_exchange [OF sample_pg_ok run sample_pg_hashes] have "distinct (succeeded ?c3)" .
  then have "succeeded ?c3 = [''abc'']" by (cases r) (simp_all add: succeeded_def exchanged_def)
  with run show ?thesis by (intro exI [of _ ?c3]) simp
qed

text \<open>The sources of the engine, drawn one after the other.\<close>

lemma sources_workE:
  assumes "sources_work p (w_ext w)"
  obtains i raw where "ext_uuid_NewV7 (w_ext w) k = Inr i" "token_drawn (ep_gen p) (w_ext w) l = Inr raw"
  using sources_workD(1,2) [OF assms] unfolding failed_between_def by (metis obj_sumE lessI order_refl)

text \<open>C10. Over Postgres what has ended stays ended, however the requests overlap: a session that is revoked in some
  state is revoked in every later state that still has it, with its owner, family and token; and a user that was
  deleted never comes back, and has no sessions.\<close>

theorem postgres_finality:
  assumes "run_ok (pg_inv rnd) pg_view w" and "pg_serves p w c" and "(serve (postgres_engine p))\<^sup>*\<^sup>* c c'"
  shows "(\<forall>s \<in> set (pg_sessions (w_db (sv_world c))). \<forall>s' \<in> set (pg_sessions (w_db (sv_world c'))). s_ID s' = s_ID s \<longrightarrow>
      s_RevokedAt s \<noteq> None \<longrightarrow> s_RevokedAt s' \<noteq> None \<and> s_UserID s' = s_UserID s \<and> s_FamilyID s' = s_FamilyID s \<and>
      s_TokenHash s' = s_TokenHash s) \<and>
    (\<forall>u \<in> set (pg_users (w_db w)). u_ID u \<notin> u_ID ` set (pg_users (w_db (sv_world c))) \<longrightarrow>
      u_ID u \<notin> u_ID ` set (pg_users (w_db (sv_world c'))) \<and> u_ID u \<notin> s_UserID ` set (pg_sessions (w_db (sv_world c'))))"
proof -
  note c = pg_guarded.serves_ok [OF assms(2,1)]
  from pg_guarded.serves_effect [OF assms(3) c(1)] have c': "run_ok (pg_inv rnd) pg_view (sv_world c')"
    "run_effect pg_view (sv_world c) (sv_world c')" by (simp_all add: server_ok_def)
  note inv = run_okD(1) [OF assms(1)] run_okD(1) [OF c(2)] run_okD(1) [OF c'(1)]
  have "u_ID u \<notin> dom (v_users (pg_view (w_db (sv_world c'))))"
    if "u \<in> set (pg_users (w_db w))" "u_ID u \<notin> dom (v_users (pg_view (w_db (sv_world c))))" for u
    using run_gone [OF assms(1) _ c(3,2) _ c'(2,1), of "u_ID u"] that user_row [OF inv(1)] by (simp add: domIff)
  moreover have "s_UserID ` set (pg_sessions (w_db (sv_world c'))) \<subseteq> dom (v_users (pg_view (w_db (sv_world c'))))"
    using pg_invD(7) [OF inv(3)] by (simp add: user_ids)
  moreover have "s_RevokedAt s' \<noteq> None \<and> s_UserID s' = s_UserID s \<and> s_FamilyID s' = s_FamilyID s \<and> s_TokenHash s' = s_TokenHash s"
    if "s \<in> set (pg_sessions (w_db (sv_world c)))" "s' \<in> set (pg_sessions (w_db (sv_world c')))" "s_ID s' = s_ID s" "s_RevokedAt s \<noteq> None" for s s'
    using run_revoked [OF c(2) c'(2) iffD1 [OF session_row [OF inv(2)] that(1)] that(4)] iffD1 [OF session_row [OF inv(3)] that(2)] that(3)
    by metis
  ultimately show ?thesis unfolding user_ids by blast
qed

theorem postgres_finality_witness:
  "\<exists>r w'. run_state (RefreshToken (postgres_engine sample_params) ''abc'')
      (sample_pg (sample_tables [sample_user] [sample_session ''uu'' ''uu'' ''abc'' (Some 0)] [])) = (r, w') \<and>
     (\<forall>s' \<in> set (pg_sessions (w_db w')). s_ID s' = ''uu'' \<longrightarrow> s_RevokedAt s' \<noteq> None)"
proof -
  let ?e = "postgres_engine sample_params" and ?w = "sample_pg (sample_tables [sample_user] [sample_session ''uu'' ''uu'' ''abc'' (Some 0)] [])"
  have ok: "run_ok (pg_inv id) pg_view ?w"
    by (auto simp: run_ok_def sample_tables_inv sample_unique sample_drawn session_inv_def keyed_def active_def split: if_splits)
  obtain r w' where run: "run_state (RefreshToken ?e ''abc'') ?w = (r, w')" by fastforce
  from serve_call [of ?e "idle ?w" w' 0] step_RefreshToken [OF run] obtain c' where
    c': "(serve ?e)\<^sup>*\<^sup>* (idle ?w) c'" "sv_world c' = w'" by auto
  from postgres_finality [OF ok rtranclp.rtrancl_refl c'(1)] c'(2) run show ?thesis by simp
qed

text \<open>The statements of a login, when the server fails none of them.\<close>

lemma pg_reset_works:
  assumes "pg_inv rnd (w_db w)" and "\<And>k. sv_fault (pg_server (w_db w)) k = None" and "i \<in> u_ID ` set (pg_users (w_db w))"
  shows "\<exists>us k. run_state (pg_UserStore_ResetFailedAttempts i) w = (None, w\<lparr>w_db := (w_db w)\<lparr>pg_users := us, pg_stmts := k\<rparr>\<rparr>) \<and>
    u_ID ` set us = u_ID ` set (pg_users (w_db w))"
proof -
  let ?us = "update_where (\<lambda>u. u_ID u = i) (\<lambda>u. u\<lparr>u_FailedAttempts := 0, u_LockedUntil := None\<rparr>) (pg_users (w_db w))"
  have "map u_Email ?us = map u_Email (pg_users (w_db w))" "map u_ID ?us = map u_ID (pg_users (w_db w))"
    by (simp_all add: update_where_def)
  moreover have "affected (\<lambda>u. u_ID u = i) (pg_users (w_db w)) \<noteq> 0" using assms(3) by (auto simp: affected_zero)
  ultimately show ?thesis
    using assms(2) pg_invD(2) [OF assms(1)]
    by (intro exI [of _ ?us] exI [of _ "Suc (pg_stmts (w_db w))"])
      (simp add: pg_UserStore_ResetFailedAttempts_def pg_stmt_def Let_def update_users_def checkRowsAffected_def flip: set_map)
qed

lemma pg_login_rest_works:
  assumes "pg_inv rnd (w_db w)" and nofault: "\<And>k. sv_fault (pg_server (w_db w)) k = None" and "u_ID u \<in> u_ID ` set (pg_users (w_db w))"
    and src: "ext_uuid_NewV7 (w_ext w) (w_tick w) = Inr i" "token_drawn (ep_gen p) (w_ext w) (Suc (w_tick w)) = Inr raw"
    and "sources_work p (w_ext w)"
    and "i \<notin> s_ID ` set (pg_sessions (w_db w))" and "HashToken raw \<notin> s_TokenHash ` set (pg_sessions (w_db w))"
  shows "\<exists>tk w' t. run_state (login_rest (postgres_engine p) u ip ua) w = (Inr tk, w') \<and> tk_RefreshToken tk = raw \<and>
    pg_sessions (w_db w') = pg_sessions (w_db w) @ [fresh_session i u raw ip ua t]"
proof -
  obtain a where jwt: "ext_jwt_SignedString (w_ext w) SigningMethodHS256 (access_claims (w_ext w) (ep_jwt p) (u_ID u)
      (ext_now (w_ext w) (Suc (Suc (w_tick w))))) (ji_secret (ep_jwt p)) = Inr a"
    using assms(6) unfolding sources_work_def by blast
  from pg_reset_works [OF assms(1,2,3)] obtain us k where
    reset: "run_state (pg_UserStore_ResetFailedAttempts (u_ID u)) w = (None, w\<lparr>w_db := (w_db w)\<lparr>pg_users := us, pg_stmts := k\<rparr>\<rparr>)"
      "u_ID ` set us = u_ID ` set (pg_users (w_db w))" by blast
  show ?thesis
    using nofault src assms(3,7,8) reset jwt
    by (simp add: login_rest_def login_session_def pg_UserStore_def pg_SessionStore_def pg_AuditStore_def pg_SessionStore_Create_def
        pg_AuditStore_Record_def pg_stmt_def Let_def insert_session_def insert_audit_event_def exec_error_def fresh_session_def
        CryptoRandTokenGenerator_TokenGenerator_def run_CryptoRandTokenGenerator_New UUIDv7Generator_def UUIDv7Generator_New_def
        run_JWTIssuer_Issue run_simps zero_Session_def NewConsoleJSONLogger_def run_ConsoleJSONLogger_write)
qed

text \<open>C13. Over Postgres as well a login that has checked the password creates its session and is answered with tokens
  although the password has been changed since, if the user still exists, the server fails no statement and the
  token drawn is new: the change of the password revokes the sessions there are, and the session of this login is not
  there yet.\<close>

theorem postgres_login_race:
  assumes "sv_pending c n = Some (LoginOf u ip ua)" and ok: "run_ok (pg_inv rnd) pg_view (sv_world c)"
    and "u' \<in> set (pg_users (w_db (sv_world c)))" and "u_ID u' = u_ID u"
    and "\<And>k. sv_fault (pg_server (w_db (sv_world c))) k = None" and src: "sources_work p (w_ext (sv_world c))"
    and new: "\<And>k raw. token_drawn (ep_gen p) (w_ext (sv_world c)) k = Inr raw \<Longrightarrow>
      HashToken raw \<notin> s_TokenHash ` set (pg_sessions (w_db (sv_world c)))"
  shows "\<exists>c' tk s. serve (postgres_engine p) c c' \<and> sv_answers c' = (LoginOf u ip ua, TokensAnswer (Inr tk)) # sv_answers c \<and>
    pg_sessions (w_db (sv_world c')) = pg_sessions (w_db (sv_world c)) @ [s] \<and> s_UserID s = u_ID u \<and>
    s_TokenHash s = HashToken (tk_RefreshToken tk) \<and> s_RevokedAt s = None"
proof -
  let ?w = "sv_world c"
  obtain i raw where draw: "ext_uuid_NewV7 (w_ext ?w) (w_tick ?w) = Inr i" "token_drawn (ep_gen p) (w_ext ?w) (Suc (w_tick ?w)) = Inr raw"
    by (rule sources_workE [OF src])
  have user: "u_ID u \<in> u_ID ` set (pg_users (w_db ?w))" using assms(3) by (rule rev_image_eqI) (simp add: assms(4))
  have "drawn_between ext_uuid_NewV7 (w_ext ?w) (w_tick ?w) (Suc (w_tick ?w)) i" using draw(1) by (auto simp: drawn_between_def)
  then have "s_ID s \<noteq> i" if "s \<in> set (pg_sessions (w_db ?w))" for s
    using fresh_draw [OF run_okD(2) [OF ok]] session_invD(2) [OF run_okD(3) [OF ok] iffD1 [OF session_row [OF run_okD(1) [OF ok]] that]]
    by metis
  then have "i \<notin> s_ID ` set (pg_sessions (w_db ?w))" by auto
  from pg_login_rest_works [OF run_okD(1) [OF ok] assms(5) user draw src this new [OF draw(2)]] obtain tk w' t where
    run: "run_state (login_rest (postgres_engine p) u ip ua) ?w = (Inr tk, w')" and w': "tk_RefreshToken tk = raw"
      "pg_sessions (w_db w') = pg_sessions (w_db ?w) @ [fresh_session i u raw ip ua t]" by blast
  from serve_acts(2) [OF assms(1) run] w' show ?thesis
    by (intro exI [of _ "c\<lparr>sv_world := w', sv_pending := (sv_pending c)(n := None), sv_answers := (LoginOf u ip ua, TokensAnswer (Inr tk)) # sv_answers c\<rparr>"]
        exI [of _ tk] exI [of _ "fresh_session i u raw ip ua t"]) simp
qed

lemmas sample_login_statements = select_row_def pg_stmt_def Let_def find_row_def sample_server_def range_order_def row_or_not_found_def
  BcryptHasher_Hasher_def BcryptHasher_Compare_def run_simps

lemmas sample_account_statements = update_where_def affected_def checkRowsAffected_def pg_SessionStore_def pg_SessionStore_RevokeAllForUser_def
  revoke_sessions_def exec_error_def pg_AuditStore_def pg_AuditStore_Record_def insert_audit_event_def null_string_def
  BcryptHasher_Hash_def NewConsoleJSONLogger_def run_ConsoleJSONLogger_write

theorem postgres_login_race_witness:
  "\<exists>c c' u s. pg_serves sample_params ((sample_pg (sample_tables [sample_user] [] []))\<lparr>w_ext := sample_ext\<rparr>) c \<and>
     pg_users (w_db (sv_world c)) = [u] \<and> u_PasswordHash u = ''$new'' \<and> serve (postgres_engine sample_params) c c' \<and>
     s \<in> set (pg_sessions (w_db (sv_world c'))) \<and> s_UserID s = u_ID u \<and> s_RevokedAt s = None"
proof -
  let ?e = "postgres_engine sample_params" and ?w = "(sample_pg (sample_tables [sample_user] [] []))\<lparr>w_ext := sample_ext\<rparr>"
  have ok: "run_ok (pg_inv id) pg_view ?w"
    by (auto simp: run_ok_def sample_tables_inv sample_unique sample_drawn session_inv_def keyed_def split: if_splits)
  have "\<exists>w1. run_state (login_gate ?e ''ann@x.org'' ''pw'' ''10.0.0.1'') ?w = (Inr sample_user, w1) \<and>
      w_db w1 = (sample_tables [sample_user] [] [])\<lparr>pg_stmts := 1\<rparr> \<and> w_ext w1 = sample_ext"
    by (simp add: login_gate_def rate_limited_def login_verify_def pg_UserStore_def pg_UserStore_GetByEmail_def locked_now_def
        sample_login_statements run_InMemoryRateLimiter_Allow Allow_at_def NewInMemoryRateLimiter_def sample_pg_def)
  then obtain w1 where gate: "run_state (login_gate ?e ''ann@x.org'' ''pw'' ''10.0.0.1'') ?w = (Inr sample_user, w1)"
    and w1: "w_db w1 = (sample_tables [sample_user] [] [])\<lparr>pg_stmts := 1\<rparr>" "w_ext w1 = sample_ext" by blast
  have "\<exists>w2 u. run_state (cryden_ChangePassword ?e ''u'' ''pw'' ''new'') w1 = (None, w2) \<and> pg_users (w_db w2) = [u] \<and> u_ID u = ''u'' \<and>
      u_PasswordHash u = ''$new'' \<and> pg_sessions (w_db w2) = [] \<and> pg_server (w_db w2) = sample_server \<and> w_ext w2 = sample_ext"
    by (simp add: w1 cryden_ChangePassword_def ChangePassword_def password_hash_def password_update_def reconfirm_def pg_UserStore_def
        pg_UserStore_GetByID_def pg_UserStore_UpdatePasswordHash_def update_users_def sample_login_statements sample_account_statements)
  then obtain w2 u where change: "run_state (cryden_ChangePassword ?e ''u'' ''pw'' ''new'') w1 = (None, w2)"
    and w2: "pg_users (w_db w2) = [u]" "u_ID u = ''u''" "u_PasswordHash u = ''$new''" "pg_sessions (w_db w2) = []"
      "pg_server (w_db w2) = sample_server" "w_ext w2 = sample_ext" by blast
  have "serve ?e (idle ?w) (((idle ?w)\<lparr>sv_world := w1\<rparr>)\<lparr>sv_pending := [0 \<mapsto> LoginOf sample_user ''10.0.0.1'' ''agent'']\<rparr>)"
    using serve_waits(2) [of "idle ?w" 0 ?e "''ann@x.org''" "''pw''"] gate by simp
  then obtain c where c: "pg_serves sample_params ?w c" "sv_world c = w2" "sv_pending c 0 = Some (LoginOf sample_user ''10.0.0.1'' ''agent'')"
    by (rule serve_between) (use step_ChangePassword [OF change] in simp)
  from postgres_login_race [OF c(3) pg_guarded.serves_ok(2) [OF c(1) ok], where u' = u and p = sample_params] c(2) w2 obtain c' s where
    "serve ?e c c'" "pg_sessions (w_db (sv_world c')) = [s]" "s_UserID s = ''u''" "s_RevokedAt s = None"
    by (auto simp: sample_server_def)
  with c(1,2) w2 show ?thesis by (intro exI [of _ c] exI [of _ c'] exI [of _ u] exI [of _ s]) simp
qed

section \<open>Memory\<close>

lemma mem_rotate_found:
  assumes "s_RevokedAt s = None" and "v_sessions (db_of w) (s_ID s) = Some s'"
    and "token_drawn (ep_gen p) (w_ext w) (w_tick w) = Inr raw" and "ext_uuid_NewV7 (w_ext w) (Suc (w_tick w)) = Inr i"
  shows "\<exists>w'. run_state (rotate_found mem_SessionStore (CryptoRandTokenGenerator_TokenGenerator (ep_gen p)) UUIDv7Generator (Inr s)) w =
      ((\<lparr>rr_RawToken = raw, rr_Session = successor s i raw\<rparr>, None), w') \<and> w_ext w' = w_ext w \<and>
    v_sessions (db_of w') i = Some ((successor s i raw)\<lparr>s_CreatedAt := ext_now (w_ext w) (Suc (Suc (w_tick w)))\<rparr>)"
  using assms
  by (simp add: rotate_found_def Let_def successor_literal CryptoRandTokenGenerator_TokenGenerator_def run_CryptoRandTokenGenerator_New
      UUIDv7Generator_def UUIDv7Generator_New_def mem_SessionStore_def mem_SessionStore_RotateToken_def run_simps mem_view_simps)

lemma mem_refresh_answer:
  assumes "sources_work p (w_ext w)"
  shows "\<exists>tk w'. run_state (refresh_answer (memory_engine p) (res, None)) w = (Inr tk, w') \<and> tk_RefreshToken tk = rr_RawToken res \<and>
    v_sessions (db_of w') = v_sessions (db_of w)"
proof -
  obtain a where "ext_jwt_SignedString (w_ext w) SigningMethodHS256 (access_claims (w_ext w) (ep_jwt p) (s_UserID (rr_Session res))
      (ext_now (w_ext w) (w_tick w))) (ji_secret (ep_jwt p)) = Inr a"
    using assms unfolding sources_work_def by blast
  then show ?thesis
    by (simp add: refresh_answer_def run_JWTIssuer_Issue mem_AuditStore_def mem_AuditStore_Record_def run_simps mem_view_simps)
qed

text \<open>C11. Over the memory stores a stale lookup is used: an exchange that has found its session active succeeds and leaves
  an active session of the family, although the session has been revoked in between, by another exchange of the same
  token or by a logout of all sessions. \<open>RotateToken\<close> of the memory store does not look at the revocation.\<close>

theorem memory_exchange_race:
  assumes "sv_pending c n = Some (Exchange raw s)" and "s_RevokedAt s = None" and "v_sessions (db_of (sv_world c)) (s_ID s) = Some s'"
    and "sources_work p (w_ext (sv_world c))"
  shows "\<exists>tk c' t. serve (memory_engine p) c c' \<and> sv_answers c' = (Exchange raw s, TokensAnswer (Inr tk)) # sv_answers c \<and>
    v_sessions (db_of (sv_world c')) (s_ID t) = Some t \<and> s_TokenHash t = HashToken (tk_RefreshToken tk) \<and>
    s_UserID t = s_UserID s \<and> s_FamilyID t = s_FamilyID s \<and> s_RevokedAt t = None"
proof -
  let ?w = "sv_world c"
  obtain i new where src: "ext_uuid_NewV7 (w_ext ?w) (Suc (w_tick ?w)) = Inr i" "token_drawn (ep_gen p) (w_ext ?w) (w_tick ?w) = Inr new"
    by (rule sources_workE [OF assms(4)])
  let ?t = "(successor s i new)\<lparr>s_CreatedAt := ext_now (w_ext ?w) (Suc (Suc (w_tick ?w)))\<rparr>"
  from mem_rotate_found [OF assms(2,3) src(2,1)] obtain w1 where
    rot: "run_state (rotate_found mem_SessionStore (CryptoRandTokenGenerator_TokenGenerator (ep_gen p)) UUIDv7Generator (Inr s)) ?w =
      ((\<lparr>rr_RawToken = new, rr_Session = successor s i new\<rparr>, None), w1)" "w_ext w1 = w_ext ?w" "v_sessions (db_of w1) i = Some ?t"
    by blast
  from mem_refresh_answer [of p w1 "\<lparr>rr_RawToken = new, rr_Session = successor s i new\<rparr>"] assms(4) rot obtain tk w' where
    run: "run_state (exchange_rest (memory_engine p) (Inr s)) ?w = (Inr tk, w')"
    and tk: "tk_RefreshToken tk = new" "v_sessions (db_of w') = v_sessions (db_of w1)"
    by (auto simp: exchange_rest_def)
  have t: "v_sessions (db_of w') (s_ID ?t) = Some ?t" "s_TokenHash ?t = HashToken (tk_RefreshToken tk)"
    "s_UserID ?t = s_UserID s" "s_FamilyID ?t = s_FamilyID s" "s_RevokedAt ?t = None"
    using tk rot(3) by (simp_all flip: successor_literal add: zero_Session_def)
  from serve_acts(1) [OF assms(1) run] t show ?thesis
    by (intro exI [of _ tk] exI [of _ "c\<lparr>sv_world := w', sv_pending := (sv_pending c)(n := None), sv_answers := (Exchange raw s, TokensAnswer (Inr tk)) # sv_answers c\<rparr>"]
        exI [of _ ?t]) simp
qed

theorem memory_exchange_race_witness:
  "\<exists>c' i t. (serve (memory_engine sample_params))\<^sup>*\<^sup>* (idle (sample_world (sample_db [sample_session ''uu'' ''uu'' ''abc'' None]))) c' \<and>
     ''abc'' \<in> set (succeeded c') \<and> v_sessions (db_of (sv_world c')) i = Some t \<and> s_UserID t = ''u'' \<and> s_RevokedAt t = None"
proof -
  let ?e = "memory_engine sample_params" and ?w = "sample_world (sample_db [sample_session ''uu'' ''uu'' ''abc'' None])"
  let ?s = "sample_session ''uu'' ''uu'' ''abc'' None"
  obtain w1 where w1: "run_state (ss_GetByTokenHash (en_sessions ?e) (HashToken ''abc'')) ?w = (Inr ?s, w1)"
    "w_db w1 = w_db ?w" "w_ext w1 = sample_ext"
    by (simp add: mem_SessionStore_def mem_SessionStore_GetByTokenHash_def run_simps range_find_def range_order_def)
  obtain r w2 where out: "run_state (cryden_LogoutAll ?e ''u'') w1 = (r, w2)" by fastforce
  have inv: "mem_inv (w_db w1)" using w1(2) by simp
  note op = engine_opD [OF mem.LogoutAll_meets out [unfolded cryden_LogoutAll_def] inv]
  then obtain t where "v_sessions (db_of w2) = revoke_where (\<lambda>s. s_UserID s = ''u'') t (v_sessions (db_of ?w))"
    using w1(2) by (auto simp: LogoutAll_spec_def dest!: audited_same split: option.splits)
  then have gone: "\<exists>s'. v_sessions (db_of w2) ''uu'' = Some s'" by (auto simp: revoke_where_def)
  have "serve ?e (idle ?w) (((idle ?w)\<lparr>sv_world := w1\<rparr>)\<lparr>sv_pending := [0 \<mapsto> Exchange ''abc'' ?s]\<rparr>)"
    using serve_waits(1) [of "idle ?w" 0 ?e "''abc''"] w1(1) by simp
  then obtain c where c: "(serve ?e)\<^sup>*\<^sup>* (idle ?w) c" "sv_world c = w2" "sv_pending c 0 = Some (Exchange ''abc'' ?s)"
    by (rule serve_between) (use step_LogoutAll [OF out] in simp)
  from gone obtain tk c' t where step: "serve ?e c c'" and t: "sv_answers c' = (Exchange ''abc'' ?s, TokensAnswer (Inr tk)) # sv_answers c"
    "v_sessions (db_of (sv_world c')) (s_ID t) = Some t" "s_UserID t = ''u''" "s_RevokedAt t = None"
    using memory_exchange_race [of c 0 "''abc''" ?s _ sample_params] c op(3) w1(3) by auto
  then have "''abc'' \<in> set (succeeded c')" by (simp add: succeeded_def exchanged_def)
  moreover have "(serve ?e)\<^sup>*\<^sup>* (idle ?w) c'" using c(1) step by (rule rtranclp.rtrancl_into_rtrancl)
  ultimately show ?thesis using t by blast
qed

text \<open>C12. Over the memory stores a login that has checked the password creates its session whatever has happened to the
  account in between: if it was deleted an active session remains that belongs to nobody, and if its password was
  changed the session outlives the revocation of all sessions that a change of the password makes.\<close>

theorem memory_login_race:
  assumes "sv_pending c n = Some (LoginOf u ip ua)" and "mem_inv (w_db (sv_world c))" and "sources_work p (w_ext (sv_world c))"
  shows "\<exists>c' i s. serve (memory_engine p) c c' \<and> dom (v_users (db_of (sv_world c'))) = dom (v_users (db_of (sv_world c))) \<and>
    v_sessions (db_of (sv_world c')) = (v_sessions (db_of (sv_world c)))(i \<mapsto> s) \<and> s_UserID s = u_ID u \<and> s_RevokedAt s = None"
proof -
  obtain r w' where run: "run_state (login_rest (memory_engine p) u ip ua) (sv_world c) = (r, w')" by fastforce
  from engine_opD(5) [OF mem_runs.login_rest_meets run assms(2)] sources_workD(1,2) [OF assms(3)] obtain i s where
    "dom (v_users (db_of w')) = dom (v_users (db_of (sv_world c)))" "s_UserID s = u_ID u" "active s"
    "v_sessions (db_of w') = (v_sessions (db_of (sv_world c)))(i \<mapsto> s)"
    unfolding login_rest_spec_def by auto
  with serve_acts(2) [OF assms(1) run] show ?thesis
    by (intro exI [of _ "c\<lparr>sv_world := w', sv_pending := (sv_pending c)(n := None), sv_answers := (LoginOf u ip ua, TokensAnswer r) # sv_answers c\<rparr>"]
        exI [of _ i] exI [of _ s]) (simp add: active_def)
qed

theorem memory_login_race_witness:
  "\<exists>c' i s. (serve (memory_engine sample_params))\<^sup>*\<^sup>* (idle (sample_world (sample_db []))) c' \<and> v_users (db_of (sv_world c')) ''u'' = None \<and>
     v_sessions (db_of (sv_world c')) i = Some s \<and> s_UserID s = ''u'' \<and> s_RevokedAt s = None"
proof -
  let ?e = "memory_engine sample_params" and ?w = "sample_world (sample_db [])"
  have "\<exists>w1. run_state (login_gate ?e ''ann@x.org'' ''pw'' ''10.0.0.1'') ?w = (Inr sample_user, w1) \<and> w_db w1 = sample_db [] \<and> w_ext w1 = sample_ext"
    using limiter_verdict [of sample_params "login_key ''10.0.0.1'' ''ann@x.org''" ?w]
    by (simp add: login_gate_def rate_limited_def login_verify_def mem_UserStore_def mem_UserStore_GetByEmail_def range_find_def range_order_def locked_now_def
        BcryptHasher_Hasher_def BcryptHasher_Compare_def run_simps)
  then obtain w1 where gate: "run_state (login_gate ?e ''ann@x.org'' ''pw'' ''10.0.0.1'') ?w = (Inr sample_user, w1)"
    and w1: "w_db w1 = sample_db []" "w_ext w1 = sample_ext" by blast
  have "v_users (db_of w1) ''u'' = Some sample_user" "mem_inv (w_db w1)" using w1 by simp_all
  from DeleteAccount_succeeds [OF this(2,1), of "''pw''" sample_params] w1(2) obtain w2 where
    del: "run_state (cryden_DeleteAccount ?e ''u'' ''pw'') w1 = (None, w2)" by auto
  have inv: "mem_inv (w_db w1)" using w1 by simp
  note eff = engine_opD [OF mem.DeleteAccount_meets del [unfolded cryden_DeleteAccount_def] inv]
  have "serve ?e (idle ?w) (((idle ?w)\<lparr>sv_world := w1\<rparr>)\<lparr>sv_pending := [0 \<mapsto> LoginOf sample_user ''10.0.0.1'' ''agent'']\<rparr>)"
    using serve_waits(2) [of "idle ?w" 0 ?e "''ann@x.org''" "''pw''"] gate by simp
  then obtain c where c: "(serve ?e)\<^sup>*\<^sup>* (idle ?w) c" "sv_world c = w2" "sv_pending c 0 = Some (LoginOf sample_user ''10.0.0.1'' ''agent'')"
    by (rule serve_between) (use step_DeleteAccount [OF del] in simp)
  have "v_users (db_of w2) ''u'' = None" by (rule DeleteAccount_removes [OF inv del])
  moreover obtain c' i s where step: "serve ?e c c'" and s: "dom (v_users (db_of (sv_world c'))) = dom (v_users (db_of w2))"
    "v_sessions (db_of (sv_world c')) = (v_sessions (db_of w2))(i \<mapsto> s)" "s_UserID s = ''u''" "s_RevokedAt s = None"
    using memory_login_race [of c 0 sample_user "''10.0.0.1''" "''agent''" sample_params] c eff(1,3) w1(2) by auto
  ultimately have gone: "v_users (db_of (sv_world c')) ''u'' = None" by (metis domIff)
  have new: "v_sessions (db_of (sv_world c')) i = Some s" using s(2) by simp
  have "(serve ?e)\<^sup>*\<^sup>* (idle ?w) c'" using c(1) step by (rule rtranclp.rtrancl_into_rtrancl)
  with s(3,4) gone new show ?thesis by blast
qed

text \<open>C14. Over the memory stores a sign-up that has found its address free stores the user although another user has taken the
  address in between: two users share it.\<close>

theorem memory_signup_race:
  assumes "sv_pending c n = Some (SignUpOf email h ip)" and "run_ok mem_inv mem_view (sv_world c)"
    and "v_users (db_of (sv_world c)) j = Some u" and "u_Email u = email" and "sources_work p (w_ext (sv_world c))"
  shows "\<exists>c' i u'. serve (memory_engine p) c c' \<and> i \<noteq> j \<and> v_users (db_of (sv_world c')) j = Some u \<and>
    v_users (db_of (sv_world c')) i = Some u' \<and> u_Email u' = u_Email u"
proof -
  obtain r w' where run: "run_state (signup_rest (memory_engine p) email h ip) (sv_world c) = (r, w')" by fastforce
  from engine_opD(5) [OF mem_runs.signup_rest_meets run run_okD(1) [OF assms(2)]] sources_workD(1) [OF assms(5)] obtain v t where
    v: "drawn_between ext_uuid_NewV7 (w_ext (sv_world c)) (w_tick (sv_world c)) (w_tick w') (u_ID v)" "u_Email v = email"
    "v_users (db_of w') = (v_users (db_of (sv_world c)))(u_ID v \<mapsto> v\<lparr>u_CreatedAt := t, u_UpdatedAt := t\<rparr>)"
    unfolding signup_rest_spec_def by (auto split: sum.splits)
  have "u_ID v \<noteq> j" by (rule fresh_draw [OF run_okD(2) [OF assms(2)] v(1) run_okD(4) [OF assms(2,3)]])
  with serve_acts(3) [OF assms(1) run] v assms(3,4) show ?thesis
    by (intro exI [of _ "c\<lparr>sv_world := w', sv_pending := (sv_pending c)(n := None), sv_answers := (SignUpOf email h ip, UserAnswer r) # sv_answers c\<rparr>"]
        exI [of _ "u_ID v"]
        exI [of _ "v\<lparr>u_CreatedAt := t, u_UpdatedAt := t\<rparr>"]) simp
qed

theorem memory_signup_race_witness:
  "\<exists>c' i j u u'. (serve (memory_engine sample_params))\<^sup>*\<^sup>* (idle (sample_world NewMemoryDB)) c' \<and> i \<noteq> j \<and>
     v_users (db_of (sv_world c')) j = Some u \<and> v_users (db_of (sv_world c')) i = Some u' \<and> u_Email u' = u_Email u"
proof -
  let ?e = "memory_engine sample_params" and ?w = "sample_world NewMemoryDB"
  have "\<exists>w1. run_state (signup_gate ?e ''bob@x.org'' ''pw'' ''10.0.0.1'') ?w = (Inr ''$pw'', w1) \<and> w_db w1 = NewMemoryDB \<and>
      w_ext w1 = sample_ext \<and> limiter_allows w1 ''signup:10.0.0.2''"
    using limiter_verdict [of sample_params "''signup:10.0.0.1''" ?w]
    by (simp add: signup_gate_def rate_limited_def signup_hash_def mem_UserStore_def mem_UserStore_GetByEmail_def range_find_def range_order_def NewMemoryDB_def
        BcryptHasher_Hasher_def BcryptHasher_Hash_def run_simps limiter_allows_def after_limiter_def Allow_at_def NewInMemoryRateLimiter_def)
  then obtain w1 where gate: "run_state (signup_gate ?e ''bob@x.org'' ''pw'' ''10.0.0.1'') ?w = (Inr ''$pw'', w1)"
    and w1: "w_db w1 = NewMemoryDB" "w_ext w1 = sample_ext" "limiter_allows w1 ''signup:10.0.0.2''" by blast
  have ok: "run_ok mem_inv mem_view w1" by (rule run_ok_new) (simp_all add: w1 sample_unique)
  have free: "\<not> email_taken (db_of w1) email" for email by (simp add: w1 email_taken_def NewMemoryDB_def mem_view_simps)
  obtain r w2 where up: "run_state (cryden_SignUp ?e ''bob@x.org'' ''pw'' ''10.0.0.2'') w1 = (r, w2)" by fastforce
  from SignUp_succeeds [OF run_okD(1) [OF ok] _ _ up] w1(2,3) free obtain u where "r = Inr u" by auto
  with SignUp_effect [OF run_okD(1) [OF ok] up] obtain t where
    u: "v_users (db_of w2) (u_ID u) = Some (u\<lparr>u_CreatedAt := t, u_UpdatedAt := t\<rparr>)" "u_Email u = ''bob@x.org''" by auto
  have "serve ?e (idle ?w) (((idle ?w)\<lparr>sv_world := w1\<rparr>)\<lparr>sv_pending := [0 \<mapsto> SignUpOf ''bob@x.org'' ''$pw'' ''10.0.0.1'']\<rparr>)"
    using serve_waits(3) [of "idle ?w" 0 ?e "''bob@x.org''" "''pw''"] gate by simp
  then obtain c where c: "(serve ?e)\<^sup>*\<^sup>* (idle ?w) c" "sv_world c = w2" "sv_pending c 0 = Some (SignUpOf ''bob@x.org'' ''$pw'' ''10.0.0.1'')"
    by (rule serve_between) (use step_SignUp [OF up] in simp)
  note ok2 = mem_runs.call_run [OF step_SignUp [OF up] ok]
  have "w_ext w2 = sample_ext" using ok2(2) w1(2) by (simp add: run_effect_def)
  with u ok2(1) c obtain c' i u' where step: "serve ?e c c'" and two: "i \<noteq> u_ID u"
    "v_users (db_of (sv_world c')) (u_ID u) = Some (u\<lparr>u_CreatedAt := t, u_UpdatedAt := t\<rparr>)"
    "v_users (db_of (sv_world c')) i = Some u'" "u_Email u' = u_Email (u\<lparr>u_CreatedAt := t, u_UpdatedAt := t\<rparr>)"
    using memory_signup_race [of c 0 "''bob@x.org''" "''$pw''" "''10.0.0.1''" "u_ID u"
        "u\<lparr>u_CreatedAt := t, u_UpdatedAt := t\<rparr>" sample_params] by auto
  have "(serve ?e)\<^sup>*\<^sup>* (idle ?w) c'" using c(1) step by (rule rtranclp.rtrancl_into_rtrancl)
  with two show ?thesis by blast
qed

end
