(* ===== verification/Smoketest_Calls.thy ===== *)
theory Smoketest_Calls
  imports Session_Properties
begin

text \<open>
  The calls that \<open>cmd/smoketest/main.go\<close> makes, one by one: what each answers and leaves behind in the state
  in which the program makes it. \<open>smoke_at\<close> is what the program knows of its account and of the limiter.
\<close>

section \<open>The rate limiter along the program\<close>

text \<open>No key has had more than \<open>n\<close> calls in its window.\<close>

definition counts_upto :: "int \<Rightarrow> InMemoryRateLimiter \<Rightarrow> bool" where
  "counts_upto n r \<longleftrightarrow> rl_limit r = 10 \<and> (\<forall>k c. map_of (rl_counters r) k = Some c \<longrightarrow> 0 \<le> wc_count c \<and> wc_count c \<le> n)"

lemma counts_upto_new: "counts_upto 0 (NewInMemoryRateLimiter 10 window)"
  by (simp add: counts_upto_def NewInMemoryRateLimiter_def)

lemma Allow_at_counts:
  assumes "counts_upto n r" and "0 \<le> n" and "n < 10"
  shows "fst (Allow_at now r key)" and "counts_upto (n + 1) (snd (Allow_at now r key))"
proof -
  have c: "0 \<le> wc_count c \<and> wc_count c \<le> n" if "map_of (rl_counters r) k = Some c" for k c
    using assms(1) that by (auto simp: counts_upto_def)
  show "fst (Allow_at now r key)"
    using assms c by (force simp: Allow_at_def counts_upto_def split: option.splits)
  show "counts_upto (n + 1) (snd (Allow_at now r key))"
    using assms c unfolding counts_upto_def
    by (fastforce simp: Allow_at_def map_of_gomap_set split: option.splits if_splits)
qed

context engine
begin

text \<open>Below the rate-limit check no call touches the limiter.\<close>

lemma signup_checked_limiter:
  "invar (w_db w) \<Longrightarrow>
   wp (signup_checked (en_users e) (en_hasher e) (en_ids e) (en_audit e) (en_log e) email pw ip)
     (\<lambda>_ w'. w_limiter w' = w_limiter w) w"
  unfolding signup_unfold unfolding signup_create_def Let_def by (intro wp_audited wp_intros; simp add: zero_User_def)

lemma login_mismatch_limiter:
  "invar (w_db w) \<Longrightarrow> wp (login_mismatch (en_users e) (en_audit e) (en_log e) u ip th du)
     (\<lambda>_ w'. w_limiter w' = w_limiter w) w"
  unfolding login_mismatch_def recordLoginFailure_def Let_def by (intro wp_audited wp_intros; simp)

lemma login_session_limiter:
  "invar (w_db w) \<Longrightarrow>
   wp (login_session (en_users e) (en_sessions e) (en_ids e) (en_refreshGen e) j (en_audit e) (en_log e) u ip ua)
     (\<lambda>_ w'. w_limiter w' = w_limiter w) w"
  unfolding login_session_def Let_def by (intro wp_audited wp_reset wp_intros; simp add: zero_Session_def)

lemma login_checked_limiter:
  "invar (w_db w) \<Longrightarrow>
   wp (login_checked (en_users e) (en_sessions e) (en_hasher e) (en_ids e) (en_refreshGen e) j (en_audit e) (en_log e)
       email pw ip ua th du) (\<lambda>_ w'. w_limiter w' = w_limiter w) w"
  unfolding login_unfold unfolding recordLoginFailure_def
  by (intro wp_audited wp_locked_now wp_mono [OF login_mismatch_limiter] wp_mono [OF login_session_limiter] wp_intros; simp)

lemma RefreshToken_limiter:
  "invar (w_db w) \<Longrightarrow> wp (RefreshToken e raw) (\<lambda>_ w'. w_limiter w' = w_limiter w) w"
  unfolding RefreshToken_def refresh_answer_def Rotate_def rotate_found_def Let_def by (intro wp_audited wp_intros; simp add: zero_Session_def)

lemma Logout_limiter:
  "invar (w_db w) \<Longrightarrow> wp (Logout (en_sessions e) (en_audit e) (en_log e) sid uid) (\<lambda>_ w'. w_limiter w' = w_limiter w) w"
  unfolding logout_unfold unfolding logout_end_def end_session_def Let_def by (intro wp_audited wp_intros; simp)

lemma session_List_limiter:
  "invar (w_db w) \<Longrightarrow> wp (session_List (en_sessions e) uid) (\<lambda>_ w'. w_limiter w' = w_limiter w) w"
  unfolding session_List_def by (intro wp_intros; simp)

end

section \<open>The engine of the program\<close>

definition smoke_params :: EngineParams where
  "smoke_params =
     \<lparr>ep_hasher = \<lparr>bh_Cost = 10\<rparr>, ep_gen = \<lparr>cr_ByteLength = 32\<rparr>,
      ep_jwt = \<lparr>ji_secret = ''test-secret-do-not-use-in-prod'', ji_ttl = 15 * time_Minute\<rparr>,
      ep_threshold = 5, ep_duration = 15 * time_Minute, ep_provider = None\<rparr>"

lemma smoke_params_simps [simp]:
  "ep_hasher smoke_params = \<lparr>bh_Cost = 10\<rparr>" "ep_gen smoke_params = \<lparr>cr_ByteLength = 32\<rparr>"
  "ep_jwt smoke_params = \<lparr>ji_secret = ''test-secret-do-not-use-in-prod'', ji_ttl = 15 * time_Minute\<rparr>"
  "ep_threshold smoke_params = 5" "ep_duration smoke_params = 15 * time_Minute" "ep_provider smoke_params = None"
  by (simp_all add: smoke_params_def)

text \<open>The engine that \<open>New\<close> builds for the program has no verification store; the calls do not use it.\<close>

abbreviation smoke_engine :: "mem_world Engine" where
  "smoke_engine \<equiv> (memory_engine smoke_params)\<lparr>en_verifications := None\<rparr>"

lemma smoke_New:
  assumes "ext_bcrypt_MinCost (w_ext w) \<le> 10" and "10 \<le> ext_bcrypt_MaxCost (w_ext w)"
  shows "run_state (New smoke_config) w = (Inr smoke_engine, w\<lparr>w_limiter := NewInMemoryRateLimiter 10 time_Minute\<rparr>)"
  using assms
  by (simp add: New_def Config_validate_def smoke_config_def Config_applyDefaults_def NewBcryptHasher_def or_default_def
      NewCryptoRandTokenGenerator_def NewJWTIssuer_def Let_def memory_engine_def install_limiter_def smoke_params_def
      time_Minute_def time_Second_def)

lemma no_verifications:
  fixes e :: "'db world Engine"
  defines "e' \<equiv> e\<lparr>en_verifications := None\<rparr>"
  shows "en_users e' = en_users e" "en_sessions e' = en_sessions e" "en_audit e' = en_audit e" "en_hasher e' = en_hasher e"
    "en_ids e' = en_ids e" "en_rateLimiter e' = en_rateLimiter e" "en_refreshGen e' = en_refreshGen e"
    "en_jwtIssuer e' = en_jwtIssuer e" "en_log e' = en_log e" "en_lockoutThreshold e' = en_lockoutThreshold e"
    "en_lockoutDuration e' = en_lockoutDuration e"
  by (simp_all add: e'_def)

lemma smoke_calls:
  "cryden_SignUp smoke_engine = cryden_SignUp (memory_engine smoke_params)"
  "cryden_Login smoke_engine = cryden_Login (memory_engine smoke_params)"
  "RefreshToken smoke_engine = RefreshToken (memory_engine smoke_params)"
  "VerifyToken smoke_engine = VerifyToken (memory_engine smoke_params)"
  "ListSessions smoke_engine = ListSessions (memory_engine smoke_params)"
  "cryden_Logout smoke_engine = cryden_Logout (memory_engine smoke_params)"
  unfolding facade_defs [abs_def] RefreshToken_def [abs_def] refresh_answer_def [abs_def] no_verifications by (rule refl)+

section \<open>The environment\<close>

text \<open>
  The program runs where bcrypt takes the default cost and the password, the sources do not fail, identifiers
  are ASCII text and never repeated, bcrypt and jwt keep their documentation, and no hash matches both passwords.
\<close>

definition smoke_env :: "externals \<Rightarrow> bool" where
  "smoke_env x \<longleftrightarrow> ext_bcrypt_MinCost x \<le> 10 \<and> 10 \<le> ext_bcrypt_MaxCost x \<and> sources_work smoke_params x \<and>
     bcrypt_takes smoke_params x ''SecurePass123!'' \<and> (\<forall>k i. ext_uuid_NewV7 x k = Inr i \<longrightarrow> ascii i) \<and>
     unique_draws ext_uuid_NewV7 x \<and> bcrypt_sound x \<and> jwt_roundtrip x \<and> jwt_truncates x \<and>
     (\<forall>h. password_matches x h ''SecurePass123!'' \<longrightarrow> \<not> password_matches x h ''WrongPassword'')"

text \<open>
  What can still go wrong between two readings: two refresh tokens with the same hash are drawn, or the
  access token runs out of its fifteen minutes before it is verified.
\<close>

definition mishap :: "externals \<Rightarrow> nat \<Rightarrow> nat \<Rightarrow> bool" where
  "mishap x k k' \<longleftrightarrow>
     (\<exists>i j a b. k \<le> i \<and> i < j \<and> j < k' \<and> token_drawn \<lparr>cr_ByteLength = 32\<rparr> x i = Inr a \<and>
        token_drawn \<lparr>cr_ByteLength = 32\<rparr> x j = Inr b \<and> HashToken a = HashToken b) \<or>
     (\<exists>i j. k \<le> i \<and> i < j \<and> j < k' \<and> ext_now x i + (15 * time_Minute - time_Second) < ext_now x j)"

lemma mishap_mono: "mishap x k k' \<Longrightarrow> k' \<le> k'' \<Longrightarrow> mishap x k k''"
  unfolding mishap_def by (meson less_le_trans)

lemma mishap_token:
  assumes "drawn_between (token_drawn \<lparr>cr_ByteLength = 32\<rparr>) x k m a"
    and "drawn_between (token_drawn \<lparr>cr_ByteLength = 32\<rparr>) x m k' b" and "HashToken a = HashToken b"
  shows "mishap x k k'"
proof -
  from assms(1,2) obtain i j where "k \<le> i" "i < m" "token_drawn \<lparr>cr_ByteLength = 32\<rparr> x i = Inr a"
    "m \<le> j" "j < k'" "token_drawn \<lparr>cr_ByteLength = 32\<rparr> x j = Inr b"
    unfolding drawn_between_def by blast
  with assms(3) show ?thesis
    unfolding mishap_def by (intro disjI1 exI [of _ i] exI [of _ j] exI [of _ a] exI [of _ b]) simp
qed

section \<open>The account of the program\<close>

definition smoke_at :: "int \<Rightarrow> string \<Rightarrow> int \<Rightarrow> mem_world \<Rightarrow> bool" where
  "smoke_at n i a w \<longleftrightarrow> run_ok mem_inv mem_view w \<and> smoke_env (w_ext w) \<and> counts_upto n (w_limiter w) \<and>
     (\<exists>u. account_of (db_of w) alice u \<and> u_ID u = i \<and> u_LockedUntil u = None \<and> u_FailedAttempts u = a \<and>
        password_matches (w_ext w) (u_PasswordHash u) ''SecurePass123!'')"

lemma smoke_at_stdout [simp]: "smoke_at n i a (w\<lparr>w_stdout := l\<rparr>) = smoke_at n i a w"
  by (simp add: smoke_at_def run_ok_def)

lemma account_of_cong: "v_users v' = v_users v \<Longrightarrow> account_of v' email u = account_of v email u"
  by (simp add: account_of_def found_user_def)

lemma account_of_update:
  assumes "account_of v email u" and "v_users v' = (v_users v)(u_ID u \<mapsto> u')" and "u_ID u' = u_ID u" and "u_Email u' = u_Email u"
  shows "account_of v' email u'"
  using assms unfolding account_of_def found_user_def by (auto split: if_splits)

lemma smoke_at_kept:
  assumes "smoke_at n i a w" and "step smoke_params w w'" and "w_limiter w' = w_limiter w"
    and "v_users (db_of w') = v_users (db_of w)"
  shows "smoke_at n i a w'"
proof -
  have ok: "run_ok mem_inv mem_view w" using assms(1) by (simp add: smoke_at_def)
  have "w_ext w' = w_ext w" using step_frame [OF assms(2)] run_okD(1) [OF ok] by blast
  with assms(1,3) account_of_cong [OF assms(4)] mem_runs.call_run(1) [OF assms(2) ok] show ?thesis
    by (simp add: smoke_at_def)
qed

section \<open>The calls of the program\<close>

lemma counts_allow:
  assumes "counts_upto n (w_limiter w)" and "0 \<le> n" and "n < 10"
  shows "limiter_allows w key" and "counts_upto (n + 1) (w_limiter (after_limiter w key))"
  using Allow_at_counts [OF assms] by (simp_all add: limiter_allows_def after_limiter_def)

lemma SignUp_counts:
  assumes "mem_inv (w_db w)" and "counts_upto n (w_limiter w)" and "0 \<le> n" and "n < 10"
    and run: "run_state (cryden_SignUp (memory_engine p) email pw ip) w = (r, w')"
  shows "limiter_allows w (''signup:'' @ ip)" and "counts_upto (n + 1) (w_limiter w')"
proof -
  note c = counts_allow [OF assms(2-4), of "''signup:'' @ ip"]
  have "run_state (lm_Allow (en_rateLimiter (memory_engine p)) (''signup:'' @ ip)) w =
      (Inr True, after_limiter w (''signup:'' @ ip))"
    using c(1) by (simp only: limiter_verdict)
  from run_SignUp_allowed [OF this] run
  have "w_limiter w' = w_limiter (after_limiter w (''signup:'' @ ip))"
    unfolding cryden_SignUp_def using wpD [OF mem.signup_checked_limiter] assms(1) by simp
  with c show "limiter_allows w (''signup:'' @ ip)" and "counts_upto (n + 1) (w_limiter w')" by simp_all
qed

lemma Login_counts:
  assumes "mem_inv (w_db w)" and "counts_upto n (w_limiter w)" and "0 \<le> n" and "n < 10"
    and run: "run_state (cryden_Login (memory_engine p) email pw ip ua) w = (r, w')"
  shows "limiter_allows w (login_key ip email)" and "counts_upto (n + 1) (w_limiter w')"
proof -
  note c = counts_allow [OF assms(2-4), of "login_key ip email"]
  have "run_state (lm_Allow (en_rateLimiter (memory_engine p)) (login_key ip email)) w =
      (Inr True, after_limiter w (login_key ip email))"
    using c(1) by (simp only: limiter_verdict)
  from run_Login_allowed [OF this] run
  have "w_limiter w' = w_limiter (after_limiter w (login_key ip email))"
    unfolding cryden_Login_def using wpD [OF mem.login_checked_limiter] assms(1) by simp
  with c show "limiter_allows w (login_key ip email)" and "counts_upto (n + 1) (w_limiter w')" by simp_all
qed

lemma smoke_SignUp:
  assumes ok: "run_ok mem_inv mem_view w" and env: "smoke_env (w_ext w)" and "counts_upto 0 (w_limiter w)"
    and "v_users (db_of w) = Map.empty"
    and run: "run_state (cryden_SignUp (memory_engine smoke_params) alice ''SecurePass123!'' ip) w = (r, w')"
  obtains u where "r = Inr u" "smoke_at 1 (u_ID u) 0 w'" "v_sessions (db_of w') = v_sessions (db_of w)"
    "w_tick w \<le> w_tick w'" "w_ext w' = w_ext w"
proof -
  note inv = run_okD(1) [OF ok]
  have st: "step smoke_params w w'" using run by (rule step_SignUp)
  note c = SignUp_counts [OF inv assms(3) _ _ run]
  have eff: "w_ext w' = w_ext w" "w_tick w \<le> w_tick w'"
    using mem_runs.call_run(2) [OF st ok] by (simp_all add: run_effect_def)
  have free: "\<not> email_taken (db_of w) alice" using assms(4) by (simp add: email_taken_def)
  with SignUp_succeeds [OF inv _ _ run] env c(1) obtain u where r: "r = Inr u" by (auto simp: smoke_env_def)
  from SignUp_effect [OF inv run] r env obtain t where u: "password_matches (w_ext w) (u_PasswordHash u) ''SecurePass123!''"
      "u_Email u = alice" "u_FailedAttempts u = 0" "u_LockedUntil u = None"
      "v_users (db_of w') = (v_users (db_of w))(u_ID u \<mapsto> u\<lparr>u_CreatedAt := t, u_UpdatedAt := t\<rparr>)"
      "v_sessions (db_of w') = v_sessions (db_of w)"
    by (auto simp: smoke_env_def)
  have "account_of (db_of w') alice (u\<lparr>u_CreatedAt := t, u_UpdatedAt := t\<rparr>)"
    using u(2,5) assms(4) by (auto simp: account_of_def found_user_def split: if_splits)
  then have "smoke_at 1 (u_ID u) 0 w'"
    unfolding smoke_at_def using mem_runs.call_run(1) [OF st ok] c(2) u eff(1) env
    by (auto intro!: exI [of _ "u\<lparr>u_CreatedAt := t, u_UpdatedAt := t\<rparr>"])
  with r u eff that show thesis by blast
qed

lemma smoke_SignUp_again:
  assumes at: "smoke_at n i a w" and n: "0 \<le> n" "n < 10"
    and run: "run_state (cryden_SignUp (memory_engine smoke_params) alice pw ip) w = (r, w')"
  obtains e where "r = Inl e" "smoke_at (n + 1) i a w'" "v_sessions (db_of w') = v_sessions (db_of w)"
    "w_tick w \<le> w_tick w'" "w_ext w' = w_ext w"
proof -
  from at have ok: "run_ok mem_inv mem_view w" and env: "smoke_env (w_ext w)" and cn: "counts_upto n (w_limiter w)"
    and acc: "email_taken (db_of w) alice"
    by (auto simp: smoke_at_def dest: account_taken)
  have st: "step smoke_params w w'" using run by (rule step_SignUp)
  note c = SignUp_counts [OF run_okD(1) [OF ok] cn n run]
  have eff: "w_ext w' = w_ext w" "w_tick w \<le> w_tick w'"
    using mem_runs.call_run(2) [OF st ok] by (simp_all add: run_effect_def)
  from SignUp_verdicts [OF run_okD(1) [OF ok] _ run] env c(1) acc have r: "r = Inl ErrUserExists"
    by (auto simp: smoke_env_def)
  with SignUp_effect [OF run_okD(1) [OF ok] run] have same: "db_of w' = db_of w" by simp
  with at c(2) mem_runs.call_run(1) [OF st ok] eff(1) have "smoke_at (n + 1) i a w'" by (simp add: smoke_at_def)
  with r same eff that show thesis by simp
qed

lemma smoke_atE:
  assumes "smoke_at n i a w"
  obtains u where "run_ok mem_inv mem_view w" "smoke_env (w_ext w)" "counts_upto n (w_limiter w)" "account_of (db_of w) alice u"
    "u_ID u = i" "u_LockedUntil u = None" "u_FailedAttempts u = a"
    "password_matches (w_ext w) (u_PasswordHash u) ''SecurePass123!''"
  using assms unfolding smoke_at_def by blast

lemma smoke_Login:
  assumes at: "smoke_at n i a w" and n: "0 \<le> n" "n < 10"
    and run: "run_state (cryden_Login (memory_engine smoke_params) alice ''SecurePass123!'' ip ua) w = (r, w')"
  obtains tk j s k where "r = Inr tk" "smoke_at (n + 1) i 0 w'" "v_sessions (db_of w') = (v_sessions (db_of w))(j \<mapsto> s)"
    "v_sessions (db_of w) j = None" "s_ID s = j" "s_UserID s = i" "s_TokenHash s = HashToken (tk_RefreshToken tk)"
    "s_RevokedAt s = None"
    "drawn_between (token_drawn \<lparr>cr_ByteLength = 32\<rparr>) (w_ext w) (w_tick w) (w_tick w') (tk_RefreshToken tk)"
    "w_tick w \<le> k" "k < w_tick w'"
    "ext_jwt_SignedString (w_ext w) SigningMethodHS256 (access_claims (w_ext w) (ep_jwt smoke_params) i (ext_now (w_ext w) k))
       (ji_secret (ep_jwt smoke_params)) = Inr (tk_AccessToken tk)"
    "w_ext w' = w_ext w"
proof -
  from at obtain u where ok: "run_ok mem_inv mem_view w" and env: "smoke_env (w_ext w)" and cn: "counts_upto n (w_limiter w)"
    and u: "account_of (db_of w) alice u" "u_ID u = i" "u_LockedUntil u = None"
      "password_matches (w_ext w) (u_PasswordHash u) ''SecurePass123!''"
    by (rule smoke_atE)
  note inv = run_okD(1) [OF ok]
  have st: "step smoke_params w w'" using run by (rule step_Login)
  note c = Login_counts [OF inv cn n run]
  have ext: "w_ext w' = w_ext w" using mem_runs.call_run(2) [OF st ok] by (simp add: run_effect_def)
  have "unlocked_throughout w w' u" using u(3) by (simp add: unlocked_throughout_def)
  with Login_decides [OF inv c(1) u(1) _ run] env u(4) obtain tk where r: "r = Inr tk" by (auto simp: smoke_env_def)
  from Login_success [OF inv run [unfolded r]] obtain u' j t k where l: "found_user (db_of w) alice u'"
    "v_users (db_of w') = (v_users (db_of w))(u_ID u' \<mapsto> u'\<lparr>u_FailedAttempts := 0, u_LockedUntil := None\<rparr>)"
    "drawn_between ext_uuid_NewV7 (w_ext w) (w_tick w) (w_tick w') j"
    "drawn_between (token_drawn \<lparr>cr_ByteLength = 32\<rparr>) (w_ext w) (w_tick w) (w_tick w') (tk_RefreshToken tk)"
    "v_sessions (db_of w') = (v_sessions (db_of w))(j \<mapsto>
      \<lparr>s_ID = j, s_FamilyID = j, s_UserID = u_ID u', s_TokenHash = HashToken (tk_RefreshToken tk), s_IP = ip,
       s_UserAgent = ua, s_CreatedAt = t, s_RevokedAt = None\<rparr>)" "w_tick w \<le> k" "k < w_tick w'"
    "ext_jwt_SignedString (w_ext w) SigningMethodHS256
      (access_claims (w_ext w) (ep_jwt smoke_params) (u_ID u') (ext_now (w_ext w) k)) (ji_secret (ep_jwt smoke_params)) =
      Inr (tk_AccessToken tk)"
    by (force simp del: fun_upd_apply)
  have u': "u' = u" using l(1) u(1) by (simp add: account_of_def)
  have "account_of (db_of w') alice (u\<lparr>u_FailedAttempts := 0, u_LockedUntil := None\<rparr>)"
    by (rule account_of_update [OF u(1)]) (use l(2) u' in simp_all)
  then have at': "smoke_at (n + 1) i 0 w'"
    unfolding smoke_at_def using mem_runs.call_run(1) [OF st ok] c(2) u ext env
    by (auto intro!: exI [of _ "u\<lparr>u_FailedAttempts := 0, u_LockedUntil := None\<rparr>"])
  have new: "v_sessions (db_of w) j = None"
    using fresh_draw [OF run_okD(2) [OF ok] l(3)] session_invD(2) [OF run_okD(3) [OF ok], of j] by fastforce
  show thesis
    by (rule that [OF r at' l(5) new _ _ _ _ l(4,6,7) _ ext]) (use l(8) u' u(2) in simp_all)
qed

lemma smoke_Login_wrong:
  assumes at: "smoke_at n i 0 w" and n: "0 \<le> n" "n < 10"
    and run: "run_state (cryden_Login (memory_engine smoke_params) alice ''WrongPassword'' ip ua) w = (r, w')"
  obtains e where "r = Inl e" "smoke_at (n + 1) i 1 w'" "v_sessions (db_of w') = v_sessions (db_of w)"
    "w_tick w \<le> w_tick w'" "w_ext w' = w_ext w"
proof -
  from at obtain u where ok: "run_ok mem_inv mem_view w" and env: "smoke_env (w_ext w)" and cn: "counts_upto n (w_limiter w)"
    and u: "account_of (db_of w) alice u" "u_ID u = i" "u_LockedUntil u = None" "u_FailedAttempts u = 0"
      "password_matches (w_ext w) (u_PasswordHash u) ''SecurePass123!''"
    by (rule smoke_atE)
  note inv = run_okD(1) [OF ok]
  have st: "step smoke_params w w'" using run by (rule step_Login)
  note c = Login_counts [OF inv cn n run]
  have eff: "w_ext w' = w_ext w" "w_tick w \<le> w_tick w'"
    using mem_runs.call_run(2) [OF st ok] by (simp_all add: run_effect_def)
  have un: "unlocked_throughout w w' u" using u(3) by (simp add: unlocked_throughout_def)
  have wrong: "\<not> password_matches (w_ext w) (u_PasswordHash u) ''WrongPassword''" using env u(5) by (simp add: smoke_env_def)
  have r: "r = Inl ErrInvalidCredentials" "v_sessions (db_of w') = v_sessions (db_of w)"
    using Login_hides [OF inv c(1) run] u(1) un wrong by blast+
  from Login_failure_counts [OF inv c(1) u(1) run un wrong] u(3,4)
  have "v_users (db_of w') = (v_users (db_of w))(u_ID u \<mapsto> u\<lparr>u_FailedAttempts := 1, u_LockedUntil := None\<rparr>)"
    by auto
  then have "account_of (db_of w') alice (u\<lparr>u_FailedAttempts := 1, u_LockedUntil := None\<rparr>)"
    by (rule account_of_update [OF u(1)]) simp_all
  then have "smoke_at (n + 1) i 1 w'"
    unfolding smoke_at_def using mem_runs.call_run(1) [OF st ok] c(2) u eff(1) env
    by (auto intro!: exI [of _ "u\<lparr>u_FailedAttempts := 1, u_LockedUntil := None\<rparr>"])
  with r eff that show thesis by blast
qed

text \<open>What every other call of the program keeps.\<close>

lemma smoke_RefreshToken_kept:
  assumes at: "smoke_at n i a w" and run: "run_state (RefreshToken (memory_engine smoke_params) raw) w = (r, w')"
    and "v_users (db_of w') = v_users (db_of w)"
  shows "smoke_at n i a w'" and "w_tick w \<le> w_tick w'" and "w_ext w' = w_ext w"
proof -
  from at have ok: "run_ok mem_inv mem_view w" by (simp add: smoke_at_def)
  have lim: "w_limiter w' = w_limiter w" using wpD [OF mem.RefreshToken_limiter run] run_okD(1) [OF ok] by simp
  show "smoke_at n i a w'" using smoke_at_kept [OF at step_RefreshToken [OF run] lim assms(3)] .
  show "w_tick w \<le> w_tick w'" "w_ext w' = w_ext w" using RefreshToken_run(2,3) [OF run_okD(1) [OF ok] run] by simp_all
qed

text \<open>The first exchange: there is one session, it is active, and it holds the token.\<close>

lemma smoke_RefreshToken:
  assumes at: "smoke_at n i a w" and run: "run_state (RefreshToken (memory_engine smoke_params) raw) w = (r, w')"
    and S: "v_sessions (db_of w) = [j \<mapsto> s]" "s_ID s = j" "s_TokenHash s = HashToken raw" "s_RevokedAt s = None"
  obtains tk j' s' t where "r = Inr tk" "smoke_at n i a w'" "j' \<noteq> j"
    "v_sessions (db_of w') = [j \<mapsto> s\<lparr>s_RevokedAt := Some t\<rparr>, j' \<mapsto> s']" "s_ID s' = j'" "s_FamilyID s' = s_FamilyID s"
    "s_TokenHash s' = HashToken (tk_RefreshToken tk)"
    "drawn_between (token_drawn \<lparr>cr_ByteLength = 32\<rparr>) (w_ext w) (w_tick w) (w_tick w') (tk_RefreshToken tk)"
    "w_ext w' = w_ext w"
proof -
  from at have ok: "run_ok mem_inv mem_view w" and env: "smoke_env (w_ext w)" by (simp_all add: smoke_at_def)
  note inv = run_okD(1) [OF ok]
  have tok: "stored_token (db_of w) raw s" "\<forall>s'. stored_token (db_of w) raw s' \<longrightarrow> s' = s"
    using S by (auto simp: stored_token_def split: if_splits)
  have "sources_work smoke_params (w_ext w)" using env by (simp add: smoke_env_def)
  from RefreshToken_succeeds [OF inv this tok(1) S(4) tok(2)] run obtain tk where r: "r = Inr tk" by auto
  from RefreshToken_rotates [OF inv run [unfolded r]] obtain s0 j' t t' where
    o: "v_sessions (db_of w) (s_ID s0) = Some s0" "drawn_between ext_uuid_NewV7 (w_ext w) (w_tick w) (w_tick w') j'"
    "drawn_between (token_drawn \<lparr>cr_ByteLength = 32\<rparr>) (w_ext w) (w_tick w) (w_tick w') (tk_RefreshToken tk)"
    "v_sessions (db_of w') = (v_sessions (db_of w))(s_ID s0 \<mapsto> s0\<lparr>s_RevokedAt := Some t\<rparr>,
      j' \<mapsto> \<lparr>s_ID = j', s_FamilyID = s_FamilyID s0, s_UserID = s_UserID s0, s_TokenHash = HashToken (tk_RefreshToken tk),
            s_IP = s_IP s0, s_UserAgent = s_UserAgent s0, s_CreatedAt = t', s_RevokedAt = None\<rparr>)"
    "v_users (db_of w') = v_users (db_of w)"
    by (force simp del: fun_upd_apply)
  have s0: "s0 = s" using o(1) S by (auto split: if_splits)
  have "j' \<noteq> j"
    using fresh_draw [OF run_okD(2) [OF ok] o(2)] session_invD(2) [OF run_okD(3) [OF ok], of j s] S(1) by auto
  with that [OF r] smoke_RefreshToken_kept [OF at run o(5)] o(3,4) s0 S(1,2) show thesis by simp
qed

text \<open>The reuse: the first of the two sessions is revoked and alone has the token. No session stays active.\<close>

abbreviation (input) all_revoked :: "mem_world \<Rightarrow> bool" where
  "all_revoked w \<equiv> \<forall>i s. v_sessions (db_of w) i = Some s \<longrightarrow> s_RevokedAt s \<noteq> None"

lemma smoke_RefreshToken_reused:
  assumes at: "smoke_at n i a w" and run: "run_state (RefreshToken (memory_engine smoke_params) raw) w = (r, w')"
    and S: "v_sessions (db_of w) = [j \<mapsto> s, j' \<mapsto> s']" "j' \<noteq> j" "s_ID s = j" "s_ID s' = j'" "s_FamilyID s' = s_FamilyID s"
      "s_TokenHash s = HashToken raw" "s_TokenHash s' \<noteq> HashToken raw" "s_RevokedAt s \<noteq> None"
  obtains e where "r = Inl e" "smoke_at n i a w'" "all_revoked w'"
proof -
  from at have ok: "run_ok mem_inv mem_view w" by (simp add: smoke_at_def)
  have tok: "stored_token (db_of w) raw s" "\<forall>s'. stored_token (db_of w) raw s' \<longrightarrow> s' = s"
    using S by (auto simp: stored_token_def split: if_splits)
  note R = RefreshToken_reused [OF run_okD(1) [OF ok] run tok S(8)]
  have fam: "s_FamilyID s'' = s_FamilyID s" if "v_sessions (db_of w) k = Some s''" for k s''
    using that S(1,5) by (auto split: if_splits)
  have "all_revoked w'" using R fam by blast
  with R smoke_RefreshToken_kept [OF at run] that show thesis by blast
qed

text \<open>Once no session is active, every exchange fails and none becomes active.\<close>

lemma RefreshToken_all_revoked:
  assumes spec: "RefreshToken_spec {} d_id d_tok j raw x k k' v r v'"
    and all: "\<forall>i s. v_sessions v i = Some s \<longrightarrow> s_RevokedAt s \<noteq> None"
  shows "(\<exists>e. r = Inl e) \<and> v_users v' = v_users v \<and> (\<forall>i s. v_sessions v' i = Some s \<longrightarrow> s_RevokedAt s \<noteq> None)"
proof -
  have none: "\<not> (stored_token v raw s \<and> s_RevokedAt s = None)" for s using all by (auto simp: stored_token_def)
  then have "\<not> rotate_ok d_id d_tok x k k' raw v res err v1" for res err v1 by (auto simp: rotate_ok_def)
  with spec obtain e res v1 where r: "r = Inl e" and rot: "Rotate_spec {} d_id d_tok x k k' raw v (res, Some e) v1"
    and v': "if e = ErrTokenReused
       then audited {} (new_AuditEvent EventTokenReuseDetected (s_UserID (rr_Session res)) [] None) v1 v' else v' = v1"
    unfolding RefreshToken_spec_def by (cases r) auto
  have same: "v_sessions v' = v_sessions v1" "v_users v' = v_users v1"
    using v' by (auto dest: audited_data split: if_splits)
  from rot none have "v1 = v \<or> (\<exists>P t. v1 = v\<lparr>v_sessions := revoke_where P t (v_sessions v)\<rparr>)"
    by (auto simp: Rotate_spec_def rotate_defs)
  then have "v_users v1 = v_users v \<and> (\<forall>i s. v_sessions v1 i = Some s \<longrightarrow> s_RevokedAt s \<noteq> None)"
    using all by (auto simp: revoke_where_def split: if_splits)
  with r same show ?thesis by simp
qed

lemma smoke_RefreshToken_dead:
  assumes at: "smoke_at n i a w" and run: "run_state (RefreshToken (memory_engine smoke_params) raw) w = (r, w')"
    and "all_revoked w"
  obtains e where "r = Inl e" "smoke_at n i a w'" "all_revoked w'"
proof -
  from at have "mem_inv (w_db w)" by (auto simp: smoke_at_def dest: run_okD)
  note R = RefreshToken_all_revoked [OF RefreshToken_run(4) [OF this run] assms(3)]
  with smoke_RefreshToken_kept [OF at run] that show thesis by blast
qed

lemma smoke_ListSessions:
  assumes at: "smoke_at n i a w" and run: "run_state (ListSessions (memory_engine smoke_params) uid) w = (r, w')"
  obtains ss where "r = Inr ss" "smoke_at n i a w'" "db_of w' = db_of w" "distinct (map s_ID ss)"
    "set ss = {s. v_sessions (db_of w) (s_ID s) = Some s \<and> s_UserID s = uid \<and> s_RevokedAt s = None}"
proof -
  from at have inv: "mem_inv (w_db w)" by (auto simp: smoke_at_def dest: run_okD)
  from ListSessions_exact [OF inv run] obtain ss where ss: "r = Inr ss" "distinct (map s_ID ss)" "db_of w' = db_of w"
    "set ss = {s. v_sessions (db_of w) (s_ID s) = Some s \<and> s_UserID s = uid \<and> s_RevokedAt s = None}" by blast
  have lim: "w_limiter w' = w_limiter w"
    using wpD [OF mem.session_List_limiter run [unfolded ListSessions_def]] inv by simp
  with that [OF ss(1) _ ss(3,2,4)] smoke_at_kept [OF at step_ListSessions [OF run] lim] ss(3) show thesis by simp
qed

lemma smoke_Logout:
  assumes at: "smoke_at n i a w" and run: "run_state (cryden_Logout (memory_engine smoke_params) sid uid) w = (r, w')"
    and s: "v_sessions (db_of w) sid = Some s" "s_UserID s = uid" "s_RevokedAt s = None"
  obtains t where "r = None" "smoke_at n i a w'" "v_sessions (db_of w') = (v_sessions (db_of w))(sid \<mapsto> s\<lparr>s_RevokedAt := Some t\<rparr>)"
proof -
  from at have inv: "mem_inv (w_db w)" by (auto simp: smoke_at_def dest: run_okD)
  have lim: "w_limiter w' = w_limiter w"
    using wpD [OF mem.Logout_limiter run [unfolded cryden_Logout_def]] inv by simp
  from end_session_answers [OF inv insertI1 run] s have R: "r = None"
    "\<exists>t. v_sessions (db_of w') = (v_sessions (db_of w))(sid \<mapsto> s\<lparr>s_RevokedAt := Some t\<rparr>)"
    "v_users (db_of w') = v_users (db_of w)"
    by (auto split: if_splits)
  with that smoke_at_kept [OF at step_Logout [OF run] lim] show thesis by blast
qed

text \<open>The access token of the first login is accepted, unless the program took too long.\<close>

lemma smoke_VerifyToken:
  assumes at: "smoke_at n i a w" and run: "run_state (VerifyToken (memory_engine smoke_params) tok) w = (r, w')"
    and tok: "ext_jwt_SignedString (w_ext w) SigningMethodHS256
        (access_claims (w_ext w) (ep_jwt smoke_params) i (ext_now (w_ext w) k)) (ji_secret (ep_jwt smoke_params)) = Inr tok"
    and k: "k0 \<le> k" "k < w_tick w"
  shows "r = Inr i \<or> mishap (w_ext w) k0 (w_tick w')" and "w' = w\<lparr>w_tick := Suc (w_tick w)\<rparr>" and "smoke_at n i a w'"
proof -
  have env: "smoke_env (w_ext w)" using at by (simp add: smoke_at_def)
  note run' = run [unfolded VerifyToken_def, simplified]
  show w': "w' = w\<lparr>w_tick := Suc (w_tick w)\<rparr>" using run' by (simp add: run_JWTIssuer_Verify)
  have issued: "run_state (JWTIssuer_Issue (ep_jwt smoke_params) i) (w\<lparr>w_tick := k\<rparr>) = (Inr tok, w\<lparr>w_tick := Suc k\<rparr>)"
    using tok by (simp add: run_JWTIssuer_Issue)
  show "r = Inr i \<or> mishap (w_ext w) k0 (w_tick w')"
  proof (cases "ext_now (w_ext w) (w_tick w) \<le> ext_now (w_ext w) k + 15 * time_Minute - time_Second")
    case True
    from at have "drawn_between ext_uuid_NewV7 (w_ext w) 0 (w_tick w) i"
      by (auto simp: smoke_at_def account_of_def found_user_def dest: run_okD(4))
    with env have "ascii i" by (auto simp: smoke_env_def drawn_between_def)
    with JWTIssuer_Verify_issued [OF issued, of w] expiry_truncated [OF _ True] env run' show ?thesis
      by (simp add: smoke_env_def)
  next
    case False
    with k w' show ?thesis unfolding mishap_def by (intro disjI2 exI [of _ k] exI [of _ "w_tick w"]) auto
  qed
  show "smoke_at n i a w'"
    by (rule smoke_at_kept [OF at step_VerifyToken [OF run]]) (simp_all add: w')
qed

end
