(* ===== verification/Smoketest_Properties.thy ===== *)
theory Smoketest_Properties
  imports Smoketest_Calls
begin

text \<open>
  The smoke test passes: from empty memory stores every call of \<open>cmd/smoketest/main.go\<close> gives what the
  program expects, and \<open>main\<close> ends with \<open>ALL CHECKS PASSED\<close>. The proof executes the program symbolically,
  stretch by stretch; each stretch relies on what the earlier ones left in the store.
\<close>

section \<open>Printing and leaving\<close>

lemma wp_println: "Q () (w\<lparr>w_stdout := w_stdout w @ [l]\<rparr>) \<Longrightarrow> wp (println l) Q w"
  by (simp add: wp_def println_def)

lemma wp_os_Exit1: "Q False (w\<lparr>w_stdout := w_stdout w @ [l]\<rparr>) \<Longrightarrow> wp (os_Exit1 l) Q w"
  unfolding os_Exit1_def by (intro wp_intros wp_println)

lemma wp_check:
  "(\<And>l. err \<noteq> None \<Longrightarrow> Q False (w\<lparr>w_stdout := l\<rparr>)) \<Longrightarrow>
   (err = None \<Longrightarrow> wp rest Q (w\<lparr>w_stdout := w_stdout w @ [''OK   '' @ label]\<rparr>)) \<Longrightarrow> wp (check label err rest) Q w"
  unfolding check_def by (intro wp_intros wp_println wp_os_Exit1) auto

lemma wp_checked:
  "(\<And>l err. r = Inl err \<Longrightarrow> Q False (w\<lparr>w_stdout := l\<rparr>)) \<Longrightarrow>
   (\<And>x. r = Inr x \<Longrightarrow> wp (rest x) Q (w\<lparr>w_stdout := w_stdout w @ [''OK   '' @ label]\<rparr>)) \<Longrightarrow> wp (checked label r rest) Q w"
  unfolding checked_def by (intro wp_intros wp_check) auto

lemma wp_check_None:
  "wp rest Q (w\<lparr>w_stdout := w_stdout w @ [''OK   '' @ label]\<rparr>) \<Longrightarrow> wp (check label None rest) Q w"
  by (rule wp_check) simp_all

lemma wp_checked_Inr:
  "wp (rest x) Q (w\<lparr>w_stdout := w_stdout w @ [''OK   '' @ label]\<rparr>) \<Longrightarrow> wp (checked label (Inr x) rest) Q w"
  by (rule wp_checked) simp_all

lemma wp_Inl: "wp (f e) Q w \<Longrightarrow> wp (case Inl e of Inl e \<Rightarrow> f e | Inr y \<Rightarrow> g y) Q w"
  by simp

lemmas smoke_wp = wp_bind wp_return wp_if wp_case_sum wp_println wp_os_Exit1 wp_check wp_checked

text \<open>The clock and the sources only go forward, whatever the answers are.\<close>

abbreviation framed :: "(mem_world, bool) state \<Rightarrow> bool" where
  "framed m \<equiv> engine_op mem_inv mem_view m (\<lambda>_ _ _ _ _ _. True)"

lemmas wp_calls = wp_engine_op [OF mem.Login_meets] wp_engine_op [OF mem.session_List_meets]
  wp_engine_op [OF mem.Logout_meets] wp_engine_op [OF mem.RefreshToken_meets]

lemma smoke_logout_framed: "framed (smoke_logout smoke_engine user)"
  unfolding smoke_logout_def smoke_calls facade_defs Let_def
  by (rule engine_opI, (intro wp_calls smoke_wp; simp))

lemma smoke_reuse_framed: "framed (smoke_reuse smoke_engine user tokens newTokens)"
  unfolding smoke_reuse_def smoke_calls facade_defs Let_def
  by (rule engine_opI, (intro wp_calls wp_engine_op [OF smoke_logout_framed] smoke_wp; simp))

lemma smoke_refresh_framed: "framed (smoke_refresh smoke_engine user tokens)"
  unfolding smoke_refresh_def smoke_calls facade_defs Let_def
  by (rule engine_opI, (intro wp_calls wp_engine_op [OF smoke_reuse_framed] smoke_wp; simp))

lemma wp_framed_mishap:
  assumes "framed m" and "mem_inv (w_db w)" and "mishap x k (w_tick w)"
  shows "wp m (\<lambda>r w'. P r w' \<or> mishap x k (w_tick w')) w"
  by (rule wp_engine_op [OF assms(1,2)]) (use mishap_mono [OF assms(3)] in simp)

section \<open>The program\<close>

definition smoke_passed :: "bool \<Rightarrow> mem_world \<Rightarrow> bool" where
  "smoke_passed finished w \<longleftrightarrow> finished \<and> (\<exists>l. w_stdout w = l @ [''ALL CHECKS PASSED''])"

text \<open>The calls of the program, as steps of its symbolic execution.\<close>

lemma wp_smoke_Login:
  assumes "smoke_at n i a w" and "0 \<le> n" and "n < 10"
    and "\<And>tk j s k w'. smoke_at (n + 1) i 0 w' \<Longrightarrow> v_sessions (db_of w') = (v_sessions (db_of w))(j \<mapsto> s) \<Longrightarrow>
      s_ID s = j \<Longrightarrow> s_UserID s = i \<Longrightarrow> s_TokenHash s = HashToken (tk_RefreshToken tk) \<Longrightarrow> s_RevokedAt s = None \<Longrightarrow>
      drawn_between (token_drawn \<lparr>cr_ByteLength = 32\<rparr>) (w_ext w) (w_tick w) (w_tick w') (tk_RefreshToken tk) \<Longrightarrow>
      w_tick w \<le> k \<Longrightarrow> k < w_tick w' \<Longrightarrow>
      ext_jwt_SignedString (w_ext w) SigningMethodHS256 (access_claims (w_ext w) (ep_jwt smoke_params) i (ext_now (w_ext w) k))
        (ji_secret (ep_jwt smoke_params)) = Inr (tk_AccessToken tk) \<Longrightarrow> w_ext w' = w_ext w \<Longrightarrow> Q (Inr tk) w'"
  shows "wp (cryden_Login smoke_engine alice ''SecurePass123!'' ip ua) Q w"
  unfolding smoke_calls by (rule wpI, erule smoke_Login [OF assms(1-3)]) (simp only: assms(4))

lemma wp_smoke_ListSessions:
  assumes "smoke_at n i a w"
    and "\<And>ss w'. smoke_at n i a w' \<Longrightarrow> db_of w' = db_of w \<Longrightarrow> distinct (map s_ID ss) \<Longrightarrow>
      set ss = {s. v_sessions (db_of w) (s_ID s) = Some s \<and> s_UserID s = uid \<and> s_RevokedAt s = None} \<Longrightarrow> Q (Inr ss) w'"
  shows "wp (ListSessions smoke_engine uid) Q w"
  unfolding smoke_calls by (rule wpI, erule smoke_ListSessions [OF assms(1)]) (simp only: assms(2))

lemma wp_smoke_Logout:
  assumes "smoke_at n i a w" and "v_sessions (db_of w) sid = Some s" and "s_UserID s = uid" and "s_RevokedAt s = None"
    and "\<And>t w'. smoke_at n i a w' \<Longrightarrow> v_sessions (db_of w') = (v_sessions (db_of w))(sid \<mapsto> s\<lparr>s_RevokedAt := Some t\<rparr>) \<Longrightarrow>
      Q None w'"
  shows "wp (cryden_Logout smoke_engine sid uid) Q w"
  unfolding smoke_calls by (rule wpI, erule smoke_Logout [OF assms(1) _ assms(2-4)]) (simp only: assms(5))

lemma said: "smoke_at n i a w \<Longrightarrow> smoke_at n i a (w\<lparr>w_stdout := l\<rparr>)"
  by simp

text \<open>After a login over revoked sessions there is one session to list, and after its logout none.\<close>

lemma one_session:
  assumes "distinct (map s_ID ss)" and "set ss = {s}"
  shows "ss = [s]"
proof -
  have "length ss = 1" using assms distinct_card [of ss] by (simp add: distinct_map)
  then obtain x where "ss = [x]" by (cases ss) auto
  with assms(2) show ?thesis by simp
qed

lemma only_active:
  assumes "v_sessions v' = (v_sessions v)(s_ID s \<mapsto> s)" and "s_UserID s = i" and "s_RevokedAt s = None"
    and "\<forall>k s'. v_sessions v k = Some s' \<longrightarrow> s_RevokedAt s' \<noteq> None"
  shows "{s'. v_sessions v' (s_ID s') = Some s' \<and> s_UserID s' = i \<and> s_RevokedAt s' = None} = {s}"
proof (rule set_eqI)
  fix x :: Session
  show "x \<in> {s'. v_sessions v' (s_ID s') = Some s' \<and> s_UserID s' = i \<and> s_RevokedAt s' = None} \<longleftrightarrow> x \<in> {s}"
    using assms(1-3) assms(4) [rule_format, of "s_ID x" x] by (cases "s_ID x = s_ID s") auto
qed

lemma smoke_logout_passes:
  assumes at: "smoke_at n (u_ID user) a w" and n: "0 \<le> n" "n < 10" and none: "all_revoked w"
  shows "wp (smoke_logout smoke_engine user) smoke_passed w"
  unfolding smoke_logout_def Let_def
  apply (rule wp_bind, rule wp_smoke_Login [OF at n], rule wp_checked_Inr)
  apply (rule wp_bind, rule wp_smoke_ListSessions, erule said, rule wp_checked_Inr)
  subgoal premises prems for tk j s k w1 ss w2
  proof -
    have "set ss = {s}" using prems(15) only_active [OF _ prems(4,6) none, of "db_of w1"] prems(2,3) by simp
    then have ss: "ss = [s]" by (rule one_session [OF prems(14)])
    have w2: "v_sessions (db_of w2) = (v_sessions (db_of w))(s_ID s \<mapsto> s)" using prems(2,3,13) by simp
    have len: "length ss = 1" "ss ! 0 = s" using ss by simp_all
    show ?thesis
      unfolding len
      apply (rule wp_if, simp)
      apply (rule wp_bind, rule wp_smoke_Logout [OF said [OF prems(12)] _ prems(4,6)], simp add: w2)
      apply (rule wp_check_None, rule wp_bind, rule wp_smoke_ListSessions, erule said, rule wp_checked_Inr)
      subgoal premises prems' for t w3 ss' w4
      proof -
        have w3: "v_sessions (db_of w3) = (v_sessions (db_of w))(s_ID s \<mapsto> s\<lparr>s_RevokedAt := Some t\<rparr>)"
          using prems'(3) w2 by simp
        have "s_RevokedAt s' \<noteq> None" if "v_sessions (db_of w3) (s_ID s') = Some s'" for s'
          using that w3 none [rule_format, of "s_ID s'" s'] by (cases "s_ID s' = s_ID s") auto
        then have "set ss' = {}" using prems'(7) by auto
        then show ?thesis by (intro smoke_wp) (simp_all add: smoke_passed_def)
      qed
      done
  qed
  done

lemma wp_smoke_reused:
  assumes "smoke_at n i a w" and "v_sessions (db_of w) = [j \<mapsto> s, j' \<mapsto> s']" and "j' \<noteq> j" and "s_ID s = j" and "s_ID s' = j'"
    and "s_FamilyID s' = s_FamilyID s" and "s_TokenHash s = HashToken raw" and "s_TokenHash s' \<noteq> HashToken raw"
    and "s_RevokedAt s \<noteq> None"
    and "\<And>e w'. smoke_at n i a w' \<Longrightarrow> all_revoked w' \<Longrightarrow> Q (Inl e) w'"
  shows "wp (RefreshToken smoke_engine raw) Q w"
  unfolding smoke_calls
  by (rule wpI, erule smoke_RefreshToken_reused [OF assms(1) _ assms(2-9)]) (simp only: assms(10))

lemma wp_smoke_dead:
  assumes "smoke_at n i a w" and "all_revoked w" and "\<And>e w'. smoke_at n i a w' \<Longrightarrow> all_revoked w' \<Longrightarrow> Q (Inl e) w'"
  shows "wp (RefreshToken smoke_engine raw) Q w"
  unfolding smoke_calls
  by (rule wpI, erule smoke_RefreshToken_dead [OF assms(1) _ assms(2)]) (simp only: assms(3))

lemma smoke_reuse_passes:
  assumes at: "smoke_at n (u_ID user) a w" and n: "0 \<le> n" "n < 10"
    and S: "v_sessions (db_of w) = [j \<mapsto> s, j' \<mapsto> s']" "j' \<noteq> j" "s_ID s = j" "s_ID s' = j'"
      "s_FamilyID s' = s_FamilyID s" "s_TokenHash s = HashToken (tk_RefreshToken tokens)"
      "s_TokenHash s' \<noteq> HashToken (tk_RefreshToken tokens)" "s_RevokedAt s \<noteq> None"
  shows "wp (smoke_reuse smoke_engine user tokens newTokens) smoke_passed w"
  unfolding smoke_reuse_def
  apply (rule wp_bind, rule wp_smoke_reused [OF at S], rule wp_Inl, rule wp_bind, rule wp_println)
  apply (rule wp_bind, rule wp_smoke_dead, erule said, simp, rule wp_Inl, rule wp_bind, rule wp_println)
  apply (rule wp_bind, rule wp_smoke_ListSessions, erule said, rule wp_checked_Inr, rule wp_bind, rule wp_println)
  apply (rule smoke_logout_passes, (rule said)+, assumption, rule n(1), rule n(2), simp)
  done

lemma wp_smoke_rotate:
  assumes "smoke_at n i a w" and "v_sessions (db_of w) = [j \<mapsto> s]" and "s_ID s = j" and "s_TokenHash s = HashToken raw"
    and "s_RevokedAt s = None"
    and "\<And>tk j' s' t w'. smoke_at n i a w' \<Longrightarrow> j' \<noteq> j \<Longrightarrow>
      v_sessions (db_of w') = [j \<mapsto> s\<lparr>s_RevokedAt := Some t\<rparr>, j' \<mapsto> s'] \<Longrightarrow> s_ID s' = j' \<Longrightarrow> s_FamilyID s' = s_FamilyID s \<Longrightarrow>
      s_TokenHash s' = HashToken (tk_RefreshToken tk) \<Longrightarrow>
      drawn_between (token_drawn \<lparr>cr_ByteLength = 32\<rparr>) (w_ext w) (w_tick w) (w_tick w') (tk_RefreshToken tk) \<Longrightarrow>
      w_ext w' = w_ext w \<Longrightarrow> Q (Inr tk) w'"
  shows "wp (RefreshToken smoke_engine raw) Q w"
  unfolding smoke_calls
  by (rule wpI, erule smoke_RefreshToken [OF assms(1) _ assms(2-5)]) (simp only: assms(6))

lemma smoke_refresh_passes:
  assumes at: "smoke_at n (u_ID user) a w" and n: "0 \<le> n" "n < 10"
    and S: "v_sessions (db_of w) = [j \<mapsto> s]" "s_ID s = j" "s_TokenHash s = HashToken (tk_RefreshToken tokens)" "s_RevokedAt s = None"
    and tok: "drawn_between (token_drawn \<lparr>cr_ByteLength = 32\<rparr>) (w_ext w) k (w_tick w) (tk_RefreshToken tokens)"
  shows "wp (smoke_refresh smoke_engine user tokens) (\<lambda>r w'. smoke_passed r w' \<or> mishap (w_ext w) k (w_tick w')) w"
  unfolding smoke_refresh_def
  apply (rule wp_bind, rule wp_smoke_rotate [OF at S], rule wp_checked_Inr)
  subgoal premises prems for tk j' s' t w1
  proof (cases "HashToken (tk_RefreshToken tk) = HashToken (tk_RefreshToken tokens)")
    case True
    have "mishap (w_ext w) k (w_tick w1)" by (rule mishap_token [OF tok prems(7)]) (simp only: True)
    moreover have "mem_inv (w_db w1)" using prems(1) by (auto simp: smoke_at_def dest: run_okD)
    ultimately show ?thesis by (intro smoke_wp wp_framed_mishap [OF smoke_reuse_framed]) simp_all
  next
    case False
    then have "tk_RefreshToken tk \<noteq> tk_RefreshToken tokens" by metis
    then show ?thesis
      apply (intro wp_if wp_bind wp_println, simp)
      apply (rule wp_mono, rule smoke_reuse_passes [where j = j and j' = j' and s = "s\<lparr>s_RevokedAt := Some t\<rparr>" and s' = s'])
      using prems False S n by simp_all
  qed
  done

lemma wp_smoke_wrong:
  assumes "smoke_at n i 0 w" and "0 \<le> n" and "n < 10"
    and "\<And>e w'. smoke_at (n + 1) i 1 w' \<Longrightarrow> v_sessions (db_of w') = v_sessions (db_of w) \<Longrightarrow> w_tick w \<le> w_tick w' \<Longrightarrow>
      w_ext w' = w_ext w \<Longrightarrow> Q (Inl e) w'"
  shows "wp (cryden_Login smoke_engine alice ''WrongPassword'' ip ua) Q w"
  unfolding smoke_calls by (rule wpI, erule smoke_Login_wrong [OF assms(1-3)]) (simp only: assms(4))

lemma wp_smoke_verify:
  assumes at: "smoke_at n i a w"
    and tok: "ext_jwt_SignedString (w_ext w) SigningMethodHS256
        (access_claims (w_ext w) (ep_jwt smoke_params) i (ext_now (w_ext w) k)) (ji_secret (ep_jwt smoke_params)) = Inr tok"
    and k: "k0 \<le> k" "k < w_tick w"
    and Q: "\<And>r w'. r = Inr i \<or> mishap (w_ext w) k0 (w_tick w') \<Longrightarrow> w_db w' = w_db w \<Longrightarrow> w_ext w' = w_ext w \<Longrightarrow>
      w_tick w \<le> w_tick w' \<Longrightarrow> smoke_at n i a w' \<Longrightarrow> Q r w'"
  shows "wp (VerifyToken smoke_engine tok) Q w"
  unfolding smoke_calls
proof (rule wpI)
  fix r w' assume "run_state (VerifyToken (memory_engine smoke_params) tok) w = (r, w')"
  note V = smoke_VerifyToken [OF at this tok k]
  show "Q r w'" by (rule Q [OF V(1) _ _ _ V(3)]) (simp_all add: V(2))
qed

lemma smoke_verified_passes:
  assumes r: "r = Inr (u_ID user) \<or> mishap (w_ext w) k (w_tick w)"
    and at: "smoke_at n (u_ID user) a w" and n: "0 \<le> n" "n < 10"
    and S: "v_sessions (db_of w) = [j \<mapsto> s]" "s_ID s = j" "s_TokenHash s = HashToken (tk_RefreshToken tokens)" "s_RevokedAt s = None"
    and tok: "drawn_between (token_drawn \<lparr>cr_ByteLength = 32\<rparr>) (w_ext w) k (w_tick w) (tk_RefreshToken tokens)"
  shows "wp (checked ''verify token'' r (\<lambda>userID.
         if userID \<noteq> u_ID user then os_Exit1 (''FAIL verify token: expected '' @ u_ID user @ '', got '' @ userID)
         else do { _ \<leftarrow> println ''OK   verified user id matches''; smoke_refresh smoke_engine user tokens }))
      (\<lambda>r w'. smoke_passed r w' \<or> mishap (w_ext w) k (w_tick w')) w"
  using r
proof
  assume "r = Inr (u_ID user)"
  moreover have "wp (smoke_refresh smoke_engine user tokens) (\<lambda>r w'. smoke_passed r w' \<or> mishap (w_ext w) k (w_tick w'))
      (w\<lparr>w_stdout := l\<rparr>)" for l
    using smoke_refresh_passes [OF said [OF at] n, where tokens = tokens and j = j and s = s and k = k] S tok by simp
  ultimately show ?thesis by (intro smoke_wp) simp_all
next
  assume "mishap (w_ext w) k (w_tick w)"
  moreover have "mem_inv (w_db w)" using at by (auto simp: smoke_at_def dest: run_okD)
  ultimately show ?thesis by (intro smoke_wp wp_framed_mishap [OF smoke_refresh_framed]) simp_all
qed

lemma smoke_login_passes:
  assumes at: "smoke_at n (u_ID user) a w" and n: "0 \<le> n" "n < 8" and none: "v_sessions (db_of w) = Map.empty"
    and k0: "k0 \<le> w_tick w"
  shows "wp (smoke_login smoke_engine user) (\<lambda>r w'. smoke_passed r w' \<or> mishap (w_ext w) k0 (w_tick w')) w"
  unfolding smoke_login_def
  apply (rule wp_bind, rule wp_smoke_Login [OF at], rule n(1), use n(2) in simp)
  apply (rule wp_checked_Inr, rule wp_bind, rule wp_println)
  apply (rule wp_bind, rule wp_smoke_wrong, erule said [THEN said], use n in simp, use n in simp)
  apply (rule wp_Inl, rule wp_bind, rule wp_println)
  subgoal premises prems for tk j s k w1 e w2
    apply (rule wp_bind, rule wp_smoke_verify [where k = k and ?k0.0 = k0, OF said [OF prems(12)]])
       apply (use prems k0 in simp_all) [3]
    subgoal premises V for r w3
    proof -
      have x: "w_ext w3 = w_ext w" "w_tick w1 \<le> w_tick w3" using prems(11,14,15) V(3,4) by simp_all
      have tok: "drawn_between (token_drawn \<lparr>cr_ByteLength = 32\<rparr>) (w_ext w3) k0 (w_tick w3) (tk_RefreshToken tk)"
        unfolding x(1) by (rule drawn_between_mono [OF prems(7) k0 x(2)])
      have "r = Inr (u_ID user) \<or> mishap (w_ext w3) k0 (w_tick w3)" using V(1) prems(11,15) x(1) by simp
      from smoke_verified_passes [OF this V(5) _ _ _ prems(3,5,6) tok] n prems(2,13) V(2) none show ?thesis
        by (simp add: x(1))
    qed
    done
  done

text \<open>The first calls, and the whole program.\<close>

lemma wp_smoke_SignUp:
  assumes "run_ok mem_inv mem_view w" and "smoke_env (w_ext w)" and "counts_upto 0 (w_limiter w)"
    and "v_users (db_of w) = Map.empty"
    and "\<And>u w'. smoke_at 1 (u_ID u) 0 w' \<Longrightarrow> v_sessions (db_of w') = v_sessions (db_of w) \<Longrightarrow> w_tick w \<le> w_tick w' \<Longrightarrow>
      w_ext w' = w_ext w \<Longrightarrow> Q (Inr u) w'"
  shows "wp (cryden_SignUp smoke_engine alice ''SecurePass123!'' ip) Q w"
  unfolding smoke_calls by (rule wpI, erule smoke_SignUp [OF assms(1-4)]) (simp only: assms(5))

lemma wp_smoke_SignUp_again:
  assumes "smoke_at n i a w" and "0 \<le> n" and "n < 10"
    and "\<And>e w'. smoke_at (n + 1) i a w' \<Longrightarrow> v_sessions (db_of w') = v_sessions (db_of w) \<Longrightarrow> w_tick w \<le> w_tick w' \<Longrightarrow>
      w_ext w' = w_ext w \<Longrightarrow> Q (Inl e) w'"
  shows "wp (cryden_SignUp smoke_engine alice pw ip) Q w"
  unfolding smoke_calls by (rule wpI, erule smoke_SignUp_again [OF assms(1-3)]) (simp only: assms(4))

lemma wp_smoke_New:
  assumes "smoke_env (w_ext w)" and "Q (Inr smoke_engine) (w\<lparr>w_limiter := NewInMemoryRateLimiter 10 time_Minute\<rparr>)"
  shows "wp (New smoke_config) Q w"
  using assms smoke_New [of w] by (simp add: wp_def smoke_env_def)

lemma smoke_main_passes:
  assumes db: "w_db w = NewMemoryDB" and env: "smoke_env (w_ext w)"
  shows "wp smoke_main (\<lambda>r w'. smoke_passed r w' \<or> mishap (w_ext w) (w_tick w) (w_tick w')) w"
  unfolding smoke_main_def
  apply (rule wp_bind, rule wp_smoke_New [OF env], rule wp_checked_Inr)
  apply (rule wp_bind, rule wp_smoke_SignUp)
      apply (rule run_ok_new)
       apply (use env db in \<open>simp_all add: smoke_env_def counts_upto_new mem_view_simps NewMemoryDB_def\<close>) [5]
  apply (rule wp_checked_Inr, rule wp_bind, rule wp_println)
  apply (rule wp_bind, rule wp_smoke_SignUp_again, erule said [THEN said], simp, simp)
  apply (rule wp_Inl, rule wp_bind, rule wp_println)
  subgoal premises prems for u w1 e w2
  proof -
    have x: "w_ext w2 = w_ext w" "w_tick w \<le> w_tick w2" using prems(3,4,7,8) by simp_all
    have "v_sessions (db_of w2) = Map.empty"
      using prems(2,6) db by (simp add: mem_view_simps NewMemoryDB_def)
    with smoke_login_passes [OF said [OF prems(5)], where ?k0.0 = "w_tick w"] x show ?thesis by simp
  qed
  done

text \<open>C16. The smoke test passes. Started over empty memory stores, where the sources work and bcrypt and jwt
  keep their documentation, the program runs to its end and the last line it prints is \<open>ALL CHECKS PASSED\<close>: no
  check fails and it does not leave with status 1. The two accidents that the program cannot exclude are named: two refresh
  tokens with the same hash were drawn during the run, or the clock advanced by more than the lifetime of the access
  token less a second.\<close>

theorem smoke_test_passes:
  assumes "w_db w = NewMemoryDB" and "smoke_env (w_ext w)" and "run_state smoke_main w = (finished, w')"
  shows "smoke_passed finished w' \<or> mishap (w_ext w) (w_tick w) (w_tick w')"
  using wpD [OF smoke_main_passes [OF assms(1,2)] assms(3)] .

text \<open>A world for the program: its clock stands still, and its signer writes down the subject.\<close>

definition smoke_claims :: "string \<Rightarrow> RegisteredClaims" where
  "smoke_claims u = \<lparr>jc_Subject = u, jc_IssuedAt = Some 0, jc_ExpiresAt = Some (15 * time_Minute)\<rparr>"

definition smoke_ext :: externals where
  "smoke_ext = sample_ext
     \<lparr>ext_now := (\<lambda>k. 0),
      ext_jwt_SignedString := (\<lambda>m c key.
        if m = SigningMethodHS256 \<and> c = smoke_claims (jc_Subject c) \<and> key = ''test-secret-do-not-use-in-prod''
        then Inr (jc_Subject c) else Inl (ExternalError ''unknown'')),
      ext_jwt_ParseWithClaims := (\<lambda>now tok kf.
        if \<not> not_expired (smoke_claims tok) now then Inl (ExternalError ''expired'')
        else (case kf \<lparr>jt_Method = SigningMethodHS256, jt_Claims = smoke_claims tok, jt_Valid = False\<rparr> of
                Inl e \<Rightarrow> Inl e
              | Inr key \<Rightarrow>
                  if key = ''test-secret-do-not-use-in-prod''
                  then Inr \<lparr>jt_Method = SigningMethodHS256, jt_Claims = smoke_claims tok, jt_Valid = True\<rparr>
                  else Inl (ExternalError ''signature'')))\<rparr>"

lemma smoke_ext_jwt: "jwt_roundtrip smoke_ext" "jwt_truncates smoke_ext"
proof -
  show "jwt_roundtrip smoke_ext"
    unfolding jwt_roundtrip_def by (clarsimp simp: smoke_ext_def split: if_splits)
  show "jwt_truncates smoke_ext" by (simp add: jwt_truncates_def smoke_ext_def)
qed

lemma smoke_ext_env: "smoke_env smoke_ext"
proof -
  have "sources_work smoke_params smoke_ext"
    by (simp add: sources_work_def smoke_ext_def access_claims_def smoke_claims_def time_Minute_def time_Second_def)
  moreover have "unique_draws ext_uuid_NewV7 smoke_ext" using sample_unique by (simp add: unique_draws_def smoke_ext_def)
  moreover have "bcrypt_sound smoke_ext" by (auto simp: bcrypt_sound_def smoke_ext_def password_matches_def)
  moreover have "bcrypt_takes smoke_params smoke_ext pw" "ascii (replicate k (CHR ''u''))" for pw k
    by (simp_all add: bcrypt_takes_def smoke_ext_def ascii_def)
  ultimately show ?thesis using smoke_ext_jwt by (simp add: smoke_env_def smoke_ext_def password_matches_def)
qed

theorem smoke_test_passes_witness:
  "\<exists>finished w'. run_state smoke_main ((sample_world NewMemoryDB)\<lparr>w_ext := smoke_ext\<rparr>) = (finished, w') \<and>
     (smoke_passed finished w' \<or>
      (\<exists>i j a b. i < j \<and> j < w_tick w' \<and> token_drawn \<lparr>cr_ByteLength = 32\<rparr> smoke_ext i = Inr a \<and>
         token_drawn \<lparr>cr_ByteLength = 32\<rparr> smoke_ext j = Inr b \<and> HashToken a = HashToken b))"
proof -
  let ?w = "(sample_world NewMemoryDB)\<lparr>w_ext := smoke_ext\<rparr>"
  obtain finished w' where run: "run_state smoke_main ?w = (finished, w')" by fastforce
  have "ext_now smoke_ext k = 0" for k by (simp add: smoke_ext_def)
  with smoke_test_passes [OF _ _ run] smoke_ext_env run show ?thesis
    by (fastforce simp: mishap_def time_Minute_def time_Second_def)
qed

end
