(* ===== verification/Spec2Isabelle.thy ===== *)
theory Spec2Isabelle
  imports Component_Properties Email_Properties Lockout_Properties Concurrent_Properties Smoketest_Properties
begin

text \<open>
  A verification development for the Go authentication engine cryden.

  \<^bold>\<open>The program.\<close> An application calls the functions of \<open>cryden.go\<close> on an engine that \<open>New\<close> (\<open>engine.go\<close>)
  builds from a \<open>Config\<close> (\<open>config.go\<close>). The functions delegate to the packages \<open>auth\<close> (sign-up, login,
  password and email change, account deletion, logout), \<open>session\<close> (listing and revoking) and \<open>token\<close>
  (signed access tokens, rotation of refresh tokens). These reach the stored data through the
  interfaces of \<open>store/interfaces.go\<close>, which \<open>store/memory\<close> and \<open>store/postgres\<close> implement, and use
  \<open>security\<close> (bcrypt, identifiers, the rate limiter), \<open>logger\<close> and \<open>notify\<close>. \<open>cmd/smoketest\<close> is a program that
  drives an engine over the memory stores and checks its answers.

  \<^bold>\<open>How it is modelled.\<close> A Go function is a computation of the state monad over \<open>'db world\<close> (theory
  \<open>World\<close>): the backend \<open>w_db\<close>, the limiter, standard output, the sent mail, and \<open>w_ext\<close>, the code that is
  not part of the repository (clock, entropy, map iteration order, UUIDs, bcrypt, the JWT package) as
  functions of a draw counter \<open>w_tick\<close>. Two calls at different ticks may answer differently, so nothing is
  assumed of the clock or of bcrypt unless a theorem says so. A theorem that needs a source not to fail says so for
  identifiers, entropy and signatures (\<open>sources_work\<close>), and for bcrypt only of the password at hand, since the package
  refuses a password of more than 72 bytes. An \<open>(x, error)\<close> result is \<open>error + 'a\<close> or
  \<open>error option\<close>; Go's \<open>int\<close> is an \<open>int\<close> with \<open>wrap64\<close> where it is incremented; SHA-256 works on 32-bit
  words. Interfaces are records of operations, so the code of \<open>auth\<close>, \<open>token\<close> and \<open>session\<close> is parametric
  in the stores exactly as in Go.

  \<^bold>\<open>The theories.\<close>
  \<^item> \<open>Prelude\<close>: Go maps and range loops, the \<open>wp\<close> rules, time, decimal and hexadecimal text.
  \<^item> \<open>Rate_Limiter\<close> (\<open>security/ratelimiter.go\<close>), \<open>Security\<close> (\<open>security/hasher.go\<close>, \<open>idgen.go\<close>),
    \<open>Sha256\<close>, \<open>Token\<close> (\<open>token/generator.go\<close>, \<open>jwt.go\<close>, \<open>HashToken\<close>), \<open>Console_Logger\<close> (\<open>logger/console.go\<close>).
  \<^item> \<open>World\<close>, \<open>Store\<close>: errors, externals, the data types and interfaces of \<open>store/interfaces.go\<close>, the
    abstract view \<open>dbview\<close> of a backend, one specification per operation, and the locales \<open>user_store\<close>,
    \<open>session_store\<close>, \<open>audit_store\<close>, \<open>verification_store\<close> that promise them. A specification has a set of faults: a
    backend may fail with one of them, the memory stores have none.
  \<^item> \<open>Memory_Store\<close> (\<open>store/memory\<close>): every operation, and the interpretations of the four locales.
  \<^item> \<open>Sql_Tables\<close> (the schema in \<open>store/postgres/migrations\<close> and the effect of the statements on its tables),
    \<open>Postgres_Store\<close> (\<open>store/postgres\<close>, every method, the transaction of \<open>RotateToken\<close> statement by statement),
    \<open>Postgres_Users\<close>, \<open>Postgres_Contracts\<close>: the constraints of the schema as the invariant \<open>pg_inv\<close>, and the
    interpretations of the same four locales, with every error of the server as a fault.
  \<^item> \<open>Rotation\<close> (\<open>token/refresh.go\<close>), \<open>Auth_Signup\<close>, \<open>Auth_Login\<close>, \<open>Auth_Account\<close>, \<open>Auth_Logout\<close>, \<open>Auth_Email\<close>
    (\<open>auth/*.go\<close>, \<open>session/session.go\<close>, \<open>notify\<close>): each program, a specification over \<open>dbview\<close>, and a locale
    in which the program is proved to meet it over any stores that keep their contracts.
  \<^item> \<open>Engine\<close> (\<open>config.go\<close>, \<open>engine.go\<close>, \<open>cryden.go\<close>), with the relation \<open>call\<close>: one call of a public function,
    with any arguments.
  \<^item> \<open>Session_Invariants\<close>, \<open>Engine_Runs\<close>, \<open>Run_Invariants\<close>: what the specifications keep true of the sessions and
    users, the invariant \<open>run_ok\<close> of all states that sequences of calls reach, and what follows along a run.
    All of it is proved in the locale \<open>engine_runs\<close>, for any backend that keeps the contracts.
  \<^item> \<open>Interleaving\<close>: requests that overlap. The programs of the public functions are composed of a half that reads
    and checks and a half that acts on it; \<open>arrive\<close> and \<open>finish\<close> are these halves as the two steps of a server, the
    halves are proved to compose to the public functions, and the relation \<open>serve\<close> lets any number of requests wait
    between them while others run. \<open>Interleaving_Specs\<close>: the promise of each half over any backend, and what is
    tracked of the server. \<open>Interleaving_Runs\<close>: in the locale \<open>guarded_runs\<close>, which extends \<open>engine_runs\<close> by what a
    backend must check when a request acts, the invariant of every interleaving.
  \<^item> \<open>Memory_Engine\<close>, \<open>Postgres_Engine\<close>: the engine over the two backends, and the interpretations of the
    locales \<open>engine\<close>, \<open>email_change\<close> and \<open>engine_runs\<close> on them, and of \<open>guarded_runs\<close> on Postgres.
  \<^item> \<open>Smoketest\<close> (\<open>cmd/smoketest/main.go\<close>): the whole of \<open>main\<close>, with \<open>os.Exit(1)\<close> as its result \<open>False\<close>;
    \<open>Smoketest_Calls\<close>, \<open>Smoketest_Properties\<close>: each of its calls in the state in which it is made, and the program.
  \<^item> \<open>Sample_World\<close>, \<open>Sample_Digest\<close>, \<open>Sample_Postgres\<close>: concrete worlds for the witnesses.
  \<^item> \<open>Component_Properties\<close>, \<open>Auth_Properties\<close>, \<open>Account_Properties\<close>, \<open>Session_Properties\<close>, \<open>Email_Properties\<close>,
    \<open>Lockout_Properties\<close>, \<open>Postgres_Properties\<close>, \<open>Concurrent_Properties\<close> and this theory: the properties, from single
    components to whole runs.

  \<^bold>\<open>What is shown.\<close> Each operation of the engine does what its specification says on every branch, over both
  backends. Along every run a family of sessions has one owner and at most one active session, revocation
  and deletion are final, and a refresh token is exchanged once. Single components: the limiter's window, the
  lockout, the email-change round trip, access tokens, the log line, SHA-256. \<open>New\<close> accepts the configurations that it
  should, and the tokens of an engine that it built have the configured strength and lifetime. The smoke test, a run through
  sign-up, login, verification, exchange, reuse, listing and logout, passes. Over Postgres
  the invariants and the finality of revocation and deletion hold for overlapping requests of every kind too, and no
  two overlapping exchanges of one token succeed.
  The backends differ in four places, which are theorems: the memory stores rotate a session that was revoked
  after its lookup, create a session for a user that was deleted after the password check, store a user whose
  address was taken after it was found free, and let an email change take an address that is in use; Postgres does
  none of these. Over both backends a login whose password was changed after it was checked still opens a session.

  \<^bold>\<open>Bounds.\<close> There is no fuel: every loop of the program is a recursion over finite data. Time is an
  unbounded integer of nanoseconds; the range of \<open>time.Time\<close> and overflow of \<open>time.Duration\<close> sums are
  not modelled. The mutexes of the memory stores and of the limiter, and the statements and transactions of
  the server, make the operations of the stores atomic. In \<open>call\<close> the calls of the engine run one after the
  other. In \<open>serve\<close> they overlap: between its checking and its acting half a request may wait while any other halves
  run. A half itself runs without interruption, so the several writes of one half, such as the new password hash and
  the revocation of the sessions, are not separated. \<open>LogoutAll\<close>, \<open>ListSessions\<close> and \<open>VerifyToken\<close> act on nothing
  that they read earlier, their first half is empty.

  \<^bold>\<open>The database.\<close> The server is a parameter: which statements it fails, \<open>now()\<close>, \<open>gen_random_uuid()\<close>, the order
  of a scan, the precision of a \<open>TIMESTAMPTZ\<close>. Theorems about Postgres hold for every such server, so an
  identifier that is no UUID, a cancelled context or a lost connection is one of its failing statements. A
  failing statement has no effect, and the transaction of \<open>RotateToken\<close> is one step of the server: a statement of
  another request between its \<open>UPDATE\<close> and its \<open>INSERT\<close> is not modelled, and neither is a commit that succeeds while its acknowledgement is lost.
  Identifiers are compared as they are written, and a \<open>JSONB\<close> value is kept as the map it encodes.

  \<^bold>\<open>Not modelled.\<close> Contexts and cancellation, which the code only passes on.
\<close>

section \<open>Invariants of every run\<close>

text \<open>C1. In every state that any sequence of calls reaches from an empty store, with identifiers that the
  generator never repeats: sessions are filed under their identifiers, all sessions of a family belong to
  one user, a family has at most one active session, and an active session belongs to a user that exists.\<close>

theorem engine_invariant:
  assumes "unique_draws ext_uuid_NewV7 (w_ext w0)" and "w_db w0 = NewMemoryDB" and "steps p w0 w"
  shows "run_ok mem_inv mem_view w \<and>
    (\<forall>i s. v_sessions (db_of w) i = Some s \<longrightarrow>
       s_ID s = i \<and> (s_RevokedAt s = None \<longrightarrow> v_users (db_of w) (s_UserID s) \<noteq> None) \<and>
       (\<forall>j s'. v_sessions (db_of w) j = Some s' \<longrightarrow> s_FamilyID s' = s_FamilyID s \<longrightarrow>
          s_UserID s' = s_UserID s \<and> (s_RevokedAt s = None \<longrightarrow> s_RevokedAt s' = None \<longrightarrow> i = j)))"
  using mem_runs.calls_run [OF assms(3) run_ok_new [OF assms(1,2)]] run_ok_sessions by blast

theorem engine_invariant_witness:
  "\<exists>r w. run_state (cryden_SignUp (memory_engine sample_params) ''bob@x.org'' ''pw'' ''10.0.0.1'') (sample_world NewMemoryDB) = (r, w) \<and>
     run_ok mem_inv mem_view w"
proof -
  obtain r w where run: "run_state (cryden_SignUp (memory_engine sample_params) ''bob@x.org'' ''pw'' ''10.0.0.1'')
      (sample_world NewMemoryDB) = (r, w)" by fastforce
  then have "steps sample_params (sample_world NewMemoryDB) w" by (intro r_into_rtranclp step_SignUp)
  from engine_invariant [OF _ _ this] run show ?thesis by (simp add: sample_unique)
qed

text \<open>A state of a run for the witnesses: one user, and one session in its own family.\<close>

definition sample_run :: "Time option \<Rightarrow> mem_world" where
  "sample_run revoked = (sample_world (sample_db [sample_session ''uu'' ''uu'' ''abc'' revoked]))\<lparr>w_tick := 3\<rparr>"

lemma sample_run_simps [simp]:
  "w_db (sample_run t) = sample_db [sample_session ''uu'' ''uu'' ''abc'' t]" "w_ext (sample_run t) = sample_ext"
  "w_tick (sample_run t) = 3"
  by (simp_all add: sample_run_def)

lemma sample_run_ok [simp]: "run_ok mem_inv mem_view (sample_run t)"
  by (auto simp: run_ok_def sample_unique sample_drawn session_inv_def split: if_splits)

text \<open>C4. Revocation is for good: once a session is revoked, no sequence of calls makes it active again or
  changes its owner, family or token.\<close>

theorem revoked_forever:
  assumes "run_ok mem_inv mem_view w" and "steps p w w'" and "v_sessions (db_of w) i = Some s" and "s_RevokedAt s \<noteq> None"
    and "v_sessions (db_of w') i = Some s'"
  shows "s_RevokedAt s' \<noteq> None \<and> s_UserID s' = s_UserID s \<and> s_FamilyID s' = s_FamilyID s \<and> s_TokenHash s' = s_TokenHash s"
  using assms by (rule mem_runs.revoked_stays)

theorem revoked_forever_witness:
  "\<exists>r w'. run_state (RefreshToken (memory_engine sample_params) ''abc'') (sample_run (Some 0)) = (r, w') \<and>
     (\<forall>s'. v_sessions (db_of w') ''uu'' = Some s' \<longrightarrow> s_RevokedAt s' \<noteq> None)"
proof -
  obtain r w' where run: "run_state (RefreshToken (memory_engine sample_params) ''abc'') (sample_run (Some 0)) = (r, w')"
    by fastforce
  then have "steps sample_params (sample_run (Some 0)) w'" by (intro r_into_rtranclp step_RefreshToken)
  from revoked_forever [OF sample_run_ok this, of "''uu''" "sample_session ''uu'' ''uu'' ''abc'' (Some 0)"] run show ?thesis by auto
qed

text \<open>C5. A deleted account stays deleted: after a user has disappeared, no sequence of calls brings a user
  with this identifier back, and none of its sessions is active.\<close>

theorem deleted_account_stays_gone:
  assumes "run_ok mem_inv mem_view w" and "v_users (db_of w) i \<noteq> None" and "steps p w w'" and "v_users (db_of w') i = None"
    and "steps p w' w''"
  shows "v_users (db_of w'') i = None \<and>
    (\<forall>j s. v_sessions (db_of w'') j = Some s \<longrightarrow> s_UserID s = i \<longrightarrow> s_RevokedAt s \<noteq> None)"
  using assms by (rule mem_runs.gone_stays)

theorem deleted_account_stays_gone_witness:
  "\<exists>w'. run_state (cryden_DeleteAccount (memory_engine sample_params) ''u'' ''pw'') (sample_run None) = (None, w') \<and>
     (\<forall>j s. v_sessions (db_of w') j = Some s \<longrightarrow> s_UserID s = ''u'' \<longrightarrow> s_RevokedAt s \<noteq> None)"
proof -
  have "v_users (db_of (sample_run None)) ''u'' = Some sample_user" by simp
  from DeleteAccount_succeeds [OF _ this, of "''pw''" sample_params] obtain w' where
    run: "run_state (cryden_DeleteAccount (memory_engine sample_params) ''u'' ''pw'') (sample_run None) = (None, w')"
    by auto
  then have "steps sample_params (sample_run None) w'" by (intro r_into_rtranclp step_DeleteAccount)
  from deleted_account_stays_gone [OF sample_run_ok _ this DeleteAccount_removes [OF _ run] rtranclp.rtrancl_refl] run
  show ?thesis by auto
qed

text \<open>C2. A refresh token can be exchanged once. After a successful exchange, and any sequence of calls,
  presenting the same token again fails, with \<open>ErrTokenReused\<close> (or \<open>ErrInvalidToken\<close> when its session is
  gone), and when it is reported as reused no session of its family is active afterwards. The tokens
  drawn during the run are assumed to have hashes that differ from each other and from those stored.\<close>

theorem refresh_token_single_use:
  assumes "run_ok mem_inv mem_view w" and "distinct_hashes (v_sessions (db_of w))"
    and "run_state (RefreshToken (memory_engine p) raw) w = (Inr tk, w1)" and "steps p w1 w2"
    and "run_state (RefreshToken (memory_engine p) raw) w2 = (r, w3)"
    and "new_hashes (token_drawn (ep_gen p)) (w_ext w) (w_tick w) (w_tick w2) (hashes (v_sessions (db_of w)))"
  shows "\<exists>s. v_sessions (db_of w) (s_ID s) = Some s \<and> s_TokenHash s = HashToken raw \<and>
    (r = Inl ErrTokenReused \<and>
       (\<forall>i s'. v_sessions (db_of w3) i = Some s' \<longrightarrow> s_FamilyID s' = s_FamilyID s \<longrightarrow> s_RevokedAt s' \<noteq> None) \<or>
     r = Inl ErrInvalidToken \<and> db_of w3 = db_of w2)"
  using mem_runs.single_use [OF assms(1-5)] assms(6) by (simp add: stored_token_def)

text \<open>A world whose entropy works once, at the draw of the exchange.\<close>

definition sample_once :: mem_world where
  "sample_once = (sample_run None)\<lparr>w_ext := sample_once_ext\<rparr>"

lemma sample_once_simps:
  "w_db sample_once = sample_db [sample_session ''uu'' ''uu'' ''abc'' None]" "w_tick sample_once = 3"
  "w_ext sample_once = sample_once_ext"
  by (simp_all add: sample_once_def)

lemma sample_once_runs:
  "\<exists>tk w1. run_state (RefreshToken (memory_engine sample_params) ''abc'') sample_once = (Inr tk, w1)"
  by (simp add: RefreshToken_def refresh_answer_def Rotate_def rotate_found_def mem_SessionStore_def mem_SessionStore_GetByTokenHash_def sample_once_simps Let_def
     run_simps range_find_def range_order_def CryptoRandTokenGenerator_TokenGenerator_def run_CryptoRandTokenGenerator_New
     token_drawn_def UUIDv7Generator_def UUIDv7Generator_New_def mem_SessionStore_RotateToken_def run_JWTIssuer_Issue
     mem_AuditStore_def mem_AuditStore_Record_def)

lemma sample_once_ok: "run_ok mem_inv mem_view sample_once"
  by (auto simp: run_ok_def session_inv_def sample_once_simps sample_unique sample_drawn split: if_splits)

theorem refresh_token_single_use_witness:
  "\<exists>tk w1 r w2. run_state (RefreshToken (memory_engine sample_params) ''abc'') sample_once = (Inr tk, w1) \<and>
     run_state (RefreshToken (memory_engine sample_params) ''abc'') w1 = (r, w2) \<and>
     (r = Inl ErrTokenReused \<or> r = Inl ErrInvalidToken)"
proof -
  obtain tk w1 where run1: "run_state (RefreshToken (memory_engine sample_params) ''abc'') sample_once = (Inr tk, w1)"
    using sample_once_runs by blast
  obtain r w2 where run2: "run_state (RefreshToken (memory_engine sample_params) ''abc'') w1 = (r, w2)" by fastforce
  have "distinct_hashes (v_sessions (db_of sample_once))"
    by (simp add: distinct_hashes_def sample_once_simps)
  moreover have "hashes (v_sessions (db_of sample_once)) = {HashToken ''abc''}"
    by (auto simp: hashes_def ran_def sample_once_simps)
  then have "new_hashes (token_drawn (ep_gen sample_params)) (w_ext sample_once) (w_tick sample_once) (w_tick w1)
      (hashes (v_sessions (db_of sample_once)))"
    unfolding new_hashes_def sample_once_simps sample_once_draws using sample_hashes_differ by simp
  ultimately show ?thesis
    using refresh_token_single_use [OF sample_once_ok _ run1 rtranclp.rtrancl_refl run2] run1 run2 by blast
qed

section \<open>From the configuration to the tokens\<close>



end
